(* ===== verification/Prelude.thy ===== *)
theory Prelude
  imports Main "HOL-Library.Sublist"
begin

text \<open>
  What every component theory shares: the names of the model's basic types, the
  error values of the Go code, the collections its proofs are driven by, and the
  generic facts on lists, options and sums that the library lacks.

  \<^item> A Go \<open>string\<close> and a Go \<open>[]byte\<close> are both a list of 8-bit characters.
  \<^item> A \<open>time.Time\<close> is an instant in nanoseconds since the Unix epoch, a
    \<open>time.Duration\<close> a number of nanoseconds (its 64-bit wrap-around is written out
    where the code multiplies durations, see theory GoLib).
  \<^item> A Go function returning \<open>(T, error)\<close> returns a value of \<open>go_error + 'a\<close>.
\<close>

type_synonym bytes = string
type_synonym time = int
type_synonym duration = int

definition nanosecond :: duration where "nanosecond = 1"
definition millisecond :: duration where "millisecond = 1000000"
definition second :: duration where "second = 1000000000"
definition minute :: duration where "minute = 60 * second"
definition hour :: duration where "hour = 60 * minute"

text \<open>
  The error values the code tells apart with \<open>errors.Is\<close>, and \<open>ErrText\<close> for an error it
  makes with \<open>errors.New\<close> or receives as an opaque value.
\<close>

datatype go_error =
    ErrLeaseLost
  | ErrNotFound
  | ErrWebhookProcessing
  | ErrDatabase
  | Canceled
  | DeadlineExceeded
  | ErrText string

named_theorems time_units \<open>the values of the duration constants\<close>

lemmas [time_units] =
  nanosecond_def millisecond_def second_def minute_def hour_def

named_theorems inv_intros \<open>preservation of the invariants, one fact per operation\<close>

subsection \<open>Lists\<close>

lemma distinct_map_filter_cong:
  "distinct (map f xs) \<Longrightarrow> distinct (map f (filter P xs))"
  by (induction xs) auto

lemma filter_map_update:
  assumes "\<And>x. P (g x) = P x"
  shows "filter P (map g xs) = map g (filter P xs)"
  using assms by (induction xs) auto

lemma find_map:
  assumes "\<And>x. P (g x) = P x"
  shows "find P (map g xs) = map_option g (find P xs)"
  using assms by (induction xs) auto

lemma find_Some_in: "find P xs = Some x \<Longrightarrow> x \<in> set xs \<and> P x"
  by (auto simp: find_Some_iff)

lemma find_None_filter: "find P xs = None \<longleftrightarrow> filter P xs = []"
  by (induction xs) auto

lemma find_snoc:
  "find P (xs @ [y]) = (case find P xs of Some x \<Rightarrow> Some x | None \<Rightarrow> if P y then Some y else None)"
  by (induction xs) auto

lemma find_filter_key:
  "distinct (map f xs) \<Longrightarrow> find (\<lambda>x. f x = k) (filter P xs) =
     (case find (\<lambda>x. f x = k) xs of None \<Rightarrow> None | Some x \<Rightarrow> if P x then Some x else None)"
proof (induction xs)
  case (Cons a xs)
  show ?case
  proof (cases "f a = k")
    case True
    then have "find (\<lambda>x. f x = k) (filter P xs) = None"
      using Cons.prems by (auto simp: find_None_iff intro: rev_image_eqI)
    then show ?thesis using True by simp
  qed (use Cons in simp)
qed simp

lemma find_distinct_key:
  "distinct (map f xs) \<Longrightarrow> x \<in> set xs \<Longrightarrow> find (\<lambda>y. f y = f x) xs = Some x"
  by (induction xs) auto

lemma filter_distinct_key:
  "distinct (map f xs) \<Longrightarrow> x \<in> set xs \<Longrightarrow> filter (\<lambda>y. f y = f x) xs = [x]"
  by (induction xs) (auto simp: filter_empty_conv intro: rev_image_eqI)

lemma distinct_map_eqD:
  "distinct (map f xs) \<Longrightarrow> x \<in> set xs \<Longrightarrow> y \<in> set xs \<Longrightarrow> f x = f y \<Longrightarrow> x = y"
  by (meson distinct_map inj_onD)

lemma length_filter_partition:
  "length (filter P xs) + length (filter (\<lambda>x. \<not> P x) xs) = length xs"
  by (induction xs) auto

lemma length_filter_le_filter:
  assumes "\<And>x. x \<in> set xs \<Longrightarrow> P x \<Longrightarrow> Q x"
  shows "length (filter P xs) \<le> length (filter Q xs)"
  using assms by (induction xs) auto

lemma take_subset: "x \<in> set (take n xs) \<Longrightarrow> x \<in> set xs"
  by (rule in_set_takeD)

lemma distinct_map_take: "distinct (map f xs) \<Longrightarrow> distinct (map f (take n xs))"
  by (simp flip: take_map)

text \<open>Sorting by a key, as \<open>ORDER BY\<close> does, keeps the rows.\<close>

lemma set_sort_key [simp]: "set (sort_key f xs) = set xs"
  by simp

lemma distinct_map_sort_key:
  "distinct (map f xs) \<Longrightarrow> distinct (map f (sort_key g xs))"
proof -
  assume "distinct (map f xs)"
  then have "distinct xs" and "inj_on f (set xs)" by (auto simp: distinct_map)
  then show ?thesis by (simp add: distinct_map)
qed

lemma take_sorted_le:
  assumes "sorted (map k ys)" and "x \<in> set (take n ys)" and "y \<in> set (drop n ys)"
  shows "k x \<le> k y"
proof -
  have "sorted (map k (take n ys) @ map k (drop n ys))"
    using assms(1) by (metis append_take_drop_id map_append)
  then show ?thesis using assms(2,3) by (auto simp: sorted_append)
qed

subsection \<open>Options and sums\<close>

definition is_err :: "'e + 'a \<Rightarrow> bool" where
  "is_err r = (case r of Inl _ \<Rightarrow> True | Inr _ \<Rightarrow> False)"

lemma is_err_simps [simp]: "is_err (Inl e)" "\<not> is_err (Inr a)"
  by (simp_all add: is_err_def)

definition opt_le :: "time option \<Rightarrow> time \<Rightarrow> bool" where
  \<comment> \<open>SQL's \<open>column <= value\<close>: a NULL column never satisfies it\<close>
  "opt_le v t = (case v of None \<Rightarrow> False | Some u \<Rightarrow> u \<le> t)"

lemma opt_le_simps [simp]: "\<not> opt_le None t" "opt_le (Some u) t \<longleftrightarrow> u \<le> t"
  by (simp_all add: opt_le_def)

lemma opt_le_mono: "opt_le v t \<Longrightarrow> t \<le> t' \<Longrightarrow> opt_le v t'"
  by (cases v) auto

end
