(* ===== verification/GoLib.thy ===== *)
theory GoLib
  imports Prelude
begin

text \<open>
  The part of Go and of its standard library that the code rests on: 64-bit
  arithmetic, \<open>strings\<close> (\<open>TrimSpace\<close>, \<open>Split\<close>, \<open>Cut\<close>, prefixes), \<open>strconv\<close>
  (\<open>ParseInt\<close>, \<open>Atoi\<close>, \<open>Itoa\<close>), \<open>encoding/hex\<close> and \<open>context\<close>. Each is a definition that
  computes what the library documents, with the round trips the components use.
\<close>

section \<open>64-bit integers\<close>

text \<open>
  \<open>int\<close>, \<open>int64\<close> and \<open>time.Duration\<close> are 64-bit two's complement: \<open>wrap64\<close> is the value
  an arithmetic result is reduced to.
\<close>

definition min_int64 :: int where "min_int64 = - 9223372036854775808"
definition max_int64 :: int where "max_int64 = 9223372036854775807"

definition in_int64 :: "int \<Rightarrow> bool" where
  "in_int64 x \<longleftrightarrow> min_int64 \<le> x \<and> x \<le> max_int64"

definition wrap64 :: "int \<Rightarrow> int" where
  "wrap64 x = (x + 9223372036854775808) mod 18446744073709551616 - 9223372036854775808"

lemmas int64_defs = in_int64_def min_int64_def max_int64_def

lemma wrap64_in_int64 [simp]: "in_int64 (wrap64 x)"
proof -
  have "0 \<le> (x + 9223372036854775808) mod 18446744073709551616"
    and "(x + 9223372036854775808) mod 18446744073709551616 < 18446744073709551616"
    by (rule pos_mod_sign, simp, rule pos_mod_bound, simp)
  then show ?thesis by (simp add: wrap64_def int64_defs)
qed

lemma wrap64_id: "in_int64 x \<Longrightarrow> wrap64 x = x"
  by (simp add: wrap64_def int64_defs)

text \<open>Rounding a positive quotient up, as \<open>(a + b - 1) / b\<close> does.\<close>

lemma ceil_div_bounds:
  fixes a b :: int
  assumes "0 < b"
  shows "a \<le> (a + b - 1) div b * b" and "((a + b - 1) div b - 1) * b < a"
proof -
  have "(a + b - 1) div b * b = a + b - 1 - (a + b - 1) mod b"
    by (simp add: minus_mod_eq_div_mult)
  moreover have "0 \<le> (a + b - 1) mod b" and "(a + b - 1) mod b < b" using assms by simp_all
  ultimately show "a \<le> (a + b - 1) div b * b" and "((a + b - 1) div b - 1) * b < a"
    by (simp_all add: left_diff_distrib)
qed

text \<open>Go's zero \<open>time.Time\<close>, the first of January of year 1.\<close>

definition zero_time :: time where "zero_time = - 62135596800 * second"

section \<open>strings\<close>

text \<open>
  \<open>strings.TrimSpace\<close> drops Unicode white space at both ends. Each entry of
  \<open>space_encodings\<close> is the UTF-8 form of a character of \<open>unicode.IsSpace\<close>: the six ASCII
  ones, U+0085, U+00A0, U+1680, U+2000 to U+200A, U+2028, U+2029, U+202F, U+205F, U+3000.
\<close>

definition space_encodings :: "string list" where
  "space_encodings =
     [[CHR 0x09], [CHR 0x0A], [CHR 0x0B], [CHR 0x0C], [CHR 0x0D], [CHR 0x20],
      [CHR 0xC2, CHR 0x85], [CHR 0xC2, CHR 0xA0], [CHR 0xE1, CHR 0x9A, CHR 0x80]]
     @ map (\<lambda>n. [CHR 0xE2, CHR 0x80, char_of n]) ([0x80..<0x8B] @ [0xA8, 0xA9, 0xAF])
     @ [[CHR 0xE2, CHR 0x81, CHR 0x9F], [CHR 0xE3, CHR 0x80, CHR 0x80]]"

definition starts_with :: "string \<Rightarrow> string \<Rightarrow> bool" where
  "starts_with p s \<longleftrightarrow> take (length p) s = p"

function strip_prefixes :: "string list \<Rightarrow> string \<Rightarrow> string" where
  "strip_prefixes ps s =
     (case find (\<lambda>p. p \<noteq> [] \<and> starts_with p s) ps of
        None \<Rightarrow> s
      | Some p \<Rightarrow> strip_prefixes ps (drop (length p) s))"
  by pat_completeness auto
termination
proof (relation "measure (\<lambda>(ps, s). length s)")
  show "wf (measure (\<lambda>(ps :: string list, s :: string). length s))" by simp
next
  fix ps :: "string list" and s p
  assume "find (\<lambda>p. p \<noteq> [] \<and> starts_with p s) ps = Some p"
  then have "p \<noteq> []" and "take (length p) s = p"
    by (auto dest: find_Some_in simp: starts_with_def)
  then show "((ps, drop (length p) s), (ps, s)) \<in> measure (\<lambda>(ps, s). length s)"
    by (cases s) auto
qed

declare strip_prefixes.simps [simp del]

definition trim_left :: "string \<Rightarrow> string" where
  "trim_left s = strip_prefixes space_encodings s"

definition trim_right :: "string \<Rightarrow> string" where
  "trim_right s = rev (strip_prefixes (map rev space_encodings) (rev s))"

definition TrimSpace :: "string \<Rightarrow> string" where
  "TrimSpace s = trim_right (trim_left s)"

text \<open>A byte that neither begins nor ends an encoded space.\<close>

definition solid :: "char \<Rightarrow> bool" where
  "solid c \<longleftrightarrow> 32 < (of_char c :: nat) \<and> (of_char c :: nat) < 128"

lemma space_encodings_not_solid:
  "\<forall>p \<in> set space_encodings. p \<noteq> [] \<and> \<not> solid (hd p) \<and> \<not> solid (last p)"
  by (simp add: space_encodings_def upt_rec solid_def)

lemma strip_prefixes_solid:
  assumes "\<And>p. p \<in> set ps \<Longrightarrow> p \<noteq> [] \<Longrightarrow> \<not> solid (hd p)" and "s = [] \<or> solid (hd s)"
  shows "strip_prefixes ps s = s"
proof -
  have "find (\<lambda>p. p \<noteq> [] \<and> starts_with p s) ps = None"
  proof (rule ccontr)
    assume "find (\<lambda>p. p \<noteq> [] \<and> starts_with p s) ps \<noteq> None"
    then obtain p where "p \<in> set ps" "p \<noteq> []" "take (length p) s = p"
      by (auto dest: find_Some_in simp: starts_with_def)
    moreover from this have "s \<noteq> []" "hd p = hd s" by (metis take_Nil, metis hd_take length_greater_0_conv)
    ultimately show False using assms(1) [of p] assms(2) by simp
  qed
  then show ?thesis by (subst strip_prefixes.simps) simp
qed

lemma TrimSpace_solid:
  assumes "s = [] \<or> (solid (hd s) \<and> solid (last s))"
  shows "TrimSpace s = s"
proof -
  have "trim_left s = s" unfolding trim_left_def
  proof (rule strip_prefixes_solid)
    show "s = [] \<or> solid (hd s)" using assms by blast
  qed (use space_encodings_not_solid in blast)
  moreover have "strip_prefixes (map rev space_encodings) (rev s) = rev s"
  proof (rule strip_prefixes_solid)
    fix p assume "p \<in> set (map rev space_encodings)" and "p \<noteq> []"
    then obtain q where "q \<in> set space_encodings" and "p = rev q" by (metis imageE set_map)
    then show "\<not> solid (hd p)" using space_encodings_not_solid by (simp add: hd_rev)
  next
    show "rev s = [] \<or> solid (hd (rev s))" using assms by (auto simp: hd_rev)
  qed
  ultimately show ?thesis by (simp add: TrimSpace_def trim_right_def)
qed

lemma TrimSpace_all_solid: "(\<And>c. c \<in> set s \<Longrightarrow> solid c) \<Longrightarrow> TrimSpace s = s"
  by (rule TrimSpace_solid) (metis hd_in_set last_in_set)

lemma TrimSpace_Nil [simp]: "TrimSpace [] = []"
  by (simp add: TrimSpace_solid)

lemma trim_left_space: "trim_left (CHR '' '' # s) = trim_left s"
proof -
  have "find (\<lambda>p. p \<noteq> [] \<and> starts_with p (CHR '' '' # s)) space_encodings = Some [CHR '' '']"
    by (simp add: space_encodings_def starts_with_def upt_rec)
  then show ?thesis unfolding trim_left_def by (subst strip_prefixes.simps) simp
qed

lemma TrimSpace_leading_space: "TrimSpace (CHR '' '' # s) = TrimSpace s"
  by (simp add: TrimSpace_def trim_left_space)

lemma strip_prefixes_none: "find (\<lambda>p. p \<noteq> [] \<and> starts_with p (strip_prefixes ps s)) ps = None"
proof (induction ps s rule: strip_prefixes.induct)
  case (1 ps s)
  show ?case
    by (cases "find (\<lambda>p. p \<noteq> [] \<and> starts_with p s) ps")
      (simp_all add: strip_prefixes.simps [of ps s] "1.IH")
qed

lemma strip_prefixes_suffix: "\<exists>k. strip_prefixes ps s = drop k s"
proof (induction ps s rule: strip_prefixes.induct)
  case (1 ps s)
  show ?case
  proof (cases "find (\<lambda>p. p \<noteq> [] \<and> starts_with p s) ps")
    case None
    then have "strip_prefixes ps s = drop 0 s" by (simp add: strip_prefixes.simps [of ps s])
    then show ?thesis by blast
  next
    case (Some p)
    from "1.IH" [OF Some] obtain k where "strip_prefixes ps (drop (length p) s) = drop k (drop (length p) s)" ..
    then show ?thesis using Some by (simp add: strip_prefixes.simps [of ps s]) metis
  qed
qed

lemma strip_prefixes_absent: "find (\<lambda>p. p \<noteq> [] \<and> starts_with p s) ps = None \<Longrightarrow> strip_prefixes ps s = s"
  by (simp add: strip_prefixes.simps [of ps s])

lemma TrimSpace_idem [simp]: "TrimSpace (TrimSpace s) = TrimSpace s"
proof -
  define l where "l = trim_left s"
  obtain k where "strip_prefixes (map rev space_encodings) (rev l) = drop k (rev l)" using strip_prefixes_suffix by blast
  then have r: "TrimSpace s = take (length l - k) l" by (simp add: TrimSpace_def trim_right_def l_def rev_drop)
  have "find (\<lambda>p. p \<noteq> [] \<and> starts_with p l) space_encodings = None"
    unfolding l_def trim_left_def by (rule strip_prefixes_none)
  moreover have "starts_with p l" if "starts_with p (take n l)" for p n
  proof -
    have p: "take (min (length p) n) l = p" using that by (simp add: starts_with_def take_take)
    then have "length p \<le> n" by (metis length_take min.boundedE min.cobounded2)
    then show ?thesis using p by (simp add: starts_with_def min_def)
  qed
  ultimately have "trim_left (TrimSpace s) = TrimSpace s"
    unfolding r trim_left_def by (intro strip_prefixes_absent) (auto simp: find_None_iff)
  moreover have "trim_right (TrimSpace s) = TrimSpace s"
    unfolding TrimSpace_def trim_right_def by (simp add: strip_prefixes_absent strip_prefixes_none)
  ultimately show ?thesis by (simp add: TrimSpace_def [of "TrimSpace s"])
qed

text \<open>\<open>strings.Split\<close> with a one-byte separator, and \<open>strings.Cut\<close> with a one-byte one.\<close>

fun split_on :: "char \<Rightarrow> string \<Rightarrow> string list" where
  "split_on c [] = [[]]"
| "split_on c (x # xs) =
     (if x = c then [] # split_on c xs
      else (case split_on c xs of [] \<Rightarrow> [[x]] | p # ps \<Rightarrow> (x # p) # ps))"

fun cut_at :: "char \<Rightarrow> string \<Rightarrow> (string \<times> string) option" where
  "cut_at c [] = None"
| "cut_at c (x # xs) =
     (if x = c then Some ([], xs)
      else map_option (\<lambda>(a, b). (x # a, b)) (cut_at c xs))"

lemma split_on_nonempty [simp]: "split_on c s \<noteq> []"
  by (induction s) (auto split: list.splits)

lemma split_on_absent: "c \<notin> set s \<Longrightarrow> split_on c s = [s]"
  by (induction s) auto

lemma split_on_append: "c \<notin> set s \<Longrightarrow> split_on c (s @ c # t) = s # split_on c t"
  by (induction s) auto

lemma cut_at_append: "c \<notin> set a \<Longrightarrow> cut_at c (a @ c # b) = Some (a, b)"
  by (induction a) auto

lemma cut_at_SomeD: "cut_at c s = Some (a, b) \<Longrightarrow> s = a @ c # b \<and> c \<notin> set a"
  by (induction s arbitrary: a) (auto split: if_splits)

section \<open>strconv\<close>

definition is_digit :: "char \<Rightarrow> bool" where
  "is_digit c \<longleftrightarrow> 48 \<le> (of_char c :: nat) \<and> (of_char c :: nat) \<le> 57"

definition digit_val :: "char \<Rightarrow> int" where
  "digit_val c = int (of_char c) - 48"

definition digit_char :: "nat \<Rightarrow> char" where
  "digit_char d = char_of (d + 48)"

definition digits_val :: "string \<Rightarrow> int" where
  "digits_val ds = foldl (\<lambda>n c. 10 * n + digit_val c) 0 ds"

text \<open>
  \<open>strconv.ParseInt(s, 10, 64)\<close> and \<open>strconv.Atoi(s)\<close>: an optional sign and at least one
  digit, nothing else, and a value that fits; \<open>None\<close> is any error they return.
\<close>

definition ParseInt :: "string \<Rightarrow> int option" where
  "ParseInt s =
     (let (neg, ds) =
            (case s of
               [] \<Rightarrow> (False, [])
             | c # t \<Rightarrow> (if c = CHR ''-'' then (True, t)
                        else if c = CHR ''+'' then (False, t) else (False, s)));
          v = (if neg then - digits_val ds else digits_val ds)
      in if ds = [] \<or> \<not> list_all is_digit ds \<or> \<not> in_int64 v then None else Some v)"

abbreviation Atoi :: "string \<Rightarrow> int option" where
  "Atoi \<equiv> ParseInt"

fun digits_of :: "nat \<Rightarrow> string" where
  "digits_of n = (if n < 10 then [digit_char n] else digits_of (n div 10) @ [digit_char (n mod 10)])"

declare digits_of.simps [simp del]

definition FormatInt :: "int \<Rightarrow> string" where
  "FormatInt i = (if i < 0 then CHR ''-'' # digits_of (nat (- i)) else digits_of (nat i))"

lemma digit_char_digit: "d < 10 \<Longrightarrow> is_digit (digit_char d) \<and> digit_val (digit_char d) = int d"
  by (simp add: is_digit_def digit_val_def digit_char_def)

lemma is_digit_solid: "is_digit c \<Longrightarrow> solid c"
  by (simp add: is_digit_def solid_def)

lemma digits_of_digits: "list_all is_digit (digits_of n) \<and> digits_of n \<noteq> []"
proof (induction n rule: digits_of.induct)
  case (1 n)
  then show ?case
    by (cases "n < 10") (simp_all add: digits_of.simps [of n] digit_char_digit)
qed

lemma digits_val_snoc [simp]: "digits_val (ds @ [c]) = 10 * digits_val ds + digit_val c"
  by (simp add: digits_val_def)

lemma digits_val_digits_of: "digits_val (digits_of n) = int n"
proof (induction n rule: digits_of.induct)
  case (1 n)
  show ?case
  proof (cases "n < 10")
    case True
    then show ?thesis
      by (simp add: digits_of.simps [of n] digits_val_def digit_char_digit)
  next
    case False
    have "10 * int (n div 10) + int (n mod 10) = int n" by presburger
    with False "1.IH" show ?thesis
      by (simp add: digits_of.simps [of n] digit_char_digit)
  qed
qed

lemma digits_of_hd: "c \<in> set (digits_of n) \<Longrightarrow> is_digit c"
  using digits_of_digits [of n] by (simp add: list_all_iff)

lemma ParseInt_FormatInt:
  assumes "in_int64 i"
  shows "ParseInt (FormatInt i) = Some i"
proof (cases "i < 0")
  case True
  then show ?thesis using assms digits_of_digits [of "nat (- i)"]
    by (simp add: ParseInt_def FormatInt_def digits_val_digits_of)
next
  case False
  obtain c t where ct: "digits_of (nat i) = c # t"
    using digits_of_digits [of "nat i"] by (cases "digits_of (nat i)") auto
  then have "is_digit c" using digits_of_hd [of c "nat i"] by simp
  then have "c \<noteq> CHR ''-''" and "c \<noteq> CHR ''+''" by (auto simp: is_digit_def)
  then show ?thesis
    using False assms ct digits_of_digits [of "nat i"] digits_val_digits_of [of "nat i"]
    by (simp add: ParseInt_def FormatInt_def)
qed

lemma FormatInt_chars: "c \<in> set (FormatInt i) \<Longrightarrow> is_digit c \<or> c = CHR ''-''"
  by (auto simp: FormatInt_def dest: digits_of_hd split: if_splits)

lemma FormatInt_solid: "c \<in> set (FormatInt i) \<Longrightarrow> solid c \<and> c \<noteq> CHR '','' \<and> c \<noteq> CHR ''=''"
  by (auto dest!: FormatInt_chars simp: is_digit_def solid_def)

lemma FormatInt_nonempty: "FormatInt i \<noteq> []"
  using digits_of_digits by (simp add: FormatInt_def)

lemma ParseInt_in_int64: "ParseInt s = Some v \<Longrightarrow> in_int64 v"
  by (auto simp: ParseInt_def Let_def split: prod.splits if_splits)

section \<open>encoding/hex\<close>

definition hex_char :: "nat \<Rightarrow> char" where
  "hex_char d = (if d < 10 then char_of (d + 48) else char_of (d + 87))"

definition unhex_char :: "char \<Rightarrow> nat option" where
  "unhex_char c =
     (let n = of_char c :: nat
      in if 48 \<le> n \<and> n \<le> 57 then Some (n - 48)
         else if 97 \<le> n \<and> n \<le> 102 then Some (n - 87)
         else if 65 \<le> n \<and> n \<le> 70 then Some (n - 55)
         else None)"

definition hex_encode :: "bytes \<Rightarrow> string" where
  "hex_encode bs = concat (map (\<lambda>b. [hex_char (of_char b div 16), hex_char (of_char b mod 16)]) bs)"

fun hex_decode :: "string \<Rightarrow> bytes option" where
  "hex_decode [] = Some []"
| "hex_decode [c] = None"
| "hex_decode (a # b # s) =
     (case (unhex_char a, unhex_char b) of
        (Some x, Some y) \<Rightarrow> map_option (\<lambda>t. char_of (16 * x + y) # t) (hex_decode s)
      | _ \<Rightarrow> None)"

lemma unhex_hex_char: "d < 16 \<Longrightarrow> unhex_char (hex_char d) = Some d"
  by (auto simp: unhex_char_def hex_char_def Let_def)

lemma of_char_less: "(of_char c :: nat) < 256"
proof -
  have "(of_char c :: nat) = of_char c mod 256" by simp
  then show ?thesis by (metis mod_less_divisor zero_less_numeral)
qed

lemma of_char_div_less: "(of_char c :: nat) div 16 < 16"
  by (rule less_mult_imp_div_less) (use of_char_less [of c] in simp)

lemma hex_decode_encode: "hex_decode (hex_encode bs) = Some bs"
proof (induction bs)
  case (Cons b bs)
  have "(of_char b :: nat) div 16 < 16" by (rule of_char_div_less)
  then show ?case using Cons
    by (simp add: hex_encode_def unhex_hex_char)
qed (simp add: hex_encode_def)

lemma of_char_hex_char: "d < 16 \<Longrightarrow> (of_char (hex_char d) :: nat) = (if d < 10 then d + 48 else d + 87)"
  by (simp add: hex_char_def)

lemma hex_char_solid:
  assumes "d < 16"
  shows "solid (hex_char d)" and "hex_char d \<noteq> CHR '',''" and "hex_char d \<noteq> CHR ''=''"
  using of_char_hex_char [OF assms] assms by (auto simp: solid_def split: if_splits)

lemma hex_encode_chars:
  assumes "c \<in> set (hex_encode bs)"
  shows "solid c \<and> c \<noteq> CHR '','' \<and> c \<noteq> CHR ''=''"
proof -
  obtain b where b: "c = hex_char (of_char b div 16) \<or> c = hex_char (of_char b mod 16)"
    using assms by (auto simp: hex_encode_def)
  have "(of_char b :: nat) mod 16 < 16" by (rule mod_less_divisor) simp
  from hex_char_solid [OF this] hex_char_solid [OF of_char_div_less [of b]] b
  show ?thesis by (elim disjE) simp_all
qed

lemma length_hex_encode: "length (hex_encode bs) = 2 * length bs"
  by (induction bs) (auto simp: hex_encode_def)

section \<open>context\<close>

text \<open>
  A \<open>context.Context\<close> is known by when it was cancelled, if it was, and by its deadline. \<open>ctx_err\<close>
  is \<open>Err()\<close> at an instant: whichever of the two came first.
\<close>

record go_context =
  cancelled_at :: "time option"
  ctx_deadline :: "time option"

definition background :: go_context where
  "background = \<lparr>cancelled_at = None, ctx_deadline = None\<rparr>"

definition ctx_err :: "go_context \<Rightarrow> time \<Rightarrow> go_error option" where
  "ctx_err ctx now =
     (case (cancelled_at ctx, ctx_deadline ctx) of
        (Some c, Some t) \<Rightarrow>
          if c \<le> now \<and> c \<le> t then Some Canceled else if t \<le> now then Some DeadlineExceeded else None
      | (Some c, None) \<Rightarrow> if c \<le> now then Some Canceled else None
      | (None, Some t) \<Rightarrow> if t \<le> now then Some DeadlineExceeded else None
      | (None, None) \<Rightarrow> None)"

definition WithDeadline :: "go_context \<Rightarrow> time \<Rightarrow> go_context" where
  "WithDeadline ctx t = ctx\<lparr>ctx_deadline :=
     Some (case ctx_deadline ctx of None \<Rightarrow> t | Some u \<Rightarrow> min t u)\<rparr>"

definition error_text :: "go_error \<Rightarrow> string" where
  "error_text e =
     (case e of
        Canceled \<Rightarrow> ''context canceled''
      | DeadlineExceeded \<Rightarrow> ''context deadline exceeded''
      | ErrLeaseLost \<Rightarrow> ''delivery lease lost''
      | ErrNotFound \<Rightarrow> ''not found''
      | ErrWebhookProcessing \<Rightarrow> ''webhook delivery is in progress''
      | ErrDatabase \<Rightarrow> ''database error''
      | ErrText s \<Rightarrow> s)"

lemma ctx_err_mono: "ctx_err ctx t \<noteq> None \<Longrightarrow> t \<le> t' \<Longrightarrow> ctx_err ctx t' \<noteq> None"
  by (auto simp: ctx_err_def split: option.splits if_splits)

lemma ctx_err_WithDeadline:
  "ctx_err (WithDeadline ctx t) now = None \<longleftrightarrow> ctx_err ctx now = None \<and> now < t"
  by (auto simp: ctx_err_def WithDeadline_def split: option.splits if_splits)

end
