(* ===== verification/Json.thy ===== *)
theory Json
  imports GoLib "HOL-Library.Char_ord" "HOL-Library.List_Lexorder"
begin

text \<open>
  \<open>encoding/json\<close> as the code uses it: \<open>Marshal\<close> and \<open>Unmarshal\<close> of an \<open>http.Header\<close>, a map
  from names to lists of values, which is how a webhook's headers are kept in its row.
  \<open>quote\<close> follows \<open>appendString\<close> with HTML escaping (UTF-8 is checked rune by rune, an invalid
  byte becomes U+FFFD), \<open>unquote\<close> the decoder's string literals. Keys are written in sorted
  order. Decoding covers objects of arrays of strings, the documents \<open>Marshal\<close> makes of a
  header; any other document is an error.

  The lemmas show that decoding inverts encoding on headers in valid UTF-8.
\<close>

type_synonym header = "(string \<times> string list) list"

definition byte :: "char \<Rightarrow> nat" where "byte c = of_char c"

definition backslash :: char where "backslash = CHR 0x5C"
definition dquote :: char where "dquote = CHR 0x22"

text \<open>ASCII letters.\<close>

definition to_upper :: "char \<Rightarrow> char" where
  "to_upper c = (if 97 \<le> byte c \<and> byte c \<le> 122 then char_of (byte c - 32) else c)"

definition to_lower :: "char \<Rightarrow> char" where
  "to_lower c = (if 65 \<le> byte c \<and> byte c \<le> 90 then char_of (byte c + 32) else c)"

section \<open>UTF-8\<close>

definition cont :: "char \<Rightarrow> bool" where "cont c \<longleftrightarrow> 128 \<le> byte c \<and> byte c < 192"

definition second_ok :: "nat \<Rightarrow> char \<Rightarrow> bool" where
  \<comment> \<open>the second byte excludes overlong forms, surrogates and runes beyond U+10FFFF\<close>
  "second_ok a c \<longleftrightarrow> cont c \<and> (a = 224 \<longrightarrow> 160 \<le> byte c) \<and> (a = 237 \<longrightarrow> byte c < 160) \<and>
     (a = 240 \<longrightarrow> 144 \<le> byte c) \<and> (a = 244 \<longrightarrow> byte c < 144)"

text \<open>The length of the rune the bytes begin with, 0 when they begin with an invalid one.\<close>

fun rune_len :: "bytes \<Rightarrow> nat" where
  "rune_len [] = 0"
| "rune_len (a # rest) =
     (if byte a < 128 then 1
      else if 194 \<le> byte a \<and> byte a < 224 then
        (case rest of b # _ \<Rightarrow> if cont b then 2 else 0 | _ \<Rightarrow> 0)
      else if 224 \<le> byte a \<and> byte a < 240 then
        (case rest of b # c # _ \<Rightarrow> if second_ok (byte a) b \<and> cont c then 3 else 0 | _ \<Rightarrow> 0)
      else if 240 \<le> byte a \<and> byte a < 245 then
        (case rest of b # c # d # _ \<Rightarrow> if second_ok (byte a) b \<and> cont c \<and> cont d then 4 else 0 | _ \<Rightarrow> 0)
      else 0)"

definition utf8_encode :: "nat \<Rightarrow> bytes" where
  "utf8_encode r =
     (if r < 128 then [char_of r]
      else if r < 2048 then [char_of (192 + r div 64), char_of (128 + r mod 64)]
      else if r < 65536 then
        [char_of (224 + r div 4096), char_of (128 + r div 64 mod 64), char_of (128 + r mod 64)]
      else
        [char_of (240 + r div 262144), char_of (128 + r div 4096 mod 64),
         char_of (128 + r div 64 mod 64), char_of (128 + r mod 64)])"

abbreviation replacement_char :: nat where "replacement_char \<equiv> 65533"

lemma rune_len_le: "rune_len s \<le> length s"
  by (cases s) (auto split: list.splits)

lemma rune_len_take:
  assumes "rune_len s \<noteq> 0" shows "rune_len (take (rune_len s) s @ rest) = rune_len s"
proof (cases s)
  case s: (Cons a t)
  show ?thesis
  proof (cases t)
    case t: (Cons b u)
    show ?thesis
    proof (cases u)
      case u: (Cons c v)
      show ?thesis using assms by (cases v) (simp_all add: s t u split: if_splits)
    qed (use assms in \<open>simp add: s t split: if_splits\<close>)
  qed (use assms in \<open>simp add: s split: if_splits\<close>)
qed (use assms in simp)

lemma rune_len_ascii [simp]: "byte a < 128 \<Longrightarrow> rune_len (a # s) = 1"
  by simp

declare rune_len.simps(2) [simp del]

text \<open>The bytes split into runes, all valid.\<close>

function utf8_valid :: "bytes \<Rightarrow> bool" where
  "utf8_valid s =
     (if s = [] then True else if rune_len s = 0 then False else utf8_valid (drop (rune_len s) s))"
  by auto
termination by (relation "measure length") auto

declare utf8_valid.simps [simp del]

section \<open>String literals\<close>

definition u_escape :: "nat \<Rightarrow> string" where
  "u_escape r = [backslash, CHR ''u'', hex_char (r div 4096), hex_char (r div 256 mod 16),
     hex_char (r div 16 mod 16), hex_char (r mod 16)]"

definition escape_ascii :: "char \<Rightarrow> string" where
  "escape_ascii c =
     (if c = dquote \<or> c = backslash then [backslash, c]
      else if byte c = 8 then [backslash, CHR ''b'']
      else if byte c = 12 then [backslash, CHR ''f'']
      else if byte c = 10 then [backslash, CHR ''n'']
      else if byte c = 13 then [backslash, CHR ''r'']
      else if byte c = 9 then [backslash, CHR ''t'']
      else if byte c < 32 \<or> c = CHR ''<'' \<or> c = CHR ''>'' \<or> c = CHR ''&'' then u_escape (byte c)
      else [c])"

definition line_separator :: bytes where "line_separator = utf8_encode 8232"
definition paragraph_separator :: bytes where "paragraph_separator = utf8_encode 8233"

function quote_body :: "bytes \<Rightarrow> string" where
  "quote_body [] = []"
| "quote_body (c # cs) =
     (if byte c < 128 then escape_ascii c @ quote_body cs
      else
        (let n = rune_len (c # cs); r = take n (c # cs)
         in if n = 0 then u_escape replacement_char @ quote_body cs
            else (if r = line_separator then u_escape 8232
                  else if r = paragraph_separator then u_escape 8233 else r) @
                 quote_body (drop n (c # cs))))"
  by pat_completeness auto
termination by (relation "measure length") auto

definition quote :: "bytes \<Rightarrow> string" where
  "quote s = dquote # quote_body s @ [dquote]"

fun getu4 :: "string \<Rightarrow> (nat \<times> string) option" where
  "getu4 (a # b # c # d # rest) =
     (case (unhex_char a, unhex_char b, unhex_char c, unhex_char d) of
        (Some w, Some x, Some y, Some z) \<Rightarrow> Some (((w * 16 + x) * 16 + y) * 16 + z, rest)
      | _ \<Rightarrow> None)"
| "getu4 _ = None"

text \<open>The escape \<open>\u\<close>, with the second half of a surrogate pair when one follows.\<close>

definition unescape_u :: "string \<Rightarrow> (bytes \<times> string) option" where
  "unescape_u s =
     (case getu4 s of
        None \<Rightarrow> None
      | Some (r, rest) \<Rightarrow>
          if r < 55296 \<or> 57344 \<le> r then Some (utf8_encode r, rest)
          else
            (case (if r < 56320 \<and> take 2 rest = [backslash, CHR ''u''] then getu4 (drop 2 rest) else None) of
               Some (r2, rest2) \<Rightarrow>
                 if 56320 \<le> r2 \<and> r2 < 57344
                 then Some (utf8_encode (65536 + (r - 55296) * 1024 + (r2 - 56320)), rest2)
                 else Some (utf8_encode replacement_char, rest)
             | None \<Rightarrow> Some (utf8_encode replacement_char, rest)))"

lemma getu4_length: "getu4 s = Some (r, rest) \<Longrightarrow> length rest < length s"
  by (cases s rule: getu4.cases) (auto split: option.splits)

lemma unescape_u_length: "unescape_u s = Some (b, rest) \<Longrightarrow> length rest < length s"
  by (auto simp: unescape_u_def dest!: getu4_length split: option.splits if_splits prod.splits)

definition cons_to :: "bytes \<Rightarrow> (bytes \<times> string) option \<Rightarrow> (bytes \<times> string) option" where
  "cons_to b r = (case r of None \<Rightarrow> None | Some (s, rest) \<Rightarrow> Some (b @ s, rest))"

definition simple_escape :: "char \<Rightarrow> char option" where
  "simple_escape e =
     (if e = dquote \<or> e = backslash \<or> e = CHR ''/'' then Some e
      else if e = CHR ''b'' then Some (char_of (8::nat))
      else if e = CHR ''f'' then Some (char_of (12::nat))
      else if e = CHR ''n'' then Some (char_of (10::nat))
      else if e = CHR ''r'' then Some (char_of (13::nat))
      else if e = CHR ''t'' then Some (char_of (9::nat))
      else None)"

text \<open>The rest of a literal after its opening quote: its value and what follows it.\<close>

function unquote :: "string \<Rightarrow> (bytes \<times> string) option" where
  "unquote [] = None"
| "unquote (c # cs) =
     (if c = dquote then Some ([], cs)
      else if c = backslash then
        (case cs of
           [] \<Rightarrow> None
         | e # cs' \<Rightarrow>
             if e = CHR ''u'' then
               (case unescape_u cs' of
                  None \<Rightarrow> None
                | Some (b, rest) \<Rightarrow> cons_to b (unquote rest))
             else (case simple_escape e of
                     None \<Rightarrow> None
                   | Some b \<Rightarrow> cons_to [b] (unquote cs')))
      else if byte c < 32 then None
      else if rune_len (c # cs) = 0 then cons_to (utf8_encode replacement_char) (unquote cs)
      else cons_to (take (rune_len (c # cs)) (c # cs)) (unquote (drop (rune_len (c # cs)) (c # cs))))"
  by pat_completeness auto
termination by (relation "measure length") (auto dest: unescape_u_length)

lemma cons_to_simps [simp]: "cons_to b None = None" "cons_to b (Some (s, rest)) = Some (b @ s, rest)"
  by (simp_all add: cons_to_def)

section \<open>Headers\<close>

definition comma_sep :: "string list \<Rightarrow> string" where
  "comma_sep xs = (case xs of [] \<Rightarrow> [] | x # rest \<Rightarrow> x @ concat (map (\<lambda>y. CHR '','' # y) rest))"

definition marshal_values :: "string list \<Rightarrow> string" where
  "marshal_values vs = ''['' @ comma_sep (map quote vs) @ '']''"

definition marshal_header :: "header \<Rightarrow> string" where
  "marshal_header h =
     ''{'' @ comma_sep (map (\<lambda>(k, vs). quote k @ '':'' @ marshal_values vs) (sort_key fst h)) @ ''}''"

definition json_space :: "char \<Rightarrow> bool" where
  "json_space c \<longleftrightarrow> c = CHR '' '' \<or> byte c = 9 \<or> byte c = 10 \<or> byte c = 13"

definition skip_space :: "string \<Rightarrow> string" where
  "skip_space s = dropWhile json_space s"

definition parse_string :: "string \<Rightarrow> (bytes \<times> string) option" where
  "parse_string s =
     (case skip_space s of
        [] \<Rightarrow> None
      | c # rest \<Rightarrow> if c = dquote then unquote rest else None)"

text \<open>
  The elements of an array or object after its opening bracket: \<open>item\<close> reads one element,
  \<open>close\<close> is the closing bracket, \<open>n\<close> bounds the number of elements (the caller passes the
  length of the input, which no input exceeds).
\<close>

fun parse_items :: "(string \<Rightarrow> ('a \<times> string) option) \<Rightarrow> char \<Rightarrow> nat \<Rightarrow> string \<Rightarrow> ('a list \<times> string) option" where
  "parse_items item close 0 s = None"
| "parse_items item close (Suc n) s =
     (case item s of
        None \<Rightarrow> None
      | Some (x, rest) \<Rightarrow>
          (case skip_space rest of
             [] \<Rightarrow> None
           | c # rest' \<Rightarrow>
               if c = close then Some ([x], rest')
               else if c = CHR '','' then
                 (case parse_items item close n rest' of
                    None \<Rightarrow> None | Some (xs, rest'') \<Rightarrow> Some (x # xs, rest''))
               else None))"

definition parse_seq :: "(string \<Rightarrow> ('a \<times> string) option) \<Rightarrow> char \<Rightarrow> char \<Rightarrow> string \<Rightarrow> ('a list \<times> string) option" where
  "parse_seq item open close s =
     (case skip_space s of
        [] \<Rightarrow> None
      | c # rest \<Rightarrow>
          if c \<noteq> open then None
          else (case skip_space rest of
                  [] \<Rightarrow> None
                | d # rest' \<Rightarrow> if d = close then Some ([], rest') else parse_items item close (length rest) rest))"

definition parse_field :: "string \<Rightarrow> ((string \<times> string list) \<times> string) option" where
  "parse_field s =
     (case parse_string s of
        None \<Rightarrow> None
      | Some (k, rest) \<Rightarrow>
          (case skip_space rest of
             [] \<Rightarrow> None
           | c # rest' \<Rightarrow>
               if c \<noteq> CHR '':'' then None
               else (case parse_seq parse_string (CHR ''['') (CHR '']'') rest' of
                       None \<Rightarrow> None | Some (vs, rest'') \<Rightarrow> Some ((k, vs), rest''))))"

text \<open>A key that occurs again replaces the earlier one: the map is \<open>map_of\<close> of the reversed fields.\<close>

definition unmarshal_header :: "string \<Rightarrow> (string \<rightharpoonup> string list) option" where
  "unmarshal_header s =
     (case parse_seq parse_field (CHR ''{'') (CHR ''}'') s of
        None \<Rightarrow> None
      | Some (entries, rest) \<Rightarrow> if skip_space rest = [] then Some (map_of (rev entries)) else None)"

section \<open>Decoding inverts encoding\<close>

lemma byte_less: "byte c < 256"
  unfolding byte_def by (rule of_char_less)

lemma byte_char [simp]: "n < 256 \<Longrightarrow> byte (char_of n) = n"
  by (simp add: byte_def)

lemma char_of_byte [simp]: "char_of (byte c) = c"
  by (simp add: byte_def)

lemma byte_specials [simp]: "byte dquote = 34" "byte backslash = 92" "dquote \<noteq> backslash" "backslash \<noteq> dquote"
  by (simp_all add: byte_def dquote_def backslash_def)

lemma hex_digit4:
  assumes "r < 65536"
  shows "getu4 (drop 2 (u_escape r) @ rest) = Some (r, rest)"
proof -
  have "r div 4096 < 16" using assms by (simp add: less_mult_imp_div_less)
  moreover have "((r div 4096 * 16 + r div 256 mod 16) * 16 + r div 16 mod 16) * 16 + r mod 16 = r"
  proof -
    have a: "r div 4096 * 16 + r div 256 mod 16 = r div 256"
      using div_mult_mod_eq [of "r div 256" 16] by (simp add: div_mult2_eq [symmetric])
    have b: "r div 256 * 16 + r div 16 mod 16 = r div 16"
      using div_mult_mod_eq [of "r div 16" 16] by (simp add: div_mult2_eq [symmetric])
    show ?thesis unfolding a b by simp
  qed
  ultimately show ?thesis by (simp add: u_escape_def unhex_hex_char)
qed

lemma unquote_u_escape:
  assumes "r < 55296"
  shows "unquote (u_escape r @ rest) = cons_to (utf8_encode r) (unquote rest)"
proof -
  have "unescape_u (drop 2 (u_escape r) @ rest) = Some (utf8_encode r, rest)"
    using hex_digit4 [of r rest] assms by (simp add: unescape_u_def)
  then show ?thesis by (simp add: u_escape_def)
qed

lemma unquote_escape:
  assumes "byte c < 128"
  shows "unquote (escape_ascii c @ rest) = cons_to [c] (unquote rest)"
proof -
  have enc: "utf8_encode (byte c) = [c]" using assms by (simp add: utf8_encode_def)
  have eq: "c = char_of n" if "byte c = n" for n using that char_of_byte [of c] by simp
  consider (quoted) "c = dquote \<or> c = backslash"
    | (named) "byte c \<in> {8, 12, 10, 13, 9}"
    | (hex) "c \<noteq> dquote" "c \<noteq> backslash" "byte c \<notin> {8, 12, 10, 13, 9}"
        "byte c < 32 \<or> c = CHR ''<'' \<or> c = CHR ''>'' \<or> c = CHR ''&''"
    | (plain) "c \<noteq> dquote" "c \<noteq> backslash" "byte c \<notin> {8, 12, 10, 13, 9}"
        "\<not> (byte c < 32 \<or> c = CHR ''<'' \<or> c = CHR ''>'' \<or> c = CHR ''&'')"
    by blast
  then show ?thesis
  proof cases
    case quoted
    then show ?thesis by (auto simp: escape_ascii_def simple_escape_def dquote_def backslash_def)
  next
    case named
    then have "c = char_of (8::nat) \<or> c = char_of (12::nat) \<or> c = char_of (10::nat) \<or>
        c = char_of (13::nat) \<or> c = char_of (9::nat)"
      using eq [of 8] eq [of 12] eq [of 10] eq [of 13] eq [of 9] by auto
    then show ?thesis
      by (elim disjE) (simp_all add: escape_ascii_def simple_escape_def dquote_def backslash_def byte_def)
  next
    case hex
    then have "escape_ascii c = u_escape (byte c)" by (simp add: escape_ascii_def)
    then show ?thesis using unquote_u_escape [of "byte c" rest] assms enc by simp
  next
    case plain
    then have "escape_ascii c = [c]" by (simp add: escape_ascii_def)
    then show ?thesis using plain assms by simp
  qed
qed

lemma separators:
  "line_separator = [char_of (226::nat), char_of (128::nat), char_of (168::nat)]"
  "paragraph_separator = [char_of (226::nat), char_of (128::nat), char_of (169::nat)]"
  by (simp_all add: line_separator_def paragraph_separator_def utf8_encode_def)

lemma unquote_rune:
  assumes "128 \<le> byte c" and "rune_len (c # cs) \<noteq> 0"
  shows "unquote (take (rune_len (c # cs)) (c # cs) @ rest) =
    cons_to (take (rune_len (c # cs)) (c # cs)) (unquote rest)"
proof -
  define n where "n = rune_len (c # cs)"
  define t where "t = take (n - 1) cs"
  have take: "take n (c # cs) = c # t" using assms(2) by (cases n) (simp_all add: n_def t_def)
  have "rune_len (take n (c # cs) @ rest) = n"
    unfolding n_def by (rule rune_len_take [OF assms(2)])
  then have len: "rune_len (c # t @ rest) = n" by (simp add: take)
  have "length (take n (c # cs)) = n" using rune_len_le [of "c # cs"] by (simp add: n_def)
  then have lt: "length (c # t) = n" by (simp add: take)
  have "c \<noteq> dquote" "c \<noteq> backslash" using assms(1) by auto
  then have "unquote (c # t @ rest) = cons_to (take n (c # t @ rest)) (unquote (drop n (c # t @ rest)))"
    using assms len unfolding n_def [symmetric] by simp
  moreover have "take n (c # t @ rest) = c # t" "drop n (c # t @ rest) = rest"
    using lt by (simp_all flip: append_Cons)
  ultimately show ?thesis unfolding n_def [symmetric] take by simp
qed

lemma cons_to_append: "cons_to a (cons_to b r) = cons_to (a @ b) r"
  by (cases r) (auto simp: cons_to_def)

lemma unquote_quote_body:
  "utf8_valid s \<Longrightarrow> unquote (quote_body s @ dquote # rest) = Some (s, rest)"
proof (induction s rule: quote_body.induct)
  case (2 c cs)
  let ?n = "rune_len (c # cs)"
  have n: "?n \<noteq> 0" and valid: "utf8_valid (drop ?n (c # cs))"
    using "2.prems" by (subst (asm) utf8_valid.simps, simp split: if_splits)+
  show ?case
  proof (cases "byte c < 128")
    case True
    then have "?n = 1" by simp
    then have "utf8_valid cs" using valid by simp
    then show ?thesis using "2.IH"(1) [OF True] True by (simp add: unquote_escape)
  next
    case False
    define r where "r = take ?n (c # cs)"
    define w where "w = (if r = line_separator then u_escape 8232
                  else if r = paragraph_separator then u_escape 8233 else r)"
    have body: "quote_body (c # cs) = w @ quote_body (drop ?n (c # cs))"
      using False n by (simp add: Let_def r_def w_def)
    have rest: "unquote (quote_body (drop ?n (c # cs)) @ dquote # rest) = Some (drop ?n (c # cs), rest)"
      using "2.IH"(3) [OF False refl r_def] n valid by simp
    have "unquote (w @ x) = cons_to r (unquote x)" for x
      using unquote_rune [of c cs x] False n
      by (auto simp: w_def r_def [symmetric] unquote_u_escape line_separator_def paragraph_separator_def)
    then have "unquote (quote_body (c # cs) @ dquote # rest) = Some (r @ drop ?n (c # cs), rest)"
      by (simp only: body append_assoc rest cons_to_simps)
    then show ?thesis by (simp only: r_def append_take_drop_id)
  qed
qed simp

lemma skip_space_quote [simp]: "skip_space (dquote # s) = dquote # s"
proof -
  have "dquote \<noteq> CHR '' ''" by (simp add: dquote_def)
  then show ?thesis by (simp add: skip_space_def json_space_def)
qed

lemma parse_string_quote:
  "utf8_valid s \<Longrightarrow> parse_string (quote s @ rest) = Some (s, rest)"
  using unquote_quote_body [of s rest]
  by (simp add: parse_string_def quote_def skip_space_quote)

lemma skip_space_other [simp]:
  "skip_space (CHR '','' # s) = CHR '','' # s" "skip_space (CHR '':'' # s) = CHR '':'' # s"
  "skip_space (CHR ''['' # s) = CHR ''['' # s" "skip_space (CHR '']'' # s) = CHR '']'' # s"
  "skip_space (CHR ''{'' # s) = CHR ''{'' # s" "skip_space (CHR ''}'' # s) = CHR ''}'' # s"
  "skip_space [] = []"
  by (simp_all add: skip_space_def json_space_def byte_def)

lemma comma_sep_cons: "comma_sep (x # y # ys) = x @ CHR '','' # comma_sep (y # ys)"
  by (simp add: comma_sep_def)

text \<open>A sequence of written elements is read back, given that each element is.\<close>

lemma parse_items_comma_sep:
  assumes "\<And>x rest. x \<in> set xs \<Longrightarrow> item (enc x @ rest) = Some (dec x, rest)"
    and "xs \<noteq> []" and "length xs \<le> n" and "skip_space (close # rest) = close # rest" and "close \<noteq> CHR '',''"
  shows "parse_items item close n (comma_sep (map enc xs) @ close # rest) = Some (map dec xs, rest)"
  using assms
proof (induction xs arbitrary: n)
  case (Cons x xs)
  obtain m where n: "n = Suc m" using Cons.prems(3) by (cases n) auto
  show ?case
  proof (cases xs)
    case Nil
    then show ?thesis using Cons.prems(1) [of x] Cons.prems(4) by (simp add: n comma_sep_def)
  next
    case (Cons y ys)
    have "parse_items item close m (comma_sep (map enc xs) @ close # rest) = Some (map dec xs, rest)"
      using Cons.IH [of m] Cons.prems Cons n by simp
    then show ?thesis using Cons.prems(1) [of x] Cons.prems(5) Cons by (simp add: n comma_sep_cons)
  qed
qed simp

lemma length_comma_sep:
  assumes "\<And>x. x \<in> set xs \<Longrightarrow> enc x \<noteq> []"
  shows "length xs \<le> length (comma_sep (map enc xs))"
  using assms
proof (induction xs)
  case (Cons x xs)
  have "1 \<le> length (enc x)" using Cons.prems [of x] by (simp add: Suc_le_eq)
  then show ?case using Cons by (cases xs) (simp_all add: comma_sep_def)
qed simp

lemma parse_seq_comma_sep:
  assumes elems: "\<And>x rest. x \<in> set xs \<Longrightarrow> item (enc x @ rest) = Some (dec x, rest)"
    and quoted: "\<And>x. x \<in> set xs \<Longrightarrow> \<exists>t. enc x = dquote # t"
    and brackets: "(open, close) \<in> {(CHR ''['', CHR '']''), (CHR ''{'', CHR ''}'')}"
  shows "parse_seq item open close (open # comma_sep (map enc xs) @ close # rest) = Some (map dec xs, rest)"
proof (cases xs)
  case Nil
  then show ?thesis using brackets by (auto simp: parse_seq_def comma_sep_def)
next
  case (Cons x ys)
  let ?s = "comma_sep (map enc xs) @ close # rest"
  obtain t where t: "enc x = dquote # t" using quoted Cons by auto
  then obtain u where u: "?s = dquote # u" by (simp add: Cons comma_sep_def)
  have "length xs \<le> length (comma_sep (map enc xs))" by (rule length_comma_sep) (use quoted in fastforce)
  then have "parse_items item close (length ?s) ?s = Some (map dec xs, rest)"
    using Cons brackets by (intro parse_items_comma_sep [OF elems]) auto
  moreover have "skip_space (open # ?s) = open # ?s" "dquote \<noteq> close" using brackets by (auto simp: dquote_def)
  ultimately show ?thesis by (simp add: parse_seq_def u)
qed

lemma parse_values:
  assumes "\<And>v. v \<in> set vs \<Longrightarrow> utf8_valid v"
  shows "parse_seq parse_string (CHR ''['') (CHR '']'') (marshal_values vs @ rest) = Some (vs, rest)"
proof -
  have "parse_seq parse_string (CHR ''['') (CHR '']'')
      (CHR ''['' # comma_sep (map quote vs) @ CHR '']'' # rest) = Some (map (\<lambda>v. v) vs, rest)"
    by (rule parse_seq_comma_sep) (simp_all add: parse_string_quote assms, simp add: quote_def)
  then show ?thesis by (simp add: marshal_values_def)
qed

lemma parse_field_marshal:
  assumes "utf8_valid k" and "\<And>v. v \<in> set vs \<Longrightarrow> utf8_valid v"
  shows "parse_field (quote k @ CHR '':'' # marshal_values vs @ rest) = Some ((k, vs), rest)"
  using assms by (simp add: parse_field_def parse_string_quote parse_values)

definition header_utf8 :: "header \<Rightarrow> bool" where
  "header_utf8 h \<longleftrightarrow> list_all (\<lambda>(k, vs). utf8_valid k \<and> list_all utf8_valid vs) h"

lemma unmarshal_marshal:
  assumes "header_utf8 h" and "distinct (map fst h)"
  shows "unmarshal_header (marshal_header h) = Some (map_of h)"
proof -
  let ?s = "sort_key fst h"
  let ?enc = "\<lambda>(k, vs). quote k @ '':'' @ marshal_values vs"
  have "parse_seq parse_field (CHR ''{'') (CHR ''}'') (CHR ''{'' # comma_sep (map ?enc ?s) @ CHR ''}'' # []) =
      Some (map (\<lambda>x. x) ?s, [])"
  proof (rule parse_seq_comma_sep)
    fix x rest assume "x \<in> set ?s"
    then show "parse_field (?enc x @ rest) = Some (x, rest)"
      using assms(1) by (auto simp: header_utf8_def list_all_iff parse_field_marshal)
  qed (auto simp: quote_def)
  moreover have "map_of (rev ?s) = map_of h"
  proof (rule map_of_eqI)
    show "set (map fst (rev ?s)) = set (map fst h)" by simp
    have d: "distinct (map fst (rev ?s))"
      using assms(2) distinct_map_sort_key [of fst h fst] by (simp flip: rev_map)
    show "\<forall>k \<in> set (map fst (rev ?s)). map_of (rev ?s) k = map_of h k"
      using d assms(2) by (auto simp: map_of_eq_Some_iff intro!: map_of_is_SomeI)
  qed
  ultimately show ?thesis by (simp add: unmarshal_header_def marshal_header_def)
qed

section \<open>A concrete header\<close>

definition demo_header :: header where
  "demo_header = [(''X-Quote'', [[dquote, backslash, CHR ''<'', CHR 0x0A]]), (''Content-Type'', [''text/plain'', ''a''])]"

lemma demo_header_utf8: "header_utf8 demo_header" by code_simp
lemma demo_header_distinct: "distinct (map fst demo_header)" by code_simp
lemma demo_header_lookup: "map_of demo_header ''Content-Type'' = Some [''text/plain'', ''a'']" by code_simp

end
