(* ===== verification/Indent.thy ===== *)
theory Indent
  imports Json
begin

text \<open>
  Two formatters of the standard library that the inspection pages use: \<open>json.Indent\<close> with an empty
  prefix and two spaces, and \<open>hex.Dump\<close>.

  \<open>json.Indent\<close> runs the package's scanner, an automaton over bytes with a stack of what is being
  parsed, and writes every byte that is not white space between tokens, adding line breaks and
  spaces around punctuation. The automaton is \<open>jstep\<close>, state for state. The lemma on it says that
  indenting changes nothing but white space outside string literals.
\<close>

section \<open>The JSON scanner\<close>

text \<open>
  \<open>BeginValue True\<close> also accepts the end of an empty array and \<open>BeginString True\<close> that of an empty
  object; \<open>Rest\<close> is the rest of \<open>true\<close>, \<open>false\<close> or \<open>null\<close>.
\<close>

datatype jstate =
    BeginValue bool | BeginString bool | EndValue | EndTop
  | InString | InStringEsc | InStringEscU nat
  | Neg | Digits | Zero | Dot | Frac | Exp | ExpSign | ExpDigits
  | Rest string

datatype jframe = ObjectKey | ObjectValue | ArrayValue

datatype jcode = Continue | SkipSpace | EndOfTop | EndBracket | Token

definition max_nesting :: nat where "max_nesting = 10000"

definition digit :: "char \<Rightarrow> bool" where "digit c \<longleftrightarrow> 48 \<le> byte c \<and> byte c \<le> 57"

definition after_pop :: "jframe list \<Rightarrow> jstate" where
  "after_pop st = (if st = [] then EndTop else EndValue)"

definition push :: "jframe \<Rightarrow> jstate \<Rightarrow> jframe list \<Rightarrow> (jcode \<times> jstate \<times> jframe list) option" where
  "push f s st = (if length st + 1 \<le> max_nesting then Some (Token, s, f # st) else None)"

definition jbegin_value :: "char \<Rightarrow> jframe list \<Rightarrow> (jcode \<times> jstate \<times> jframe list) option" where
  "jbegin_value c st =
     (if c = CHR ''{'' then push ObjectKey (BeginString True) st
      else if c = CHR ''['' then push ArrayValue (BeginValue True) st
      else if c = dquote then Some (Token, InString, st)
      else if c = CHR ''-'' then Some (Token, Neg, st)
      else if c = CHR ''0'' then Some (Token, Zero, st)
      else if c = CHR ''t'' then Some (Token, Rest ''rue'', st)
      else if c = CHR ''f'' then Some (Token, Rest ''alse'', st)
      else if c = CHR ''n'' then Some (Token, Rest ''ull'', st)
      else if digit c then Some (Token, Digits, st)
      else None)"

definition jend_value :: "char \<Rightarrow> jframe list \<Rightarrow> (jcode \<times> jstate \<times> jframe list) option" where
  "jend_value c st =
     (case st of
        [] \<Rightarrow> if json_space c then Some (EndOfTop, EndTop, []) else None
      | f # st' \<Rightarrow>
          if json_space c then Some (SkipSpace, EndValue, st)
          else
            (case f of
               ObjectKey \<Rightarrow> if c = CHR '':'' then Some (Token, BeginValue False, ObjectValue # st') else None
             | ObjectValue \<Rightarrow>
                 if c = CHR '','' then Some (Token, BeginString False, ObjectKey # st')
                 else if c = CHR ''}'' then Some (EndBracket, after_pop st', st') else None
             | ArrayValue \<Rightarrow>
                 if c = CHR '','' then Some (Token, BeginValue False, st)
                 else if c = CHR '']'' then Some (EndBracket, after_pop st', st') else None))"

text \<open>One byte: what it is, the next state and the stack, or an error.\<close>

fun jstep :: "char \<Rightarrow> jstate \<Rightarrow> jframe list \<Rightarrow> (jcode \<times> jstate \<times> jframe list) option" where
  "jstep c (BeginValue orEmpty) st =
     (if json_space c then Some (SkipSpace, BeginValue orEmpty, st)
      else if orEmpty \<and> c = CHR '']'' then jend_value c st
      else jbegin_value c st)"
| "jstep c (BeginString orEmpty) st =
     (if json_space c then Some (SkipSpace, BeginString orEmpty, st)
      else if orEmpty \<and> c = CHR ''}'' then jend_value c (ObjectValue # tl st)
      else if c = dquote then Some (Token, InString, st) else None)"
| "jstep c EndValue st = jend_value c st"
| "jstep c EndTop st = (if json_space c then Some (EndOfTop, EndTop, st) else None)"
| "jstep c InString st =
     (if c = dquote then Some (Continue, EndValue, st)
      else if c = backslash then Some (Continue, InStringEsc, st)
      else if byte c < 32 then None else Some (Continue, InString, st))"
| "jstep c InStringEsc st =
     (if c \<in> set ''bfnrt/'' \<or> c = backslash \<or> c = dquote then Some (Continue, InString, st)
      else if c = CHR ''u'' then Some (Continue, InStringEscU 3, st) else None)"
| "jstep c (InStringEscU n) st =
     (if unhex_char c = None then None
      else Some (Continue, if n = 0 then InString else InStringEscU (n - 1), st))"
| "jstep c Neg st = (if c = CHR ''0'' then Some (Continue, Zero, st) else if digit c then Some (Continue, Digits, st) else None)"
| "jstep c Digits st =
     (if digit c then Some (Continue, Digits, st)
      else if c = CHR ''.'' then Some (Continue, Dot, st)
      else if c = CHR ''e'' \<or> c = CHR ''E'' then Some (Continue, Exp, st)
      else jend_value c st)"
| "jstep c Zero st =
     (if c = CHR ''.'' then Some (Continue, Dot, st)
      else if c = CHR ''e'' \<or> c = CHR ''E'' then Some (Continue, Exp, st)
      else jend_value c st)"
| "jstep c Dot st = (if digit c then Some (Continue, Frac, st) else None)"
| "jstep c Frac st =
     (if digit c then Some (Continue, Frac, st)
      else if c = CHR ''e'' \<or> c = CHR ''E'' then Some (Continue, Exp, st)
      else jend_value c st)"
| "jstep c Exp st =
     (if c = CHR ''+'' \<or> c = CHR ''-'' then Some (Continue, ExpSign, st)
      else if digit c then Some (Continue, ExpDigits, st) else None)"
| "jstep c ExpSign st = (if digit c then Some (Continue, ExpDigits, st) else None)"
| "jstep c ExpDigits st = (if digit c then Some (Continue, ExpDigits, st) else jend_value c st)"
| "jstep c (Rest []) st = jend_value c st"
| "jstep c (Rest (d # ds)) st = (if c = d then Some (Continue, if ds = [] then EndValue else Rest ds, st) else None)"

text \<open>The end of the input is accepted after a complete value: one more space would end it.\<close>

definition jaccepts :: "jstate \<Rightarrow> jframe list \<Rightarrow> bool" where
  "jaccepts s st \<longleftrightarrow> (case jstep (CHR '' '') s st of Some (_, EndTop, _) \<Rightarrow> True | _ \<Rightarrow> False)"

section \<open>Indentation\<close>

definition newline :: "nat \<Rightarrow> string" where
  "newline depth = CHR 0x0A # replicate (2 * depth) (CHR '' '')"

text \<open>What is written for a byte of punctuation, with the depth and whether an indent is due.\<close>

definition punctuation :: "char \<Rightarrow> bool \<Rightarrow> nat \<Rightarrow> string \<times> bool \<times> nat" where
  "punctuation c due depth =
     (if c = CHR ''{'' \<or> c = CHR ''['' then ([c], True, depth)
      else if c = CHR '','' then (c # newline depth, due, depth)
      else if c = CHR '':'' then (c # '' '', due, depth)
      else if c = CHR ''}'' \<or> c = CHR '']'' then
        (if due then ([c], False, depth) else (newline (depth - 1) @ [c], due, depth - 1))
      else ([c], due, depth))"

fun indent_loop :: "string \<Rightarrow> jstate \<Rightarrow> jframe list \<Rightarrow> bool \<Rightarrow> nat \<Rightarrow> string option" where
  "indent_loop [] s st due depth = (if jaccepts s st then Some [] else None)"
| "indent_loop (c # src) s st due depth =
     (case jstep c s st of
        None \<Rightarrow> None
      | Some (v, s', st') \<Rightarrow>
          if v = SkipSpace then indent_loop src s' st' due depth
          else
            (let (pre, due, depth) = (if due \<and> v \<noteq> EndBracket then (newline (depth + 1), False, depth + 1) else ([], due, depth));
                 (out, due, depth) = (if v = Continue then ([c], due, depth) else punctuation c due depth)
             in map_option (\<lambda>t. pre @ out @ t) (indent_loop src s' st' due depth)))"

definition json_indent :: "string \<Rightarrow> string option" where
  "json_indent src = indent_loop src (BeginValue False) [] False 0"

text \<open>A JSON text without the white space outside its string literals.\<close>

fun json_compact :: "bool \<Rightarrow> bool \<Rightarrow> string \<Rightarrow> string" where
  "json_compact inside esc [] = []"
| "json_compact inside esc (c # s) =
     (if inside then c # json_compact (esc \<or> c \<noteq> dquote) (\<not> esc \<and> c = backslash) s
      else if json_space c then json_compact False False s
      else c # json_compact (c = dquote) False s)"

section \<open>Indenting keeps the content\<close>

definition in_string :: "jstate \<Rightarrow> bool" where
  "in_string s \<longleftrightarrow> (case s of InString \<Rightarrow> True | InStringEsc \<Rightarrow> True | InStringEscU _ \<Rightarrow> True | _ \<Rightarrow> False)"

text \<open>The rest of a literal is made of letters.\<close>

definition letters :: "jstate \<Rightarrow> bool" where
  "letters s \<longleftrightarrow> (case s of Rest ds \<Rightarrow> \<forall>d \<in> set ds. \<not> json_space d \<and> d \<noteq> dquote | _ \<Rightarrow> True)"

lemma state_simps [simp]:
  "\<not> in_string (BeginValue b)" "\<not> in_string (BeginString b)" "\<not> in_string EndValue" "\<not> in_string EndTop"
  "in_string InString" "in_string InStringEsc" "in_string (InStringEscU n)" "\<not> in_string Neg" "\<not> in_string Digits"
  "\<not> in_string Zero" "\<not> in_string Dot" "\<not> in_string Frac" "\<not> in_string Exp" "\<not> in_string ExpSign"
  "\<not> in_string ExpDigits" "\<not> in_string (Rest ds)"
  "letters (BeginValue b)" "letters (BeginString b)" "letters EndValue" "letters EndTop" "letters InString"
  "letters InStringEsc" "letters (InStringEscU n)" "letters Neg" "letters Digits" "letters Zero" "letters Dot"
  "letters Frac" "letters Exp" "letters ExpSign" "letters ExpDigits"
  "letters (Rest ds) \<longleftrightarrow> (\<forall>d \<in> set ds. \<not> json_space d \<and> d \<noteq> dquote)"
  by (simp_all add: in_string_def letters_def)

lemma not_space [simp]: "\<not> json_space dquote" "digit c \<Longrightarrow> \<not> json_space c" "\<not> digit dquote"
  by (auto simp: json_space_def dquote_def digit_def byte_def)

lemma plain_chars [simp]:
  "\<not> json_space (CHR ''{'')" "\<not> json_space (CHR ''}'')" "\<not> json_space (CHR ''['')" "\<not> json_space (CHR '']'')" "\<not> json_space (CHR '','')" "\<not> json_space (CHR '':'')" "\<not> json_space (CHR ''t'')" "\<not> json_space (CHR ''f'')" "\<not> json_space (CHR ''n'')" "\<not> json_space (CHR ''r'')" "\<not> json_space (CHR ''u'')" "\<not> json_space (CHR ''e'')" "\<not> json_space (CHR ''a'')" "\<not> json_space (CHR ''l'')" "\<not> json_space (CHR ''s'')" "\<not> json_space (CHR ''-'')" "\<not> json_space (CHR ''0'')" "\<not> json_space (CHR ''.'')" "\<not> json_space (CHR ''E'')" "\<not> json_space (CHR ''+'')"
  by (simp_all add: json_space_def byte_def)

lemma space_not_quote: "json_space c \<Longrightarrow> c \<noteq> dquote" "json_space c \<Longrightarrow> c \<noteq> CHR 0x22"
  by (auto simp: json_space_def byte_def dquote_def)

lemma jend_value_code:
  assumes "jend_value c st = Some (v, s', st')"
  shows "s' \<in> {BeginValue False, BeginString False, EndValue, EndTop}" "v \<noteq> Continue" "c \<noteq> dquote"
    "json_space c \<longleftrightarrow> v = SkipSpace \<or> v = EndOfTop"
  using assms
  by (auto simp: jend_value_def after_pop_def dquote_def dest: space_not_quote split: list.splits jframe.splits if_splits)

lemma jbegin_value_code:
  assumes "jbegin_value c st = Some (v, s', st')"
  shows "v = Token" "in_string s' \<longleftrightarrow> c = dquote" "s' \<noteq> InStringEsc" "letters s'" "\<not> json_space c"
  using assms
  by (auto simp: jbegin_value_def push_def dquote_def dest: space_not_quote split: if_splits)

text \<open>How a step moves between the inside and the outside of string literals.\<close>

definition outside_step :: "char \<Rightarrow> jcode \<Rightarrow> jstate \<Rightarrow> bool" where
  "outside_step c v s' \<longleftrightarrow>
     letters s' \<and> (in_string s' \<longleftrightarrow> c = dquote) \<and> (c = dquote \<longrightarrow> v = Token) \<and> s' \<noteq> InStringEsc \<and> (json_space c \<longleftrightarrow> v = SkipSpace \<or> v = EndOfTop)"

lemma outside_end: "jend_value c st = Some (v, s', st') \<Longrightarrow> outside_step c v s'"
  using jend_value_code [of c st v s' st'] by (auto simp: outside_step_def)

lemma outside_begin: "jbegin_value c st = Some (v, s', st') \<Longrightarrow> outside_step c v s'"
  using jbegin_value_code [of c st v s' st'] by (auto simp: outside_step_def)

lemma outside_space: "json_space c \<Longrightarrow> letters s' \<Longrightarrow> \<not> in_string s' \<Longrightarrow> outside_step c SkipSpace s'"
  "json_space c \<Longrightarrow> letters s' \<Longrightarrow> \<not> in_string s' \<Longrightarrow> outside_step c EndOfTop s'"
  by (auto simp: outside_step_def)

lemma outside_token:
  "\<not> json_space c \<Longrightarrow> c \<noteq> dquote \<Longrightarrow> letters s' \<Longrightarrow> \<not> in_string s' \<Longrightarrow> outside_step c Continue s'"
  "outside_step dquote Token InString"
  by (auto simp: outside_step_def)

lemma jstep_outside:
  assumes "jstep c s st = Some (v, s', st')" "\<not> in_string s" "letters s"
  shows "outside_step c v s'"
proof -
  have d: "digit c \<Longrightarrow> c \<noteq> dquote" by auto
  show ?thesis
    using assms
  proof (cases s)
    case (BeginValue b)
    then show ?thesis using assms(1) by (auto split: if_splits intro: outside_space outside_end outside_begin)
  next
    case (BeginString b)
    then show ?thesis using assms(1) by (auto split: if_splits intro: outside_space outside_end outside_token)
  next
    case EndTop
    then show ?thesis using assms(1) by (auto split: if_splits intro: outside_space)
  next
    case (Rest ds)
    then show ?thesis using assms(1,3) by (cases ds) (auto split: if_splits intro: outside_token outside_end)
  qed (use assms(1) d in \<open>auto simp: dquote_def split: if_splits intro!: outside_token intro: outside_end\<close>)
qed

text \<open>Inside a literal every byte is written, and only an unescaped quote ends it.\<close>

lemma jstep_inside:
  assumes "jstep c s st = Some (v, s', st')" "in_string s"
  shows "v = Continue" "letters s'" "in_string s' \<longleftrightarrow> s = InStringEsc \<or> c \<noteq> dquote"
    "s' = InStringEsc \<longleftrightarrow> s \<noteq> InStringEsc \<and> c = backslash"
proof -
  have "unhex_char dquote = None" "unhex_char backslash = None" by (simp_all add: unhex_char_def dquote_def backslash_def)
  then show "v = Continue" "letters s'" "in_string s' \<longleftrightarrow> s = InStringEsc \<or> c \<noteq> dquote"
    "s' = InStringEsc \<longleftrightarrow> s \<noteq> InStringEsc \<and> c = backslash"
    using assms by (cases s; auto split: if_splits)+
qed

lemma compact_newline: "json_compact False False (newline n @ s) = json_compact False False s"
proof -
  have "json_compact False False (replicate k (CHR '' '') @ s) = json_compact False False s" for k
    by (induction k) (simp_all add: json_space_def)
  moreover have "json_space (CHR 0x0A)" by (simp add: json_space_def byte_def)
  ultimately show ?thesis by (simp add: newline_def)
qed

lemma compact_punctuation:
  assumes "punctuation c due depth = (out, due', depth')"
  shows "json_compact False False (out @ s) = json_compact False False (c # s)" "due' \<longrightarrow> c = dquote \<longrightarrow> due"
proof -
  have space: "json_space (CHR '' '')" by (simp add: json_space_def)
  have "c \<in> {CHR ''{'', CHR ''[''} \<and> out = [c] \<or> c = CHR '','' \<and> out = c # newline depth \<or>
      c = CHR '':'' \<and> out = [c, CHR '' ''] \<or> c \<in> {CHR ''}'', CHR '']''} \<and> (out = [c] \<or> out = newline (depth - 1) @ [c]) \<or> out = [c]"
    using assms by (auto simp: punctuation_def split: if_splits)
  then show "json_compact False False (out @ s) = json_compact False False (c # s)"
    by (elim disjE conjE) (simp_all add: compact_newline space dquote_def)
  show "due' \<longrightarrow> c = dquote \<longrightarrow> due" using assms by (auto simp: punctuation_def dquote_def split: if_splits)
qed

lemma indent_loop_keeps:
  assumes "indent_loop src s st due depth = Some t" "letters s" "in_string s \<longrightarrow> \<not> due"
  shows "json_compact (in_string s) (s = InStringEsc) t = json_compact (in_string s) (s = InStringEsc) src"
  using assms
proof (induction src s st due depth arbitrary: t rule: indent_loop.induct)
  case (2 c src s st due depth)
  obtain v s' st' where step: "jstep c s st = Some (v, s', st')" using "2.prems"(1) by (auto split: option.splits)
  obtain pre due1 depth1 where pre: "(if due \<and> v \<noteq> EndBracket then (newline (depth + 1), False, depth + 1) else ([], due, depth)) = (pre, due1, depth1)"
    by (metis prod.exhaust)
  obtain out due2 depth2 where out: "(if v = Continue then ([c], due1, depth1) else punctuation c due1 depth1) = (out, due2, depth2)"
    by (metis prod.exhaust)
  note run = "2.prems"(1) [unfolded indent_loop.simps step option.case prod.case Let_def pre out]
  show ?case
  proof (cases "in_string s")
    case True
    note inside = jstep_inside [OF step True]
    have "pre = []" "out = [c]" "\<not> due2" using pre out inside(1) "2.prems"(3) True by auto
    then obtain t' where t: "t = c # t'" "indent_loop src s' st' due2 depth2 = Some t'" using run inside(1) by auto
    from "2.IH"(2) [OF step refl refl _ pre [symmetric] refl refl out [symmetric] refl refl t(2) inside(2)]
    have "json_compact (in_string s') (s' = InStringEsc) t' = json_compact (in_string s') (s' = InStringEsc) src"
      using inside(1) \<open>\<not> due2\<close> by simp
    then show ?thesis using True inside(3,4) by (simp add: t(1))
  next
    case False
    note outside = jstep_outside [OF step False "2.prems"(2), unfolded outside_step_def]
    have esc: "s \<noteq> InStringEsc" using False by auto
    show ?thesis
    proof (cases "v = SkipSpace")
      case True
      then have "json_space c" "c \<noteq> dquote" using outside by auto
      then show ?thesis using "2.IH"(1) [OF step refl refl True] run True outside False esc by simp
    next
      case tok: False
      obtain t' where t: "t = pre @ out @ t'" "indent_loop src s' st' due2 depth2 = Some t'" using run tok by auto
      have due: "in_string s' \<longrightarrow> \<not> due2"
        using outside pre out compact_punctuation(2) [of c due1 depth1 out due2 depth2] by (auto split: if_splits)
      from "2.IH"(2) [OF step refl refl tok pre [symmetric] refl refl out [symmetric] refl refl t(2) _ due] outside
      have ih: "json_compact (c = dquote) False t' = json_compact (c = dquote) False src" by simp
      have "json_compact False False (pre @ x) = json_compact False False x" for x
        using pre by (auto simp: compact_newline split: if_splits)
      moreover have "json_compact False False (out @ t') = json_compact False False (c # t')"
        using out compact_punctuation(1) [of c due1 depth1 out due2 depth2 t'] by (auto split: if_splits)
      moreover have "json_compact False False (c # t') = json_compact False False (c # src)"
        using ih space_not_quote(1) [of c] by (cases "json_space c") auto
      ultimately show ?thesis using False esc by (simp add: t(1))
    qed
  qed
qed (simp split: if_splits)

lemma json_indent_keeps: "json_indent src = Some t \<Longrightarrow> json_compact False False t = json_compact False False src"
  using indent_loop_keeps [of src "BeginValue False"] by (simp add: json_indent_def)

section \<open>Hexadecimal dumps\<close>

definition shown :: "char \<Rightarrow> char" where
  "shown c = (if byte c < 32 \<or> 126 < byte c then CHR ''.'' else c)"

definition hex_byte :: "char \<Rightarrow> string" where
  "hex_byte c = [hex_char (byte c div 16), hex_char (byte c mod 16)]"

definition hex_offset :: "nat \<Rightarrow> string" where
  "hex_offset n = concat (map (\<lambda>i. hex_byte (char_of (n div 256 ^ i mod 256))) [3, 2, 1, 0])"

text \<open>A line: the offset, sixteen columns, blank where there is no byte, and the bytes as text.\<close>

definition dump_line :: "nat \<Rightarrow> bytes \<Rightarrow> string" where
  "dump_line offset bs =
     hex_offset offset @ ''  '' @
     concat (map (\<lambda>i. (if i < length bs then hex_byte (bs ! i) else ''  '') @ '' '' @
                      (if i = 7 then '' '' else if i = 15 then '' |'' else [])) [0..<16]) @
     map shown bs @ [CHR ''|'', CHR 0x0A]"

function hex_dump :: "nat \<Rightarrow> bytes \<Rightarrow> string" where
  "hex_dump offset bs =
     (if bs = [] then [] else dump_line offset (take 16 bs) @ hex_dump (offset + 16) (drop 16 bs))"
  by auto
termination by (relation "measure (\<lambda>(_, bs). length bs)") auto

declare hex_dump.simps [simp del]

definition Dump :: "bytes \<Rightarrow> string" where "Dump bs = hex_dump 0 bs"

end
