(* ===== verification/Web.thy ===== *)
theory Web
  imports Json
begin

text \<open>
  The HTTP vocabulary of the handlers: requests, replies, header lookup (\<open>net/http\<close>,
  \<open>net/textproto\<close>), query and form values, and local redirects (the part of \<open>net/url\<close> and
  \<open>path\<close> that concerns a target beginning with a single slash).

  A handler becomes a function from a request, and the state it works on, to its reply and the
  new state. What a request carries is what the server and its parsers hand to the code: the
  parsed query (\<open>r.URL.Query()\<close>), what \<open>ParseForm\<close> makes of it and the body (\<open>r.Form\<close> and
  \<open>r.PostForm\<close>, or nothing when it fails), the headers under their canonical names, the cookies,
  the values of the path's wildcards, for \<open>Referer\<close> the host and request URI of the URL, when it
  parses, and the CSRF token a middleware put into its context.
\<close>

type_synonym "values" = "(string \<times> string list) list"

record request =
  rq_method :: string
  rq_path :: string
  rq_path_values :: "(string \<times> string) list"
  rq_query :: "values"
  rq_form :: "(values \<times> values) option"
  rq_header :: header
  rq_cookies :: "(string \<times> string) list"
  rq_host :: string
  rq_remote :: string
  rq_referer :: "(string \<times> string) option"
  rq_csrf :: string
  rq_at :: time

definition no_request :: request where
  "no_request = \<lparr>rq_method = ''GET'', rq_path = ''/'', rq_path_values = [], rq_query = [], rq_form = Some ([], []),
     rq_header = [], rq_cookies = [], rq_host = [], rq_remote = [], rq_referer = None, rq_csrf = [], rq_at = 0\<rparr>"

text \<open>\<open>Values.Get\<close> and \<open>Header.Get\<close> of a canonical name: the first value, or the empty string.\<close>

definition get_value :: "values \<Rightarrow> string \<Rightarrow> string" where
  "get_value vs name = (case map_of vs name of Some (v # _) \<Rightarrow> v | _ \<Rightarrow> [])"

text \<open>\<open>Values.Set\<close> and \<open>Values.Del\<close>.\<close>

definition del_value :: "string \<Rightarrow> values \<Rightarrow> values" where
  "del_value name vs = filter (\<lambda>(k, _). k \<noteq> name) vs"

definition set_value :: "string \<Rightarrow> string \<Rightarrow> values \<Rightarrow> values" where
  "set_value name v vs = (name, [v]) # del_value name vs"

definition token_char :: "char \<Rightarrow> bool" where
  "token_char c \<longleftrightarrow>
     (let b = byte c
      in 48 \<le> b \<and> b \<le> 57 \<or> 65 \<le> b \<and> b \<le> 90 \<or> 97 \<le> b \<and> b \<le> 122 \<or>
         b \<in> {33, 35, 36, 37, 38, 39, 42, 43, 45, 46, 94, 95, 96, 124, 126})"

fun canonical_words :: "bool \<Rightarrow> string \<Rightarrow> string" where
  "canonical_words up [] = []"
| "canonical_words up (c # cs) =
     (if up then to_upper c else to_lower c) # canonical_words (c = CHR ''-'') cs"

definition CanonicalHeaderKey :: "string \<Rightarrow> string" where
  "CanonicalHeaderKey name = (if list_all token_char name then canonical_words True name else name)"

text \<open>\<open>FormValue\<close> and \<open>PostForm.Get\<close> after a successful \<open>ParseForm\<close>.\<close>

definition FormValue :: "request \<Rightarrow> string \<Rightarrow> string" where
  "FormValue r name = (case rq_form r of None \<Rightarrow> [] | Some (form, post) \<Rightarrow> get_value form name)"

definition PostFormValue :: "request \<Rightarrow> string \<Rightarrow> string" where
  "PostFormValue r name = (case rq_form r of None \<Rightarrow> [] | Some (form, post) \<Rightarrow> get_value post name)"

text \<open>\<open>r.Cookie\<close> and \<open>r.PathValue\<close>.\<close>

definition get_cookie :: "request \<Rightarrow> string \<Rightarrow> string option" where
  "get_cookie r name = map_of (rq_cookies r) name"

definition PathValue :: "request \<Rightarrow> string \<Rightarrow> string" where
  "PathValue r name = (case map_of (rq_path_values r) name of None \<Rightarrow> [] | Some v \<Rightarrow> v)"

definition Header_Get :: "header \<Rightarrow> string \<Rightarrow> string" where
  "Header_Get h name = get_value h (CanonicalHeaderKey name)"

section \<open>Replies\<close>

text \<open>A cookie set by a reply; all of them are \<open>HttpOnly\<close> and \<open>SameSite=Strict\<close>.\<close>

record cookie =
  ck_Name :: string
  ck_Value :: string
  ck_Path :: string
  ck_MaxAge :: int
  ck_Secure :: bool

record reply =
  rp_status :: int
  rp_header :: "(string \<times> string) list"
  rp_cookies :: "cookie list"
  rp_body :: string

text \<open>
  An \<open>http.HandlerFunc\<close>, on a state of type \<open>'s\<close>. A handler that ends by executing a template, or by
  encoding rows as JSON, gives the data it hands over, or the reply it refuses the request with.
\<close>

type_synonym 's handler = "request \<Rightarrow> 's \<Rightarrow> reply \<times> 's"

datatype 'a rendered = Refused reply | Rendered 'a

definition http_Error :: "string \<Rightarrow> int \<Rightarrow> reply" where
  "http_Error msg code =
     \<lparr>rp_status = code,
      rp_header = [(''Content-Type'', ''text/plain; charset=utf-8''), (''X-Content-Type-Options'', ''nosniff'')],
      rp_cookies = [], rp_body = msg @ [CHR 0x0A]\<rparr>"

definition http_OK :: "string \<Rightarrow> reply" where
  "http_OK body = \<lparr>rp_status = 200, rp_header = [], rp_cookies = [], rp_body = body\<rparr>"

definition with_header :: "string \<Rightarrow> string \<Rightarrow> reply \<Rightarrow> reply" where
  "with_header name v rp = rp\<lparr>rp_header := (name, v) # rp_header rp\<rparr>"

lemma http_Error_status [simp]: "rp_status (http_Error msg code) = code"
  by (simp add: http_Error_def)
lemma http_OK_status [simp]: "rp_status (http_OK body) = 200"
  by (simp add: http_OK_def)
lemma with_header_status [simp]: "rp_status (with_header name v rp) = rp_status rp"
  by (simp add: with_header_def)

section \<open>Local redirects\<close>

fun percent_ok :: "string \<Rightarrow> bool" where
  "percent_ok [] = True"
| "percent_ok (c # cs) =
     (if c = CHR ''%'' then
        (case cs of a # b # rest \<Rightarrow> unhex_char a \<noteq> None \<and> unhex_char b \<noteq> None \<and> percent_ok rest | _ \<Rightarrow> False)
      else percent_ok cs)"

definition before :: "char \<Rightarrow> string \<Rightarrow> string" where
  "before c s = takeWhile (\<lambda>x. x \<noteq> c) s"

definition ctl_byte :: "char \<Rightarrow> bool" where "ctl_byte c \<longleftrightarrow> byte c < 32 \<or> byte c = 127"

text \<open>
  \<open>url.Parse\<close> of a string that begins with one slash: it has neither scheme nor host, and it
  fails on a control character outside the fragment or a malformed escape in the path or the
  fragment.
\<close>

definition parses_rooted :: "string \<Rightarrow> bool" where
  "parses_rooted target =
     (let u = before (CHR ''#'') target; frag = drop (length u + 1) target
      in \<not> list_ex ctl_byte u \<and> percent_ok (before (CHR ''?'') u) \<and> percent_ok frag)"

definition isLocalRedirect :: "string \<Rightarrow> bool" where
  "isLocalRedirect target =
     (if target = [] \<or> \<not> starts_with ''/'' target \<or> starts_with ''//'' target then False
      else parses_rooted target)"

definition redirectTarget :: "request \<Rightarrow> string \<Rightarrow> string" where
  "redirectTarget r fallback =
     (let target = TrimSpace (get_value (rq_query r) ''redirect_to'')
      in if isLocalRedirect target then target
         else (case rq_referer r of
                 Some (host, uri) \<Rightarrow> if host = rq_host r \<and> isLocalRedirect uri then uri else fallback
               | None \<Rightarrow> fallback))"

text \<open>\<open>path.Clean\<close> of a rooted path: no empty or dot segment, and \<open>..\<close> takes back one segment.\<close>

fun clean_segments :: "string list \<Rightarrow> string list \<Rightarrow> string list" where
  "clean_segments out [] = rev out"
| "clean_segments out (s # rest) =
     (if s = [] \<or> s = ''.'' then clean_segments out rest
      else if s = ''..'' then clean_segments (tl out) rest
      else clean_segments (s # out) rest)"

definition clean_rooted :: "string \<Rightarrow> string" where
  "clean_rooted path =
     (case clean_segments [] (split_on (CHR ''/'') path) of
        [] \<Rightarrow> ''/''
      | s # rest \<Rightarrow> CHR ''/'' # s @ concat (map (\<lambda>t. CHR ''/'' # t) rest))"

definition ends_with_slash :: "string \<Rightarrow> bool" where
  "ends_with_slash s \<longleftrightarrow> s \<noteq> [] \<and> last s = CHR ''/''"

text \<open>A string with one leading slash: rooted and not a network-path reference.\<close>

definition stays_local :: "string \<Rightarrow> bool" where
  "stays_local s \<longleftrightarrow> starts_with ''/'' s \<and> \<not> starts_with ''//'' s"

text \<open>
  The \<open>Location\<close> of \<open>http.Redirect\<close>: the path of a rooted target is cleaned and its query kept; a
  target with a scheme or a host is sent as it is. Escaping non-ASCII bytes and the short page
  sent with a redirected \<open>GET\<close> are left out.
\<close>

definition redirect_location :: "string \<Rightarrow> string" where
  "redirect_location target =
     (if \<not> stays_local target then target
      else
        (let path = before (CHR ''?'') target; query = drop (length path) target; cleaned = clean_rooted path
         in (if ends_with_slash path \<and> \<not> ends_with_slash cleaned then cleaned @ ''/'' else cleaned) @ query))"

definition http_Redirect :: "string \<Rightarrow> int \<Rightarrow> reply" where
  "http_Redirect target code =
     \<lparr>rp_status = code, rp_header = [(''Location'', redirect_location target)], rp_cookies = [], rp_body = []\<rparr>"

lemma http_Redirect_status [simp]: "rp_status (http_Redirect target code) = code"
  by (simp add: http_Redirect_def)

lemma starts_with_simps [simp]:
  "starts_with [] s" "starts_with (c # p) [] \<longleftrightarrow> False" "starts_with (c # p) (d # s) \<longleftrightarrow> c = d \<and> starts_with p s"
  by (auto simp: starts_with_def)

lemma split_on_no_sep: "s \<in> set (split_on c xs) \<Longrightarrow> c \<notin> set s"
proof (induction c xs arbitrary: s rule: split_on.induct)
  case (2 c d xs)
  then show ?case by (auto split: if_splits list.splits)
qed auto

lemma clean_segments_all:
  assumes "\<And>s. s \<in> set out \<Longrightarrow> Q s" and "\<And>s. s \<in> set segs \<Longrightarrow> s \<noteq> [] \<Longrightarrow> Q s"
  shows "s \<in> set (clean_segments out segs) \<Longrightarrow> Q s"
  using assms
proof (induction out segs rule: clean_segments.induct)
  case (2 out t rest)
  have tl: "x \<in> set (tl out) \<Longrightarrow> x \<in> set out" for x by (cases out) auto
  consider "t = [] \<or> t = ''.''" | "t = ''..''" | "t \<noteq> []" "t \<noteq> ''.''" "t \<noteq> ''..''" by blast
  then show ?case
  proof cases
    case 1
    then show ?thesis using "2.IH"(1) [OF 1] "2.prems" by auto
  next
    case 2
    then show ?thesis using "2.IH"(2) "2.prems" tl by auto
  next
    case 3
    then show ?thesis using "2.IH"(3) "2.prems" by auto
  qed
qed auto

lemma clean_rooted_local: "stays_local (clean_rooted path)"
proof (cases "clean_segments [] (split_on (CHR ''/'') path)")
  case (Cons s rest)
  then have "s \<in> set (clean_segments [] (split_on (CHR ''/'') path))" by simp
  then have "s \<noteq> [] \<and> CHR ''/'' \<notin> set s"
    by (rule clean_segments_all [rotated 2]) (auto dest: split_on_no_sep)
  then obtain c t where "s = c # t" "c \<noteq> CHR ''/''" by (cases s) auto
  then show ?thesis using Cons by (simp add: clean_rooted_def stays_local_def)
qed (simp add: clean_rooted_def stays_local_def)

lemma redirect_location_local:
  assumes "stays_local target"
  shows "stays_local (redirect_location target)"
proof -
  define path where "path = before (CHR ''?'') target"
  define cleaned where "cleaned = clean_rooted path"
  define query where "query = drop (length path) target"
  have "query = dropWhile (\<lambda>x. x \<noteq> CHR ''?'') target"
    unfolding query_def path_def before_def by (simp add: dropWhile_eq_drop)
  then have q: "query = [] \<or> hd query = CHR ''?''"
    using hd_dropWhile [of "\<lambda>x. x \<noteq> CHR ''?''" target] by auto
  have "stays_local cleaned" unfolding cleaned_def by (rule clean_rooted_local)
  then obtain c where c: "cleaned = CHR ''/'' # c" "c = [] \<or> hd c \<noteq> CHR ''/''"
    by (cases cleaned; cases "tl cleaned") (auto simp: stays_local_def)
  have "ends_with_slash cleaned" if "c = []" using that c by (simp add: ends_with_slash_def)
  with q c have "stays_local ((if ends_with_slash path \<and> \<not> ends_with_slash cleaned then cleaned @ ''/'' else cleaned) @ query)"
    by (cases c; cases query) (auto simp: stays_local_def)
  then show ?thesis using assms unfolding redirect_location_def Let_def path_def cleaned_def query_def by simp
qed

text \<open>
  A redirect target taken from a request never leaves the site by scheme or by a network-path
  reference: whatever \<open>redirect_to\<close> and \<open>Referer\<close> say, the \<open>Location\<close> of the reply is a single
  slash followed by something else.
\<close>

theorem redirect_stays_local:
  "stays_local (redirect_location (redirectTarget r ''/dashboard''))"
proof -
  have "stays_local (redirectTarget r ''/dashboard'')"
    by (simp add: redirectTarget_def isLocalRedirect_def stays_local_def Let_def split: option.splits)
  then show ?thesis by (rule redirect_location_local)
qed

text \<open>
  A backslash is let through. \<open>isLocalRedirect\<close> accepts a slash followed by a backslash and a
  host name, and the reply's \<open>Location\<close> is that target unchanged. Browsers read a backslash in a
  web address as a slash, so they take it for another site's address.
\<close>

theorem redirect_lets_backslash_through:
  "isLocalRedirect (CHR ''/'' # backslash # ''evil.example'') \<and>
   redirect_location (CHR ''/'' # backslash # ''evil.example'') = CHR ''/'' # backslash # ''evil.example''"
  by code_simp

end
