(* ===== verification/Urls.thy ===== *)
theory Urls
  imports Web
begin

text \<open>
  Queries of \<open>net/url\<close>: escaping, \<open>Values.Encode\<close> and \<open>ParseQuery\<close>, which leaves out what it cannot
  decode, as \<open>URL.Query\<close> does. The lemmas show that a query written by the code is read back with
  the values it was made of.
\<close>

section \<open>Escaping\<close>

definition hex_upper :: "nat \<Rightarrow> char" where
  "hex_upper d = (if d < 10 then char_of (d + 48) else char_of (d + 55))"

definition unreserved :: "char \<Rightarrow> bool" where
  "unreserved c \<longleftrightarrow>
     (let b = byte c in 48 \<le> b \<and> b \<le> 57 \<or> 65 \<le> b \<and> b \<le> 90 \<or> 97 \<le> b \<and> b \<le> 122 \<or> b \<in> {45, 46, 95, 126})"

definition escape_byte :: "char \<Rightarrow> string" where
  "escape_byte c =
     (if c = CHR '' '' then ''+''
      else if unreserved c then [c]
      else [CHR ''%'', hex_upper (byte c div 16), hex_upper (byte c mod 16)])"

definition QueryEscape :: "string \<Rightarrow> string" where
  "QueryEscape s = concat (map escape_byte s)"

fun QueryUnescape :: "string \<Rightarrow> string option" where
  "QueryUnescape [] = Some []"
| "QueryUnescape (c # s) =
     (if c = CHR ''%'' then
        (case s of
           a # b # rest \<Rightarrow>
             (case (unhex_char a, unhex_char b) of
                (Some x, Some y) \<Rightarrow> map_option (\<lambda>t. char_of (16 * x + y) # t) (QueryUnescape rest)
              | _ \<Rightarrow> None)
         | _ \<Rightarrow> None)
      else map_option (\<lambda>t. (if c = CHR ''+'' then CHR '' '' else c) # t) (QueryUnescape s))"

text \<open>A path, a host or the user information of a parsed URL: its percent escapes decoded.\<close>

fun unescape_path :: "string \<Rightarrow> string option" where
  "unescape_path [] = Some []"
| "unescape_path (c # s) =
     (if c = CHR ''%'' then
        (case s of
           a # b # rest \<Rightarrow>
             (case (unhex_char a, unhex_char b) of
                (Some x, Some y) \<Rightarrow> map_option (\<lambda>t. char_of (16 * x + y) # t) (unescape_path rest)
              | _ \<Rightarrow> None)
         | _ \<Rightarrow> None)
      else map_option (\<lambda>t. c # t) (unescape_path s))"

lemma unhex_hex_upper: "d < 16 \<Longrightarrow> unhex_char (hex_upper d) = Some d"
  by (auto simp: unhex_char_def hex_upper_def Let_def)

lemma byte_div_less: "byte c div 16 < 16"
  unfolding byte_def by (rule of_char_div_less)

lemma byte_split: "char_of (16 * (byte c div 16) + byte c mod 16) = c"
  by (simp add: byte_def)

lemma QueryUnescape_byte:
  "QueryUnescape (escape_byte c @ s) = map_option (\<lambda>t. c # t) (QueryUnescape s)"
proof -
  consider "c = CHR '' ''" | "c \<noteq> CHR '' ''" "unreserved c" | "c \<noteq> CHR '' ''" "\<not> unreserved c" by blast
  then show ?thesis
  proof cases
    case 1
    then show ?thesis by (simp add: escape_byte_def)
  next
    case 2
    then have "c \<noteq> CHR ''%''" "c \<noteq> CHR ''+''" by (auto simp: unreserved_def byte_def Let_def)
    then show ?thesis using 2 by (simp add: escape_byte_def)
  next
    case 3
    then show ?thesis by (simp add: escape_byte_def unhex_hex_upper byte_div_less byte_split)
  qed
qed

lemma QueryUnescape_escape: "QueryUnescape (QueryEscape s) = Some s"
  by (induction s) (simp_all add: QueryEscape_def QueryUnescape_byte)

text \<open>No delimiter of a query survives escaping.\<close>

lemma escape_byte_chars:
  "set (escape_byte c) \<inter> {CHR ''&'', CHR ''='', CHR '';'', CHR ''#'', CHR ''?''} = {}"
proof -
  have hex: "hex_upper d \<notin> {CHR ''&'', CHR ''='', CHR '';'', CHR ''#'', CHR ''?''}" if "d < 16" for d
  proof -
    have "byte (hex_upper d) = (if d < 10 then d + 48 else d + 55)" using that by (simp add: hex_upper_def byte_def)
    then show ?thesis using that by (auto simp: byte_def split: if_splits)
  qed
  have "unreserved c \<Longrightarrow> c \<notin> {CHR ''&'', CHR ''='', CHR '';'', CHR ''#'', CHR ''?''}"
    by (auto simp: unreserved_def byte_def Let_def)
  then show ?thesis using hex [OF byte_div_less [of c]] hex [of "byte c mod 16"]
    by (auto simp: escape_byte_def)
qed

lemma QueryEscape_chars [simp]:
  "CHR ''&'' \<notin> set (QueryEscape s)" "CHR ''='' \<notin> set (QueryEscape s)" "CHR '';'' \<notin> set (QueryEscape s)"
  "CHR ''#'' \<notin> set (QueryEscape s)" "CHR ''?'' \<notin> set (QueryEscape s)"
  using escape_byte_chars by (auto simp: QueryEscape_def)

lemma QueryEscape_nil [simp]: "QueryEscape s = [] \<longleftrightarrow> s = []"
  by (cases s) (auto simp: QueryEscape_def escape_byte_def)

section \<open>Queries\<close>

text \<open>The pairs of a value map in the order \<open>Encode\<close> writes them: sorted by name.\<close>

definition query_pairs :: "values \<Rightarrow> (string \<times> string) list" where
  "query_pairs vs = concat (map (\<lambda>(k, l). map (\<lambda>v. (k, v)) l) (sort_key fst vs))"

definition encode_pair :: "string \<times> string \<Rightarrow> string" where
  "encode_pair kv = QueryEscape (fst kv) @ ''='' @ QueryEscape (snd kv)"

fun join_amp :: "string list \<Rightarrow> string" where
  "join_amp [] = []"
| "join_amp [p] = p"
| "join_amp (p # ps) = p @ ''&'' @ join_amp ps"

definition encode_query :: "values \<Rightarrow> string" where
  "encode_query vs = join_amp (map encode_pair (query_pairs vs))"

text \<open>\<open>Values.Add\<close>.\<close>

fun add_value :: "string \<Rightarrow> string \<Rightarrow> values \<Rightarrow> values" where
  "add_value k v [] = [(k, [v])]"
| "add_value k v ((j, l) # vs) = (if j = k then (j, l @ [v]) # vs else (j, l) # add_value k v vs)"

definition decode_pair :: "string \<Rightarrow> (string \<times> string) option" where
  "decode_pair p =
     (if CHR '';'' \<in> set p \<or> p = [] then None
      else
        (let (k, v) = (case cut_at (CHR ''='') p of None \<Rightarrow> (p, []) | Some kv \<Rightarrow> kv)
         in case (QueryUnescape k, QueryUnescape v) of (Some k', Some v') \<Rightarrow> Some (k', v') | _ \<Rightarrow> None))"

definition ParseQuery :: "string \<Rightarrow> values" where
  "ParseQuery q =
     foldl (\<lambda>vs p. case decode_pair p of None \<Rightarrow> vs | Some (k, v) \<Rightarrow> add_value k v vs) [] (split_on (CHR ''&'') q)"

lemma decode_encode_pair: "decode_pair (encode_pair (k, v)) = Some (k, v)"
  by (simp add: decode_pair_def encode_pair_def cut_at_append QueryUnescape_escape)

lemma encode_pair_amp: "CHR ''&'' \<notin> set (encode_pair kv)"
  by (simp add: encode_pair_def)

lemma split_join:
  "ps \<noteq> [] \<Longrightarrow> (\<And>p. p \<in> set ps \<Longrightarrow> CHR ''&'' \<notin> set p) \<Longrightarrow> split_on (CHR ''&'') (join_amp ps) = ps"
  by (induction ps rule: join_amp.induct) (simp_all add: split_on_absent split_on_append)

lemma get_add_value: "get_value (add_value k v vs) name =
   (if name = k \<and> map_of vs k \<in> {None, Some []} then v else get_value vs name)"
  by (induction k v vs rule: add_value.induct) (auto simp: get_value_def split: list.splits)

lemma get_set_value [simp]: "get_value (set_value k v vs) name = (if name = k then v else get_value vs name)"
  by (induction vs) (auto simp: get_value_def set_value_def del_value_def)

lemma get_del_value [simp]: "get_value (del_value k vs) name = (if name = k then [] else get_value vs name)"
  by (induction vs) (auto simp: get_value_def del_value_def)

lemma distinct_set_value [simp]:
  "distinct (map fst vs) \<Longrightarrow> distinct (map fst (del_value k vs))"
  "distinct (map fst vs) \<Longrightarrow> distinct (map fst (set_value k v vs))"
  by (auto simp: del_value_def set_value_def case_prod_unfold intro: distinct_map_filter)

lemma get_value_pairs:
  assumes "distinct (map fst vs)"
  shows "(case map_of (query_pairs vs) name of None \<Rightarrow> [] | Some v \<Rightarrow> v) = get_value vs name"
proof -
  have first: "map_of (concat (map (\<lambda>(k, l). map (\<lambda>v. (k, v)) l) ws)) name =
      (case map_of ws name of None \<Rightarrow> None | Some l \<Rightarrow> (case l of [] \<Rightarrow> None | v # _ \<Rightarrow> Some v))"
    if "distinct (map fst ws)" for ws :: "values"
    using that
  proof (induction ws)
    case (Cons w ws)
    obtain k l where w: "w = (k, l)" by (cases w)
    have own: "map_of (map (\<lambda>v. (k, v)) l) name = (if name = k then (case l of [] \<Rightarrow> None | v # _ \<Rightarrow> Some v) else None)"
      by (induction l) auto
    show ?case
    proof (cases "name = k")
      case True
      then have "map_of ws name = None" using Cons.prems w by (auto simp: map_of_eq_None_iff)
      then show ?thesis using True Cons w own by (auto simp: map_add_def split: list.splits)
    qed (use Cons w own in \<open>auto simp: map_add_def split: option.splits\<close>)
  qed simp
  have "distinct (map fst (sort_key fst vs))" using assms by (simp add: distinct_map inj_on_def distinct_sort)
  moreover have "map_of (sort_key fst vs) name = map_of vs name"
    using assms \<open>distinct (map fst (sort_key fst vs))\<close> by (metis map_of_inject_set set_sort)
  ultimately show ?thesis unfolding query_pairs_def by (simp add: first get_value_def split: option.split list.split)
qed

text \<open>Reading back a list of pairs: the first of a name counts.\<close>

lemma ParseQuery_pairs:
  "get_value (ParseQuery (join_amp (map encode_pair kvs))) name = (case map_of kvs name of None \<Rightarrow> [] | Some v \<Rightarrow> v)"
proof -
  let ?add = "\<lambda>vs p. case decode_pair p of None \<Rightarrow> vs | Some (k, v) \<Rightarrow> add_value k v vs"
  have lookup: "map_of (add_value k v vs) j = (if j = k then Some ((case map_of vs k of None \<Rightarrow> [] | Some l \<Rightarrow> l) @ [v]) else map_of vs j)"
    for k v vs j by (induction k v vs rule: add_value.induct) auto
  have step: "get_value (foldl ?add vs (map encode_pair kvs)) name =
      (if map_of vs name \<in> {None, Some []} then (case map_of kvs name of None \<Rightarrow> [] | Some v \<Rightarrow> v) else get_value vs name)" for vs
  proof (induction kvs arbitrary: vs)
    case Nil
    then show ?case by (auto simp: get_value_def)
  next
    case (Cons kv kvs)
    obtain k v where kv: "kv = (k, v)" by (cases kv)
    show ?case
      using Cons.IH [of "add_value k v vs"]
      by (auto simp: kv decode_encode_pair lookup get_add_value split: option.splits)
  qed
  show ?thesis
  proof (cases kvs)
    case Nil
    then show ?thesis by (simp add: ParseQuery_def decode_pair_def get_value_def)
  next
    case (Cons kv rest)
    have "split_on (CHR ''&'') (join_amp (map encode_pair kvs)) = map encode_pair kvs"
      by (rule split_join) (auto simp: Cons encode_pair_amp)
    then show ?thesis using step [of "[]"] by (simp add: ParseQuery_def)
  qed
qed

lemma get_value_query [simp]:
  "distinct (map fst vs) \<Longrightarrow> get_value (ParseQuery (encode_query vs)) name = get_value vs name"
  by (simp add: encode_query_def ParseQuery_pairs get_value_pairs)

end
