(* ===== verification/Calendar.thy ===== *)
theory Calendar
  imports GoLib
begin

text \<open>
  The civil calendar of package \<open>time\<close>, and the texts of instants the code writes and reads: the
  format \<open>RFC3339Nano\<close>, the value of a date input, and the three layouts without a zone. A \<open>time\<close> is
  a number of nanoseconds since 1970 in UTC; \<open>civil\<close> is what a clock in UTC shows then.

  The lemmas show that \<open>instant\<close> inverts \<open>civil\<close>, and that parsing inverts formatting on the years
  the format can write, 0 to 9999.
\<close>

section \<open>Years and months\<close>

definition leap :: "int \<Rightarrow> bool" where
  "leap y \<longleftrightarrow> y mod 4 = 0 \<and> (y mod 100 \<noteq> 0 \<or> y mod 400 = 0)"

text \<open>The days before the first of January of a year, counted from the year 1.\<close>

definition days_before_year :: "int \<Rightarrow> int" where
  "days_before_year y = 365 * (y - 1) + (y - 1) div 4 - (y - 1) div 100 + (y - 1) div 400"

definition year_of_day :: "int \<Rightarrow> int" where
  "year_of_day d =
     (let y = d * 400 div 146097 + 1
      in if d < days_before_year y then y - 1 else if days_before_year (y + 1) \<le> d then y + 1 else y)"

definition month_days :: "int \<Rightarrow> int list" where
  "month_days y = [31, if leap y then 29 else 28, 31, 30, 31, 30, 31, 31, 30, 31, 30, 31]"

text \<open>The month and the day in it of a day of the year, given the lengths of the months.\<close>

fun month_of :: "int list \<Rightarrow> int \<Rightarrow> int \<times> int" where
  "month_of [] d = (1, d + 1)"
| "month_of (l # ls) d = (if d < l then (1, d + 1) else (let (m, k) = month_of ls (d - l) in (m + 1, k)))"

definition days_before_month :: "int list \<Rightarrow> int \<Rightarrow> int" where
  "days_before_month ms m = sum_list (take (nat (m - 1)) ms)"

lemma year_lower:
  fixes x d a b c :: int
  assumes "146097 * x \<le> d * 400" "4 * a \<le> x - 1" "x - 1 < 100 * b + 100" "400 * c \<le> x - 1"
  shows "365 * (x - 1) + a - b + c \<le> d"
proof -
  have "400 * a \<le> 100 * x - 100" "4 * x - 4 < 400 * b + 400" using assms by simp_all
  then have "400 * (365 * (x - 1) + a - b + c) \<le> 400 * d" using assms by (simp add: algebra_simps)
  then show ?thesis by simp
qed

lemma year_upper:
  fixes x d a b c :: int
  assumes "d * 400 < 146097 * x + 146097" "x + 2 < 4 * a + 4" "100 * b \<le> x + 2" "x + 2 < 400 * c + 400"
  shows "d < 365 * (x + 2) + a - b + c"
proof -
  have "100 * x + 200 < 400 * a + 400" "400 * b \<le> 4 * x + 8" using assms by simp_all
  then have "400 * d < 400 * (365 * (x + 2) + a - b + c)" using assms by (simp add: algebra_simps)
  then show ?thesis by simp
qed

lemma div_bounds: "0 < n \<Longrightarrow> n * (x div n) \<le> (x::int)" "0 < n \<Longrightarrow> x < n * (x div n) + n"
  using minus_mod_eq_mult_div [of x n] pos_mod_bound [of n x] pos_mod_sign [of n x] by linarith+

lemma year_of_day_bounds:
  "days_before_year (year_of_day d) \<le> d" "d < days_before_year (year_of_day d + 1)"
proof -
  define x where "x = d * 400 div 146097"
  have x: "146097 * x \<le> d * 400" "d * 400 < 146097 * x + 146097" unfolding x_def by (rule div_bounds, simp)+
  have "days_before_year x \<le> d"
    unfolding days_before_year_def by (rule year_lower [OF x(1)]) (simp_all add: div_bounds)
  moreover have "d < days_before_year (x + 3)"
  proof -
    have "x + 3 - 1 = x + 2" by simp
    then show ?thesis unfolding days_before_year_def
      by (simp only:) (rule year_upper [OF x(2)], simp_all add: div_bounds)
  qed
  ultimately show "days_before_year (year_of_day d) \<le> d" "d < days_before_year (year_of_day d + 1)"
    unfolding year_of_day_def Let_def x_def [symmetric] by (simp_all add: add.commute)
qed

lemma div_step:
  assumes "0 < n" shows "(x::int) div n = (x - 1) div n + (if n dvd x then 1 else 0)"
proof -
  have x: "x = n * (x div n) + x mod n" by simp
  have b: "0 \<le> x mod n" "x mod n < n" using assms by simp_all
  show ?thesis
  proof (cases "x mod n = 0")
    case True
    then have "x - 1 = n * (x div n - 1) + (n - 1)" using x by (simp add: algebra_simps)
    then have "(x - 1) div n = x div n - 1" by (rule int_div_pos_eq) (use assms in simp_all)
    then show ?thesis using True by (simp add: dvd_eq_mod_eq_0)
  next
    case False
    have "x - 1 = n * (x div n) + (x mod n - 1)" using x by linarith
    then have "(x - 1) div n = x div n" by (rule int_div_pos_eq) (use b False in simp_all)
    then show ?thesis using False by (simp add: dvd_eq_mod_eq_0)
  qed
qed

lemma year_length:
  fixes y p q r a b c :: int
  assumes "p = a + (if A then 1 else 0)" "q = b + (if B then 1 else 0)" "r = c + (if C then 1 else 0)"
    and "C \<Longrightarrow> B" "B \<Longrightarrow> A"
  shows "365 * y + p - q + r = 365 * (y - 1) + a - b + c + (if A \<and> (\<not> B \<or> C) then 366 else 365)"
  using assms by (cases A; cases B; cases C; simp)

lemma days_before_next_year:
  "days_before_year (y + 1) = days_before_year y + (if leap y then 366 else 365)"
proof -
  have "400 dvd y \<Longrightarrow> 100 dvd y" "100 dvd y \<Longrightarrow> 4 dvd y" by (rule dvd_trans [rotated], assumption, simp)+
  then have "365 * y + y div 4 - y div 100 + y div 400 =
      365 * (y - 1) + (y - 1) div 4 - (y - 1) div 100 + (y - 1) div 400 +
      (if 4 dvd y \<and> (\<not> 100 dvd y \<or> 400 dvd y) then 366 else 365)"
    by (intro year_length div_step) simp_all
  then show ?thesis
    unfolding days_before_year_def leap_def add_diff_cancel_right' dvd_eq_mod_eq_0 .
qed

lemma sum_month_days: "sum_list (month_days y) = (if leap y then 366 else 365)"
  by (simp add: month_days_def)

lemma month_of_correct:
  assumes "0 \<le> d" "d < sum_list ms" and "month_of ms d = (m, k)"
  shows "1 \<le> m" "m \<le> int (length ms)" "1 \<le> k" "k \<le> ms ! nat (m - 1)" "days_before_month ms m + k - 1 = d"
proof -
  have "1 \<le> m \<and> m \<le> int (length ms) \<and> 1 \<le> k \<and> k \<le> ms ! nat (m - 1) \<and> days_before_month ms m + k - 1 = d"
    using assms
  proof (induction ms d arbitrary: m k rule: month_of.induct)
    case (2 l ls d)
    show ?case
    proof (cases "d < l")
      case False
      obtain m' k' where r: "month_of ls (d - l) = (m', k')" by fastforce
      have ih: "1 \<le> m' \<and> m' \<le> int (length ls) \<and> 1 \<le> k' \<and> k' \<le> ls ! nat (m' - 1) \<and> days_before_month ls m' + k' - 1 = d - l"
        using "2.IH" [OF False _ _ r] "2.prems" False by simp
      have "nat (m' + 1 - 1) = Suc (nat (m' - 1))" using ih by linarith
      then show ?thesis using ih "2.prems"(3) False r by (auto simp: days_before_month_def)
    qed (use "2.prems" in \<open>auto simp: days_before_month_def\<close>)
  qed simp
  then show "1 \<le> m" "m \<le> int (length ms)" "1 \<le> k" "k \<le> ms ! nat (m - 1)" "days_before_month ms m + k - 1 = d" by auto
qed

section \<open>Clocks\<close>

record civil =
  cv_Year :: int
  cv_Month :: int
  cv_Day :: int
  cv_Hour :: int
  cv_Min :: int
  cv_Sec :: int
  cv_Nano :: int

text \<open>The days from the year 1 to 1970.\<close>

definition epoch_day :: int where "epoch_day = 719162"

definition civil :: "time \<Rightarrow> civil" where
  "civil t =
     (let s = t div second; d = s div 86400 + epoch_day; sod = s mod 86400; y = year_of_day d;
          (m, k) = month_of (month_days y) (d - days_before_year y)
      in \<lparr>cv_Year = y, cv_Month = m, cv_Day = k, cv_Hour = sod div 3600, cv_Min = sod div 60 mod 60,
          cv_Sec = sod mod 60, cv_Nano = t mod second\<rparr>)"

definition instant :: "civil \<Rightarrow> time" where
  "instant c =
     ((days_before_year (cv_Year c) + days_before_month (month_days (cv_Year c)) (cv_Month c) + cv_Day c - 1 - epoch_day) * 86400 +
      cv_Hour c * 3600 + cv_Min c * 60 + cv_Sec c) * second + cv_Nano c"

definition civil_ok :: "civil \<Rightarrow> bool" where
  "civil_ok c \<longleftrightarrow> 1 \<le> cv_Month c \<and> cv_Month c \<le> 12 \<and>
     1 \<le> cv_Day c \<and> cv_Day c \<le> month_days (cv_Year c) ! nat (cv_Month c - 1) \<and>
     0 \<le> cv_Hour c \<and> cv_Hour c < 24 \<and> 0 \<le> cv_Min c \<and> cv_Min c < 60 \<and>
     0 \<le> cv_Sec c \<and> cv_Sec c < 60 \<and> 0 \<le> cv_Nano c \<and> cv_Nano c < second"

lemma hms_sum:
  fixes b c e f n :: int
  assumes "b * 60 + c = e" "e * 60 + f = n" shows "b * 3600 + c * 60 + f = n"
  using assms by (auto simp: algebra_simps)

lemma day_sum:
  fixes a b k q e r s x y z :: int
  assumes "b + k - 1 = q + e - a" "q * 86400 + r = s" "x + y + z = r"
  shows "(a + b + k - 1 - e) * 86400 + x + y + z = s"
proof -
  have "a + b + k - 1 - e = q" using assms(1) by simp
  then have "(a + b + k - 1 - e) * 86400 = q * 86400" by (rule arg_cong)
  then show ?thesis using assms(2,3) by linarith
qed

lemma hms:
  fixes n :: int assumes "0 \<le> n" "n < 86400"
  shows "n div 3600 * 3600 + n div 60 mod 60 * 60 + n mod 60 = n" "0 \<le> n div 3600" "n div 3600 < 24"
proof -
  have "n div 3600 = n div 60 div 60" by (simp add: zdiv_zmult2_eq [of 60 n 60, symmetric])
  then show "n div 3600 * 3600 + n div 60 mod 60 * 60 + n mod 60 = n"
    by (simp only:) (rule hms_sum; rule div_mult_mod_eq)
  show "0 \<le> n div 3600" "n div 3600 < 24" using assms by (simp_all add: pos_imp_zdiv_nonneg_iff div_less_iff_less_mult)
qed

lemma civil_correct: "instant (civil t) = t" "civil_ok (civil t)"
proof -
  define s where "s = t div second"
  define d where "d = s div 86400 + epoch_day"
  define y where "y = year_of_day d"
  obtain m k where mk: "month_of (month_days y) (d - days_before_year y) = (m, k)" by fastforce
  have "0 \<le> d - days_before_year y" "d - days_before_year y < sum_list (month_days y)"
    using year_of_day_bounds [of d] by (simp_all add: y_def days_before_next_year sum_month_days)
  note day = month_of_correct [OF this mk]
  have sod: "0 \<le> s mod 86400" "s mod 86400 < 86400" by simp_all
  have c: "civil t = \<lparr>cv_Year = y, cv_Month = m, cv_Day = k, cv_Hour = s mod 86400 div 3600,
      cv_Min = s mod 86400 div 60 mod 60, cv_Sec = s mod 86400 mod 60, cv_Nano = t mod second\<rparr>"
    using mk by (simp add: civil_def Let_def s_def d_def y_def)
  have "(days_before_year y + days_before_month (month_days y) m + k - 1 - epoch_day) * 86400 +
      s mod 86400 div 3600 * 3600 + s mod 86400 div 60 mod 60 * 60 + s mod 86400 mod 60 = s"
    by (rule day_sum [OF day(5) [unfolded d_def] div_mult_mod_eq hms(1) [OF sod]])
  then show "instant (civil t) = t" by (simp only: instant_def c civil.simps s_def div_mult_mod_eq)
  have "0 < second" by (simp add: second_def)
  then show "civil_ok (civil t)"
    using day(1-4) hms(2,3) [OF sod] by (simp add: c civil_ok_def month_days_def)
qed

lemma civil_Year: "cv_Year (civil t) = year_of_day (t div second div 86400 + epoch_day)"
  by (simp add: civil_def Let_def split: prod.split)

section \<open>Formatting\<close>

text \<open>The last \<open>w\<close> decimal digits of a number.\<close>

fun padded :: "nat \<Rightarrow> int \<Rightarrow> string" where
  "padded 0 n = []"
| "padded (Suc w) n = padded w (n div 10) @ [digit_char (nat (n mod 10))]"

definition year_text :: "int \<Rightarrow> string" where
  "year_text y =
     (let digits = (if \<bar>y\<bar> < 10000 then padded 4 \<bar>y\<bar> else digits_of (nat \<bar>y\<bar>))
      in if y < 0 then CHR ''-'' # digits else digits)"

definition date_text :: "civil \<Rightarrow> string" where
  "date_text c = year_text (cv_Year c) @ ''-'' @ padded 2 (cv_Month c) @ ''-'' @ padded 2 (cv_Day c)"

definition minute_text :: "civil \<Rightarrow> string" where
  "minute_text c = padded 2 (cv_Hour c) @ '':'' @ padded 2 (cv_Min c)"

text \<open>The fraction of a second without its trailing zeros, nothing when it is zero.\<close>

definition fraction_text :: "int \<Rightarrow> string" where
  "fraction_text ns =
     (let ds = rev (dropWhile (\<lambda>c. c = CHR ''0'') (rev (padded 9 ns))) in if ds = [] then [] else CHR ''.'' # ds)"

definition format_RFC3339Nano :: "time \<Rightarrow> string" where
  "format_RFC3339Nano t =
     (let c = civil t
      in date_text c @ ''T'' @ minute_text c @ '':'' @ padded 2 (cv_Sec c) @ fraction_text (cv_Nano c) @ ''Z'')"

definition format_input :: "time \<Rightarrow> string" where
  "format_input t = (let c = civil t in date_text c @ ''T'' @ minute_text c)"

lemma length_padded [simp]: "length (padded w n) = w"
  by (induction w arbitrary: n) simp_all

lemma padded_digits: "0 \<le> n \<Longrightarrow> list_all is_digit (padded w n)"
proof (induction w arbitrary: n)
  case (Suc w)
  have "nat (n mod 10) < 10" by simp
  then show ?case using Suc by (simp add: digit_char_digit pos_imp_zdiv_nonneg_iff)
qed simp

lemma digits_val_padded: "0 \<le> n \<Longrightarrow> n < 10 ^ w \<Longrightarrow> digits_val (padded w n) = n"
proof (induction w arbitrary: n)
  case (Suc w)
  have "nat (n mod 10) < 10" by simp
  moreover have "n div 10 < 10 ^ w" using Suc.prems by (simp add: div_less_iff_less_mult mult.commute)
  ultimately show ?case using Suc by (simp add: digit_char_digit pos_imp_zdiv_nonneg_iff)
qed (simp add: digits_val_def)

section \<open>Parsing\<close>

text \<open>Each scanner takes its part off the front of a text, or fails.\<close>

definition take_digits :: "nat \<Rightarrow> string \<Rightarrow> (int \<times> string) option" where
  "take_digits n s =
     (if length (take n s) = n \<and> list_all is_digit (take n s) then Some (digits_val (take n s), drop n s) else None)"

definition expect :: "char \<Rightarrow> string \<Rightarrow> string option" where
  "expect c s = (case s of [] \<Rightarrow> None | x # t \<Rightarrow> if x = c then Some t else None)"

text \<open>The layout's hour may have one digit.\<close>

definition take_hour :: "string \<Rightarrow> (int \<times> string) option" where
  "take_hour s = (case take_digits 2 s of Some r \<Rightarrow> Some r | None \<Rightarrow> take_digits 1 s)"

definition scan_date :: "string \<Rightarrow> ((int \<times> int \<times> int) \<times> string) option" where
  "scan_date s =
     Option.bind (take_digits 4 s) (\<lambda>(y, s). Option.bind (expect (CHR ''-'') s) (\<lambda>s.
     Option.bind (take_digits 2 s) (\<lambda>(m, s). Option.bind (expect (CHR ''-'') s) (\<lambda>s.
     Option.bind (take_digits 2 s) (\<lambda>(d, s). Some ((y, m, d), s))))))"

definition scan_minutes :: "string \<Rightarrow> ((int \<times> int) \<times> string) option" where
  "scan_minutes s =
     Option.bind (expect (CHR ''T'') s) (\<lambda>s. Option.bind (take_hour s) (\<lambda>(h, s).
     Option.bind (expect (CHR '':'') s) (\<lambda>s. Option.bind (take_digits 2 s) (\<lambda>(m, s). Some ((h, m), s)))))"

text \<open>A fraction of any length; digits after the ninth are ignored.\<close>

definition scan_fraction :: "string \<Rightarrow> int \<times> string" where
  "scan_fraction s =
     (let ds = takeWhile is_digit (tl s)
      in if s \<noteq> [] \<and> (hd s = CHR ''.'' \<or> hd s = CHR '','') \<and> ds \<noteq> []
         then (digits_val (take 9 ds) * 10 ^ (9 - length (take 9 ds)), drop (length ds) (tl s))
         else (0, s))"

definition scan_seconds :: "string \<Rightarrow> ((int \<times> int) \<times> string) option" where
  "scan_seconds s =
     Option.bind (expect (CHR '':'') s) (\<lambda>s. Option.bind (take_digits 2 s) (\<lambda>(sec, s).
     let (ns, s) = scan_fraction s in Some ((sec, ns), s)))"

text \<open>The offset east of UTC in seconds.\<close>

definition scan_zone :: "string \<Rightarrow> (int \<times> string) option" where
  "scan_zone s =
     (case s of
        [] \<Rightarrow> None
      | c # t \<Rightarrow>
          if c = CHR ''Z'' then Some (0, t)
          else if c = CHR ''+'' \<or> c = CHR ''-'' then
            Option.bind (take_digits 2 t) (\<lambda>(hr, s). Option.bind (expect (CHR '':'') s) (\<lambda>s.
            Option.bind (take_digits 2 s) (\<lambda>(mm, s).
              if hr > 24 \<or> mm > 60 then None
              else Some ((if c = CHR ''-'' then - ((hr * 60 + mm) * 60) else (hr * 60 + mm) * 60), s))))
          else None)"

definition valid_civil :: "int \<times> int \<times> int \<Rightarrow> int \<times> int \<Rightarrow> int \<times> int \<Rightarrow> civil option" where
  "valid_civil date minutes seconds =
     (let (y, m, d) = date; (h, mi) = minutes; (sec, ns) = seconds
      in if 1 \<le> m \<and> m \<le> 12 \<and> 1 \<le> d \<and> d \<le> month_days y ! nat (m - 1) \<and> h < 24 \<and> mi < 60 \<and> sec < 60
         then Some \<lparr>cv_Year = y, cv_Month = m, cv_Day = d, cv_Hour = h, cv_Min = mi, cv_Sec = sec, cv_Nano = ns\<rparr>
         else None)"

definition parse_RFC3339Nano :: "string \<Rightarrow> time option" where
  "parse_RFC3339Nano s =
     Option.bind (scan_date s) (\<lambda>(date, s). Option.bind (scan_minutes s) (\<lambda>(minutes, s).
     Option.bind (scan_seconds s) (\<lambda>(seconds, s). Option.bind (scan_zone s) (\<lambda>(offset, s).
       if s \<noteq> [] then None
       else map_option (\<lambda>c. instant c - offset * second) (valid_civil date minutes seconds)))))"

text \<open>The layouts \<open>2006-01-02T15:04:05\<close>, \<open>2006-01-02T15:04\<close> and \<open>2006-01-02\<close>, read in UTC.\<close>

definition parse_seconds :: "string \<Rightarrow> time option" where
  "parse_seconds s =
     Option.bind (scan_date s) (\<lambda>(date, s). Option.bind (scan_minutes s) (\<lambda>(minutes, s).
     Option.bind (scan_seconds s) (\<lambda>(seconds, s).
       if s \<noteq> [] then None else map_option instant (valid_civil date minutes seconds))))"

definition parse_minutes :: "string \<Rightarrow> time option" where
  "parse_minutes s =
     Option.bind (scan_date s) (\<lambda>(date, s). Option.bind (scan_minutes s) (\<lambda>(minutes, s).
       if s \<noteq> [] then None else map_option instant (valid_civil date minutes (0, 0))))"

definition parse_day :: "string \<Rightarrow> time option" where
  "parse_day s =
     Option.bind (scan_date s) (\<lambda>(date, s).
       if s \<noteq> [] then None else map_option instant (valid_civil date (0, 0) (0, 0)))"

section \<open>Round trip\<close>

lemma take_digits_padded:
  "0 \<le> n \<Longrightarrow> n < 10 ^ w \<Longrightarrow> take_digits w (padded w n @ s) = Some (n, s)"
  by (simp add: take_digits_def padded_digits digits_val_padded)

lemma digits_val_zeros: "digits_val (ds @ replicate k (CHR ''0'')) = digits_val ds * 10 ^ k"
proof (induction k)
  case (Suc k)
  have "ds @ replicate (Suc k) (CHR ''0'') = (ds @ replicate k (CHR ''0'')) @ [CHR ''0'']"
    by (simp add: replicate_append_same)
  moreover have "digit_val (CHR ''0'') = 0" by (simp add: digit_val_def)
  ultimately show ?case using Suc by (simp only: digits_val_snoc) simp
qed simp

lemma scan_fraction_text:
  assumes "0 \<le> ns" "ns < 10 ^ 9" and "s = [] \<or> \<not> is_digit (hd s)" "s = [] \<or> hd s \<noteq> CHR ''.'' \<and> hd s \<noteq> CHR '',''"
  shows "scan_fraction (fraction_text ns @ s) = (ns, s)"
proof -
  define ds where "ds = rev (dropWhile (\<lambda>c. c = CHR ''0'') (rev (padded 9 ns)))"
  define zs where "zs = rev (takeWhile (\<lambda>c. c = CHR ''0'') (rev (padded 9 ns)))"
  have p: "padded 9 ns = ds @ zs" unfolding ds_def zs_def by (metis rev_append rev_rev_ident takeWhile_dropWhile_id)
  have "\<forall>c \<in> set zs. c = CHR ''0''" by (auto simp: zs_def dest: set_takeWhileD)
  then have z: "zs = replicate (length zs) (CHR ''0'')" by (simp add: replicate_length_same)
  have len: "length ds + length zs = 9" using p by (metis length_append length_padded)
  have val: "digits_val ds * 10 ^ length zs = ns"
    using digits_val_padded [OF assms(1,2)] p z by (metis digits_val_zeros)
  have dig: "\<forall>c \<in> set ds. is_digit c" using padded_digits [OF assms(1), of 9] by (simp add: p list_all_iff)
  have fmt: "fraction_text ns = (if ds = [] then [] else CHR ''.'' # ds)" by (simp add: fraction_text_def ds_def Let_def)
  have tw: "takeWhile is_digit (ds @ s) = ds" using dig assms(3) by (cases s) (simp_all add: takeWhile_append2)
  show ?thesis
  proof (cases "ds = []")
    case True
    have "fraction_text ns = []" using True fmt by simp
    moreover have "scan_fraction s = (0, s)" using assms(4) by (cases s) (simp_all add: scan_fraction_def Let_def)
    moreover have "ns = 0" using True val by (simp add: digits_val_def)
    ultimately show ?thesis by simp
  next
    case False
    have "9 - length ds = length zs" "length ds \<le> 9" using len by simp_all
    then show ?thesis using False tw val by (simp add: fmt scan_fraction_def Let_def)
  qed
qed

lemma parse_format:
  assumes "0 \<le> cv_Year (civil t)" "cv_Year (civil t) < 10000"
  shows "parse_RFC3339Nano (format_RFC3339Nano t) = Some t"
proof -
  define c where "c = civil t"
  have ok: "civil_ok c" and t: "instant c = t" using civil_correct by (simp_all add: c_def)
  have y: "0 \<le> cv_Year c" "cv_Year c < 10 ^ 4" using assms by (simp_all add: c_def)
  have days: "month_days (cv_Year c) ! nat (cv_Month c - 1) \<le> 31"
  proof -
    have "\<forall>x \<in> set (month_days (cv_Year c)). x \<le> 31" by (simp add: month_days_def)
    moreover have "nat (cv_Month c - 1) < length (month_days (cv_Year c))" using ok by (auto simp: civil_ok_def month_days_def)
    ultimately show ?thesis by (meson nth_mem)
  qed
  have two: "take_digits 2 (padded 2 n @ s) = Some (n, s)" if "0 \<le> n" "n < 100" for n s
    using take_digits_padded [of n 2 s] that by simp
  have rng: "0 \<le> cv_Month c" "cv_Month c < 100" "0 \<le> cv_Day c" "cv_Day c < 100" "0 \<le> cv_Hour c" "cv_Hour c < 100"
    "0 \<le> cv_Min c" "cv_Min c < 100" "0 \<le> cv_Sec c" "cv_Sec c < 100" "0 \<le> cv_Nano c" "cv_Nano c < 10 ^ 9"
    using ok days by (simp_all add: civil_ok_def second_def)
  have date: "scan_date (date_text c @ s) = Some ((cv_Year c, cv_Month c, cv_Day c), s)" for s
    using y rng(1-4) take_digits_padded [OF y] by (simp add: scan_date_def date_text_def year_text_def expect_def two)
  have minutes: "scan_minutes (''T'' @ minute_text c @ s) = Some ((cv_Hour c, cv_Min c), s)" for s
    using rng(5-8) by (simp add: scan_minutes_def minute_text_def expect_def two take_hour_def)
  have seconds: "scan_seconds ('':'' @ padded 2 (cv_Sec c) @ fraction_text (cv_Nano c) @ ''Z'') = Some ((cv_Sec c, cv_Nano c), ''Z'')"
  proof -
    have "scan_fraction (fraction_text (cv_Nano c) @ ''Z'') = (cv_Nano c, ''Z'')"
      by (rule scan_fraction_text [OF rng(11,12)]) (simp_all add: is_digit_def)
    then show ?thesis using rng(9,10) by (simp add: scan_seconds_def expect_def two)
  qed
  have "valid_civil (cv_Year c, cv_Month c, cv_Day c) (cv_Hour c, cv_Min c) (cv_Sec c, cv_Nano c) = Some c"
    using ok by (simp add: valid_civil_def civil_ok_def)
  then have valid: "map_option (\<lambda>c. instant c - 0 * second) (valid_civil (cv_Year c, cv_Month c, cv_Day c)
      (cv_Hour c, cv_Min c) (cv_Sec c, cv_Nano c)) = Some t" using t by simp
  have fmt: "format_RFC3339Nano t = date_text c @ ''T'' @ minute_text c @ '':'' @ padded 2 (cv_Sec c) @ fraction_text (cv_Nano c) @ ''Z''"
    unfolding format_RFC3339Nano_def Let_def c_def ..
  have zone: "scan_zone ''Z'' = Some (0, [])" by (simp add: scan_zone_def)
  show ?thesis
    unfolding parse_RFC3339Nano_def fmt date minutes seconds zone Option.bind_lunit prod.case
    by (simp only: valid simp_thms if_True if_False)
qed

end
