(* ===== verification/Dates.thy ===== *)
theory Dates
  imports Calendar Web
begin

text \<open>
  The date filters of the lists, \<open>internal/handler/date_filter.go\<close> and \<open>parseWebhookDateTime\<close> of
  \<open>webhook_partial.go\<close>: a date is an instant with an offset, or a clock time of a named zone, and
  a clock time that a change of the zone's offset skips or repeats is refused.

  The zone database belongs to package \<open>time\<close>: a zone is known by its offset at an instant
  (\<open>Zone\<close>, seconds east of UTC) and by the end of the interval the instant is in
  (\<open>ZoneBounds\<close>, nothing when the interval has no end). \<open>location_ok\<close> states what the code relies
  on. The loop over the intervals may run forever for other zones, so its result is an option; the
  lemmas show that it ends, and that it finds the one instant the clock time stands for.
\<close>

section \<open>Zones\<close>

record location =
  loc_name :: string
  loc_offset :: "time \<Rightarrow> int"
  loc_end :: "time \<Rightarrow> time option"

definition UTC :: location where
  "UTC = \<lparr>loc_name = ''UTC'', loc_offset = (\<lambda>_. 0), loc_end = (\<lambda>_. None)\<rparr>"

text \<open>What a clock in the zone shows, as the instant at which a clock in UTC shows the same.\<close>

definition clock :: "location \<Rightarrow> time \<Rightarrow> time" where
  "clock loc t = t + loc_offset loc t * second"

definition new_year :: "int \<Rightarrow> time" where
  "new_year y = instant \<lparr>cv_Year = y, cv_Month = 1, cv_Day = 1, cv_Hour = 0, cv_Min = 0, cv_Sec = 0, cv_Nano = 0\<rparr>"

text \<open>
  Offsets are within two days, and an offset lasts until the end of its interval. For the last
  day of a leap year \<open>ZoneBounds\<close> may report an end that is past, the end of the 365th day; then the
  offset lasts until the year ends in UTC, and at such an end the zone's clock shows the year of
  UTC.
\<close>

definition interval_ok :: "location \<Rightarrow> time \<Rightarrow> bool" where
  "interval_ok loc t \<longleftrightarrow>
     (case loc_end loc t of
        None \<Rightarrow> \<forall>u\<ge>t. loc_offset loc u = loc_offset loc t
      | Some b \<Rightarrow>
          (\<forall>u\<ge>t. u < (if t < b then b else new_year (cv_Year (civil t) + 1)) \<longrightarrow> loc_offset loc u = loc_offset loc t) \<and>
          (\<forall>b'. loc_end loc b = Some b' \<longrightarrow> b' \<le> b \<longrightarrow> cv_Year (civil (clock loc b)) = cv_Year (civil b)))"

definition location_ok :: "location \<Rightarrow> bool" where
  "location_ok loc \<longleftrightarrow> (\<forall>t. \<bar>loc_offset loc t\<bar> \<le> 48 * 60 * 60 \<and> interval_ok loc t)"

section \<open>Clock times\<close>

text \<open>The layout \<open>2006-01-02T15:04:05.999999999\<close>.\<close>

definition format_clock :: "time \<Rightarrow> string" where
  "format_clock t =
     (let c = civil t in date_text c @ ''T'' @ minute_text c @ '':'' @ padded 2 (cv_Sec c) @ fraction_text (cv_Nano c))"

definition occurs_twice :: "time \<Rightarrow> location \<Rightarrow> go_error" where
  "occurs_twice wall loc = ErrText (format_clock wall @ '' occurs twice in '' @ loc_name loc @
     ''; choose a time outside the clock change or use an RFC3339 value with an explicit offset'')"

definition does_not_exist :: "time \<Rightarrow> location \<Rightarrow> go_error" where
  "does_not_exist wall loc = ErrText (format_clock wall @ '' does not exist in '' @ loc_name loc @
     ''; choose a time outside the clock change'')"

definition resolved :: "time \<Rightarrow> location \<Rightarrow> time option \<Rightarrow> go_error + time" where
  "resolved wall loc result = (case result of None \<Rightarrow> Inl (does_not_exist wall loc) | Some t \<Rightarrow> Inr t)"

text \<open>
  The loop: its cursor is in the zone after a step to an interval's end and in UTC otherwise,
  which decides the year it shows.
\<close>

partial_function (option) resolve_loop ::
    "time \<Rightarrow> location \<Rightarrow> time \<Rightarrow> bool \<Rightarrow> time option \<Rightarrow> (go_error + time) option" where
  "resolve_loop wall loc cursor zoned result =
     (if cursor > wall + 48 * hour then Some (resolved wall loc result)
      else
        (let candidate = wall - loc_offset loc cursor * second;
             same = (format_clock (clock loc candidate) = format_clock wall)
         in if same \<and> result \<noteq> None \<and> result \<noteq> Some candidate then Some (Inl (occurs_twice wall loc))
            else
              (let result' = (if same then Some candidate else result)
               in case loc_end loc cursor of
                    None \<Rightarrow> Some (resolved wall loc result')
                  | Some next \<Rightarrow>
                      if next > wall + 48 * hour then Some (resolved wall loc result')
                      else if next \<le> cursor
                      then resolve_loop wall loc
                             (new_year (cv_Year (civil (if zoned then clock loc cursor else cursor)) + 1)) False result'
                      else resolve_loop wall loc next True result')))"

definition resolveLocalTime :: "time \<Rightarrow> location \<Rightarrow> (go_error + time) option" where
  "resolveLocalTime wall loc = resolve_loop wall loc (wall - 48 * hour) False None"

text \<open>\<open>AddDate(0, 0, 1)\<close> of a clock time in UTC is a day of 24 hours later.\<close>

definition parse_clock :: "string \<Rightarrow> bool \<Rightarrow> time option" where
  "parse_clock raw isTo =
     (case parse_seconds raw of
        Some t \<Rightarrow> Some t
      | None \<Rightarrow>
         (case parse_minutes raw of
            Some t \<Rightarrow> Some t
          | None \<Rightarrow> map_option (\<lambda>t. if isTo then t + 24 * hour else t) (parse_day raw)))"

text \<open>The verb \<open>%q\<close>, without the escapes it writes for quotes, backslashes and bytes that do not print.\<close>

definition quoted :: "string \<Rightarrow> string" where
  "quoted s = [CHR 0x22] @ s @ [CHR 0x22]"

definition parseWebhookDateTime :: "string \<Rightarrow> bool \<Rightarrow> location \<Rightarrow> (go_error + time option) option" where
  "parseWebhookDateTime raw isTo loc =
     (let raw = TrimSpace raw
      in if raw = [] then Some (Inr None)
         else
           (case parse_RFC3339Nano raw of
              Some t \<Rightarrow> Some (Inr (Some t))
            | None \<Rightarrow>
               (case parse_clock raw isTo of
                  Some t \<Rightarrow> map_option (map_sum id Some) (resolveLocalTime t loc)
                | None \<Rightarrow> Some (Inl (ErrText (''invalid date '' @ quoted raw @ ''; enter a date and time or an RFC3339 value''))))))"

definition in_field :: "string \<Rightarrow> go_error \<Rightarrow> go_error" where
  "in_field name e = ErrText (name @ '': '' @ error_text e)"

definition webhookFilterDates ::
    "(string \<Rightarrow> location option) \<Rightarrow> values \<Rightarrow> (go_error + time option \<times> time option) option" where
  "webhookFilterDates zones vs =
     (let tz = TrimSpace (get_value vs ''tz''); zone = (if tz = [] then ''UTC'' else tz)
      in case zones zone of
           None \<Rightarrow> Some (Inl (ErrText (''unknown timezone '' @ quoted zone @ ''; select a named timezone or UTC'')))
         | Some loc \<Rightarrow>
             if zone = ''Local'' then Some (Inl (ErrText (''unknown timezone '' @ quoted zone @ ''; select a named timezone or UTC'')))
             else Option.bind (parseWebhookDateTime (get_value vs ''from'') False loc) (\<lambda>from.
               case from of
                 Inl e \<Rightarrow> Some (Inl (in_field ''From'' e))
               | Inr from' \<Rightarrow> Option.bind (parseWebhookDateTime (get_value vs ''to'') True loc) (\<lambda>to.
                   case to of Inl e \<Rightarrow> Some (Inl (in_field ''To'' e)) | Inr to' \<Rightarrow> Some (Inr (from', to')))))"

section \<open>Dates in links\<close>

definition dateTimeInstant :: "time option \<Rightarrow> string" where
  "dateTimeInstant v = (case v of None \<Rightarrow> [] | Some t \<Rightarrow> format_RFC3339Nano t)"

definition formatDateTimeInput :: "time option \<Rightarrow> string" where
  "formatDateTimeInput v = (case v of None \<Rightarrow> [] | Some t \<Rightarrow> format_input t)"

definition set_date :: "string \<Rightarrow> time option \<Rightarrow> values \<Rightarrow> values" where
  "set_date name v vs =
     (let vs = del_value name vs in case v of None \<Rightarrow> vs | Some t \<Rightarrow> set_value name (format_RFC3339Nano t) vs)"

definition canonicalDateQuery :: "values \<Rightarrow> time option \<Rightarrow> time option \<Rightarrow> values" where
  "canonicalDateQuery vs from to = set_date ''to'' to (set_date ''from'' from (del_value ''tz'' vs))"

section \<open>A clock time read off its text\<close>

lemma digits_val_year:
  assumes "0 \<le> y" shows "digits_val (year_text y) = y" "list_all is_digit (year_text y)" "year_text y \<noteq> []"
  using assms digits_val_padded [of y 4] padded_digits [of y 4] length_padded [of 4 y] digits_of_digits [of "nat y"]
  by (auto simp: year_text_def Let_def digits_val_digits_of simp del: length_padded padded.simps)

lemma year_text_minus: "y < 0 \<Longrightarrow> year_text y = CHR ''-'' # year_text (- y)"
  by (simp add: year_text_def Let_def)

lemma digits_prefix_unique:
  assumes "list_all is_digit a" "list_all is_digit b" "\<not> is_digit c" "a @ c # s = b @ c # t"
  shows "a = b \<and> s = t"
proof -
  have "takeWhile is_digit (a @ c # s) = a" "takeWhile is_digit (b @ c # t) = b"
    using assms(1-3) by (simp_all add: takeWhile_append2 list_all_iff)
  then show ?thesis using assms(4) by simp
qed

lemma year_text_prefix_unique:
  assumes "year_text y @ CHR ''-'' # s = year_text z @ CHR ''-'' # t"
  shows "y = z \<and> s = t"
proof -
  have dash: "\<not> is_digit (CHR ''-'')" by (simp add: is_digit_def)
  have hd: "hd (year_text x @ CHR ''-'' # r) \<noteq> CHR ''-''" if "0 \<le> x" for x r
    using digits_val_year(2,3) [OF that] dash by (cases "year_text x") auto
  have pos: "x = w \<and> r = q" if "0 \<le> x" "0 \<le> w" "year_text x @ CHR ''-'' # r = year_text w @ CHR ''-'' # q" for x w r q
    using digits_prefix_unique [OF digits_val_year(2) [OF that(1)] digits_val_year(2) [OF that(2)] dash that(3)]
      digits_val_year(1) that(1,2) by metis
  show ?thesis
  proof (cases "0 \<le> y"; cases "0 \<le> z")
    assume "0 \<le> y" "0 \<le> z" then show ?thesis using pos assms by blast
  next
    assume "0 \<le> y" "\<not> 0 \<le> z"
    then have "year_text y @ CHR ''-'' # s = CHR ''-'' # year_text (- z) @ CHR ''-'' # t" using assms year_text_minus [of z] by simp
    then show ?thesis using hd [OF \<open>0 \<le> y\<close>, of s] by (metis list.sel(1))
  next
    assume "\<not> 0 \<le> y" "0 \<le> z"
    then have "year_text z @ CHR ''-'' # t = CHR ''-'' # year_text (- y) @ CHR ''-'' # s" using assms year_text_minus [of y] by simp
    then show ?thesis using hd [OF \<open>0 \<le> z\<close>, of t] by (metis list.sel(1))
  next
    assume "\<not> 0 \<le> y" "\<not> 0 \<le> z"
    moreover from this have "year_text (- y) @ CHR ''-'' # s = year_text (- z) @ CHR ''-'' # t"
      using assms year_text_minus [of y] year_text_minus [of z] by simp
    ultimately show ?thesis using pos [of "- y" "- z" s t] by linarith
  qed
qed

lemma padded_inj: "padded 2 m = padded 2 n \<Longrightarrow> 0 \<le> m \<Longrightarrow> m < 100 \<Longrightarrow> 0 \<le> n \<Longrightarrow> n < 100 \<Longrightarrow> m = n"
proof -
  assume eq: "padded 2 m = padded 2 n" and r: "0 \<le> m" "m < 100" "0 \<le> n" "n < 100"
  have hundred: "(100 :: int) = 10 ^ 2" by simp
  have "digits_val (padded 2 m) = m" "digits_val (padded 2 n) = n"
    using digits_val_padded [OF r(1) r(2) [unfolded hundred]] digits_val_padded [OF r(3) r(4) [unfolded hundred]] .
  then show "m = n" unfolding eq by (rule trans [OF sym])
qed

lemma fraction_text_inj:
  assumes "fraction_text m = fraction_text n" "0 \<le> m" "m < 10 ^ 9" "0 \<le> n" "n < 10 ^ 9" shows "m = n"
proof -
  have "scan_fraction (fraction_text m @ []) = (m, [])" by (rule scan_fraction_text [OF assms(2,3)]) simp_all
  moreover have "scan_fraction (fraction_text n @ []) = (n, [])" by (rule scan_fraction_text [OF assms(4,5)]) simp_all
  ultimately show "m = n" using assms(1) by (metis prod.inject)
qed

lemma civil_ok_ranges:
  assumes "civil_ok c"
  shows "0 \<le> cv_Month c" "cv_Month c < 100" "0 \<le> cv_Day c" "cv_Day c < 100" "0 \<le> cv_Hour c" "cv_Hour c < 100"
    "0 \<le> cv_Min c" "cv_Min c < 100" "0 \<le> cv_Sec c" "cv_Sec c < 100" "0 \<le> cv_Nano c" "cv_Nano c < 10 ^ 9"
proof -
  have "\<forall>x \<in> set (month_days (cv_Year c)). x \<le> 31" by (simp add: month_days_def)
  moreover have "nat (cv_Month c - 1) < length (month_days (cv_Year c))" using assms by (auto simp: civil_ok_def month_days_def)
  ultimately have "month_days (cv_Year c) ! nat (cv_Month c - 1) \<le> 31" by (meson nth_mem)
  then show "0 \<le> cv_Month c" "cv_Month c < 100" "0 \<le> cv_Day c" "cv_Day c < 100" "0 \<le> cv_Hour c" "cv_Hour c < 100"
    "0 \<le> cv_Min c" "cv_Min c < 100" "0 \<le> cv_Sec c" "cv_Sec c < 100" "0 \<le> cv_Nano c" "cv_Nano c < 10 ^ 9"
    using assms by (simp_all add: civil_ok_def second_def)
qed

lemma format_clock_inj: "format_clock t = format_clock u \<Longrightarrow> t = u"
proof -
  assume eq: "format_clock t = format_clock u"
  let ?c = "civil t" and ?d = "civil u"
  note rc = civil_ok_ranges [OF civil_correct(2) [of t]] and rd = civil_ok_ranges [OF civil_correct(2) [of u]]
  have "cv_Year ?c = cv_Year ?d \<and>
      padded 2 (cv_Month ?c) @ ''-'' @ padded 2 (cv_Day ?c) @ ''T'' @ minute_text ?c @ '':'' @ padded 2 (cv_Sec ?c) @ fraction_text (cv_Nano ?c) =
      padded 2 (cv_Month ?d) @ ''-'' @ padded 2 (cv_Day ?d) @ ''T'' @ minute_text ?d @ '':'' @ padded 2 (cv_Sec ?d) @ fraction_text (cv_Nano ?d)"
    using eq by (intro year_text_prefix_unique) (simp add: format_clock_def date_text_def Let_def del: padded.simps)
  then have y: "cv_Year ?c = cv_Year ?d" and texts: "padded 2 (cv_Month ?c) = padded 2 (cv_Month ?d)"
    "padded 2 (cv_Day ?c) = padded 2 (cv_Day ?d)" "padded 2 (cv_Hour ?c) = padded 2 (cv_Hour ?d)"
    "padded 2 (cv_Min ?c) = padded 2 (cv_Min ?d)" "padded 2 (cv_Sec ?c) = padded 2 (cv_Sec ?d)"
    "fraction_text (cv_Nano ?c) = fraction_text (cv_Nano ?d)"
    by (simp_all add: minute_text_def append_eq_append_conv del: padded.simps)
  have "cv_Month ?c = cv_Month ?d" "cv_Day ?c = cv_Day ?d" "cv_Hour ?c = cv_Hour ?d" "cv_Min ?c = cv_Min ?d"
    "cv_Sec ?c = cv_Sec ?d" "cv_Nano ?c = cv_Nano ?d"
    using padded_inj [OF texts(1)] padded_inj [OF texts(2)] padded_inj [OF texts(3)] padded_inj [OF texts(4)]
      padded_inj [OF texts(5)] fraction_text_inj [OF texts(6)] rc rd by simp_all
  with y have "?c = ?d" by simp
  then show "t = u" using civil_correct(1) by metis
qed

section \<open>Resolving a clock time\<close>

text \<open>What the loop has found when its cursor is at \<open>b\<close>.\<close>

definition found_before :: "time \<Rightarrow> location \<Rightarrow> time \<Rightarrow> time option \<Rightarrow> bool" where
  "found_before wall loc b result \<longleftrightarrow>
     (case result of
        None \<Rightarrow> \<forall>u<b. clock loc u \<noteq> wall
      | Some t \<Rightarrow> clock loc t = wall \<and> (\<forall>u<b. clock loc u = wall \<longrightarrow> u = t))"

text \<open>What a result of the loop says of the instants at which the zone's clock shows \<open>wall\<close>.\<close>

definition resolves :: "time \<Rightarrow> location \<Rightarrow> go_error + time \<Rightarrow> bool" where
  "resolves wall loc r \<longleftrightarrow>
     (case r of
        Inr t \<Rightarrow> {u. clock loc u = wall} = {t}
      | Inl e \<Rightarrow>
          e = does_not_exist wall loc \<and> {u. clock loc u = wall} = {} \<or>
          e = occurs_twice wall loc \<and> (\<exists>u v. u \<noteq> v \<and> clock loc u = wall \<and> clock loc v = wall))"

lemma clock_window:
  assumes "location_ok loc" "clock loc u = wall" shows "wall - 48 * hour \<le> u" "u \<le> wall + 48 * hour"
proof -
  have "\<bar>loc_offset loc u\<bar> \<le> 48 * 60 * 60" using assms(1) by (simp add: location_ok_def)
  then show "wall - 48 * hour \<le> u" "u \<le> wall + 48 * hour"
    using assms(2) by (auto simp: clock_def time_units)
qed

lemma days_bound:
  fixes t s q y e n :: int
  assumes "q + e < y" "s < 86400 * q + 86400" "t < n * s + n" "0 < n" shows "t < (y - e) * 86400 * n"
proof -
  have "s + 1 \<le> (y - e) * 86400" using assms(1,2) by (simp add: algebra_simps)
  then have "(s + 1) * n \<le> (y - e) * 86400 * n" using assms(4) by (intro mult_right_mono) simp_all
  then show ?thesis using assms(3) by (simp add: algebra_simps)
qed

lemma new_year_eq: "new_year y = (days_before_year y - epoch_day) * 86400 * second"
  by (simp add: new_year_def instant_def days_before_month_def)

lemma new_year_after: "t < new_year (cv_Year (civil t) + 1)"
proof -
  have year: "t div second div 86400 + epoch_day < days_before_year (cv_Year (civil t) + 1)"
    unfolding civil_Year by (rule year_of_day_bounds(2))
  have n: "0 < second" by (simp add: second_def)
  show ?thesis
    unfolding new_year_eq by (rule days_bound [OF year div_bounds(2) [OF zero_less_numeral] div_bounds(2) [OF n] n])
qed

lemma lasts_forever:
  assumes "location_ok loc" "loc_end loc t = None" "t \<le> u" shows "loc_offset loc u = loc_offset loc t"
proof -
  have "interval_ok loc t" using assms(1) unfolding location_ok_def by blast
  then have "\<forall>u\<ge>t. loc_offset loc u = loc_offset loc t" unfolding interval_ok_def assms(2) option.case .
  then show ?thesis using assms(3) by blast
qed

lemma lasts_until_end:
  assumes "location_ok loc" "loc_end loc t = Some b"
  shows "t \<le> u \<Longrightarrow> u < (if t < b then b else new_year (cv_Year (civil t) + 1)) \<Longrightarrow> loc_offset loc u = loc_offset loc t"
    and "loc_end loc b = Some b' \<Longrightarrow> b' \<le> b \<Longrightarrow> cv_Year (civil (clock loc b)) = cv_Year (civil b)"
proof -
  have "interval_ok loc t" using assms(1) unfolding location_ok_def by blast
  note ok = this [unfolded interval_ok_def assms(2) option.case]
  show "t \<le> u \<Longrightarrow> u < (if t < b then b else new_year (cv_Year (civil t) + 1)) \<Longrightarrow> loc_offset loc u = loc_offset loc t"
    using conjunct1 [OF ok] by blast
  show "loc_end loc b = Some b' \<Longrightarrow> b' \<le> b \<Longrightarrow> cv_Year (civil (clock loc b)) = cv_Year (civil b)"
    using conjunct2 [OF ok] by blast
qed

lemma resolved_all:
  assumes "location_ok loc" "found_before wall loc b result" "wall + 48 * hour < b"
  shows "resolves wall loc (resolved wall loc result)"
proof -
  have "u < b" if "clock loc u = wall" for u using clock_window(2) [OF assms(1) that] assms(3) by simp
  then show ?thesis using assms(2) by (auto simp: resolves_def resolved_def found_before_def split: option.splits)
qed

text \<open>One interval: the only instant in it the clock time can stand for is the candidate.\<close>

lemma found_step:
  assumes "found_before wall loc c result" and "\<And>u. c \<le> u \<Longrightarrow> u < b \<Longrightarrow> loc_offset loc u = loc_offset loc c"
    and cand: "candidate = wall - loc_offset loc c * second"
    and "\<not> (clock loc candidate = wall \<and> result \<noteq> None \<and> result \<noteq> Some candidate)"
  shows "found_before wall loc b (if clock loc candidate = wall then Some candidate else result)"
proof -
  have new: "u = candidate" if "clock loc u = wall" "c \<le> u" "u < b" for u
    using assms(2) [OF that(2,3)] that(1) cand by (simp add: clock_def)
  show ?thesis
  proof (cases "clock loc candidate = wall")
    case True
    then have "result = None \<or> result = Some candidate" using assms(4) by blast
    then have "u = candidate" if "clock loc u = wall" "u < b" for u
      using assms(1) new [OF that(1) _ that(2)] that by (cases "u < c") (auto simp: found_before_def)
    then show ?thesis using True by (auto simp: found_before_def)
  next
    case False
    then have "u < c" if "clock loc u = wall" "u < b" for u using new [OF that(1) _ that(2)] that by force
    then show ?thesis using False assms(1) by (auto simp: found_before_def split: option.splits)
  qed
qed

lemma same_clock: "format_clock t = format_clock u \<longleftrightarrow> t = u"
  using format_clock_inj by blast

lemma resolve_loop_correct:
  assumes ok: "location_ok loc"
  shows "found_before wall loc cursor result \<Longrightarrow> (zoned \<Longrightarrow> \<exists>t. loc_end loc t = Some cursor) \<Longrightarrow>
    \<exists>r. resolve_loop wall loc cursor zoned result = Some r \<and> resolves wall loc r"
proof (induction "nat (wall + 48 * hour + 1 - cursor)" arbitrary: cursor zoned result rule: less_induct)
  case less
  note found = less.prems(1)
  define candidate where "candidate = wall - loc_offset loc cursor * second"
  define result' where "result' = (if clock loc candidate = wall then Some candidate else result)"
  let ?twice = "clock loc candidate = wall \<and> result \<noteq> None \<and> result \<noteq> Some candidate"
  show ?case
  proof (cases "cursor > wall + 48 * hour")
    case True
    then show ?thesis using resolved_all [OF ok found] by (subst resolve_loop.simps) simp
  next
    case False
    note loop = resolve_loop.simps [of wall loc cursor zoned result, unfolded Let_def same_clock candidate_def [symmetric] if_not_P [OF False]]
    show ?thesis
    proof (cases ?twice)
      case True
      then obtain t where "result = Some t" "t \<noteq> candidate" by blast
      then have "\<exists>u v. u \<noteq> v \<and> clock loc u = wall \<and> clock loc v = wall"
        using True found by (auto simp: found_before_def)
      then show ?thesis using True loop by (simp add: resolves_def)
    next
      case once: False
      note loop' = loop [unfolded if_not_P [OF once] result'_def [symmetric]]
      have step: "found_before wall loc b result'"
        if "\<And>u. cursor \<le> u \<Longrightarrow> u < b \<Longrightarrow> loc_offset loc u = loc_offset loc cursor" for b
        unfolding result'_def by (rule found_step [OF found that candidate_def once])
      show ?thesis
      proof (cases "loc_end loc cursor")
        case None
        then have "found_before wall loc (wall + 48 * hour + 1) result'" by (intro step lasts_forever [OF ok])
        then show ?thesis using None loop' resolved_all [OF ok] by simp
      next
        case (Some b)
        let ?until = "if cursor < b then b else new_year (cv_Year (civil cursor) + 1)"
        have reach: "found_before wall loc ?until result'" by (intro step lasts_until_end(1) [OF ok Some])
        have later: "cursor < ?until" using new_year_after by simp
        consider "b > wall + 48 * hour" | "b \<le> wall + 48 * hour" "cursor < b" | "b \<le> cursor" "b \<le> wall + 48 * hour" by linarith
        then show ?thesis
        proof cases
          case 1
          then show ?thesis using reach False Some loop' resolved_all [OF ok, of wall b] by simp
        next
          case 2
          then have "\<exists>r. resolve_loop wall loc b True result' = Some r \<and> resolves wall loc r"
            using reach Some False by (intro less.hyps) auto
          then show ?thesis using 2 Some loop' by simp
        next
          case 3
          have year: "cv_Year (civil (if zoned then clock loc cursor else cursor)) = cv_Year (civil cursor)"
          proof (cases zoned)
            case True
            then obtain t where "loc_end loc t = Some cursor" using less.prems(2) by blast
            from lasts_until_end(2) [OF ok this Some 3(1)] show ?thesis using True by simp
          qed simp
          have "\<exists>r. resolve_loop wall loc ?until False result' = Some r \<and> resolves wall loc r"
            using reach later False by (intro less.hyps) auto
          then show ?thesis using 3 Some loop' by (simp add: year)
        qed
      qed
    qed
  qed
qed

text \<open>
  C24: a clock time becomes the instant it stands for. For every zone the loop over its intervals
  ends. It gives an instant exactly when that is the only instant at which the zone's clock shows
  the time, and otherwise says that the clock skips the time, when no instant shows it, or repeats
  it, when two do.
\<close>

theorem resolve_local_time_correct:
  assumes "location_ok loc"
  shows "\<exists>r. resolveLocalTime wall loc = Some r \<and>
    (case r of
       Inr t \<Rightarrow> {u. clock loc u = wall} = {t}
     | Inl e \<Rightarrow>
         e = does_not_exist wall loc \<and> {u. clock loc u = wall} = {} \<or>
         e = occurs_twice wall loc \<and> (\<exists>u v. u \<noteq> v \<and> clock loc u = wall \<and> clock loc v = wall))"
proof -
  have "found_before wall loc (wall - 48 * hour) None"
    using clock_window(1) [OF assms] by (simp add: found_before_def) (meson not_le)
  from resolve_loop_correct [OF assms this, of False] show ?thesis
    unfolding resolveLocalTime_def resolves_def by simp
qed

text \<open>A zone that sets its clocks back by an hour at the epoch.\<close>

definition autumn :: location where
  "autumn = \<lparr>loc_name = ''Autumn'', loc_offset = (\<lambda>t. if t < 0 then 7200 else 3600), loc_end = (\<lambda>t. if t < 0 then Some 0 else None)\<rparr>"

lemma autumn_ok: "location_ok autumn"
  by (simp add: location_ok_def interval_ok_def autumn_def)

lemma autumn_clock: "clock autumn u = wall \<longleftrightarrow> u < 0 \<and> u = wall - 7200 * second \<or> 0 \<le> u \<and> u = wall - 3600 * second"
  by (auto simp: clock_def autumn_def)

theorem resolve_local_time_correct_witness:
  "location_ok autumn \<and>
   resolveLocalTime (5400 * second) autumn = Some (Inl (occurs_twice (5400 * second) autumn)) \<and>
   resolveLocalTime 0 autumn = Some (Inr (- 7200 * second))"
proof (intro conjI autumn_ok)
  have two: "clock autumn (- 1800 * second) = 5400 * second" "clock autumn (1800 * second) = 5400 * second"
    "- 1800 * second \<noteq> 1800 * second" by (simp_all add: autumn_clock second_def)
  from resolve_local_time_correct [OF autumn_ok, of "5400 * second"]
  obtain r where r: "resolveLocalTime (5400 * second) autumn = Some r" and
    spec: "case r of Inr t \<Rightarrow> {u. clock autumn u = 5400 * second} = {t}
      | Inl e \<Rightarrow> e = does_not_exist (5400 * second) autumn \<and> {u. clock autumn u = 5400 * second} = {} \<or>
          e = occurs_twice (5400 * second) autumn \<and>
          (\<exists>u v. u \<noteq> v \<and> clock autumn u = 5400 * second \<and> clock autumn v = 5400 * second)" by blast
  have "r = Inl (occurs_twice (5400 * second) autumn)"
  proof (cases r)
    case (Inl e)
    then show ?thesis using spec two(1) by auto
  next
    case (Inr t)
    then have "- 1800 * second \<in> {t}" "1800 * second \<in> {t}" using spec two(1,2) by auto
    then show ?thesis using two(3) by simp
  qed
  then show "resolveLocalTime (5400 * second) autumn = Some (Inl (occurs_twice (5400 * second) autumn))" using r by simp
  have one: "{u. clock autumn u = 0} = {- 7200 * second}" by (auto simp: autumn_clock second_def)
  have only: "u = - 7200 * second" if "clock autumn u = 0" for u using one that by blast
  from resolve_local_time_correct [OF autumn_ok, of 0]
  obtain r where "resolveLocalTime 0 autumn = Some r" and
    "case r of Inr t \<Rightarrow> {u. clock autumn u = 0} = {t}
      | Inl e \<Rightarrow> e = does_not_exist 0 autumn \<and> {u. clock autumn u = 0} = {} \<or>
          e = occurs_twice 0 autumn \<and> (\<exists>u v. u \<noteq> v \<and> clock autumn u = 0 \<and> clock autumn v = 0)" by blast
  then show "resolveLocalTime 0 autumn = Some (Inr (- 7200 * second))"
    using one by (cases r) (simp_all, metis only)
qed

end
