(* ===== verification/Models.thy ===== *)
theory Models
  imports GoLib
begin

text \<open>
  \<open>internal/model\<close>: the rows of the four tables, one record per struct, with its fields in
  the order of the source (each prefixed by the table, as record fields share one name space).
  A nullable column (\<open>*time.Time\<close>) is a \<open>time option\<close>. Primary keys are positive and are kept
  as \<open>int\<close>, the type the handlers look rows up with.

  The statuses are the strings the code writes; their constants below are abbreviations.
\<close>

record webhook =
  wh_ID :: int
  wh_Source :: string
  wh_Headers :: string
  wh_Payload :: bytes
  wh_Response :: bytes
  wh_ReceivedAt :: time
  wh_Status :: string
  wh_FailureCount :: int
  wh_LastError :: string
  wh_NextRetryAt :: "time option"
  wh_DeliveryLeaseUntil :: "time option"
  wh_DeliveryLeaseVersion :: int
  wh_DeadLetteredAt :: "time option"
  wh_DeadLetterReason :: string

record delivery_attempt =
  da_ID :: int
  da_WebhookID :: int
  da_Source :: string
  da_Target :: string
  da_Status :: string
  da_HTTPStatus :: int
  da_ErrorMessage :: string
  da_DurationMS :: int
  da_StartedAt :: time
  da_CompletedAt :: "time option"
  da_ResponseBody :: bytes
  da_ResponseHeaders :: string
  da_ResponseCaptured :: bool
  da_ResponseTruncated :: bool

record delivery_response =
  dr_HTTPStatus :: int
  dr_Body :: bytes
  dr_Headers :: string
  dr_Captured :: bool
  dr_Truncated :: bool

record forwarding_rule =
  fr_ID :: int
  fr_Source :: string
  fr_Target :: string
  fr_Paused :: bool
  fr_VerifySecret :: string
  fr_VerifyHeader :: string
  fr_ToleranceSeconds :: int
  fr_OutgoingSecret :: string
  fr_RetryMaxAttempts :: int
  fr_RetryBackoffSeconds :: int

record user =
  us_ID :: int
  us_Email :: string
  us_Password :: string
  us_IsAdmin :: bool

abbreviation st_pending :: string where "st_pending \<equiv> ''pending''"
abbreviation st_processing :: string where "st_processing \<equiv> ''processing''"
abbreviation st_retrying :: string where "st_retrying \<equiv> ''retrying''"
abbreviation st_success :: string where "st_success \<equiv> ''success''"
abbreviation st_failed :: string where "st_failed \<equiv> ''failed''"
abbreviation st_skipped :: string where "st_skipped \<equiv> ''skipped''"
abbreviation st_cancelled :: string where "st_cancelled \<equiv> ''cancelled''"
abbreviation st_interrupted :: string where "st_interrupted \<equiv> ''interrupted''"
abbreviation st_dead_lettered :: string where "st_dead_lettered \<equiv> ''dead_lettered''"

text \<open>The zero values of the structs, as Go's \<open>T{}\<close>.\<close>

definition empty_rule :: forwarding_rule where
  "empty_rule = \<lparr>fr_ID = 0, fr_Source = [], fr_Target = [], fr_Paused = False, fr_VerifySecret = [],
     fr_VerifyHeader = [], fr_ToleranceSeconds = 0, fr_OutgoingSecret = [], fr_RetryMaxAttempts = 0,
     fr_RetryBackoffSeconds = 0\<rparr>"

definition empty_response :: delivery_response where
  "empty_response = \<lparr>dr_HTTPStatus = 0, dr_Body = [], dr_Headers = [], dr_Captured = False, dr_Truncated = False\<rparr>"

definition empty_webhook :: webhook where
  "empty_webhook = \<lparr>wh_ID = 0, wh_Source = [], wh_Headers = [], wh_Payload = [], wh_Response = [],
     wh_ReceivedAt = zero_time, wh_Status = [], wh_FailureCount = 0, wh_LastError = [],
     wh_NextRetryAt = None, wh_DeliveryLeaseUntil = None, wh_DeliveryLeaseVersion = 0,
     wh_DeadLetteredAt = None, wh_DeadLetterReason = []\<rparr>"

definition empty_attempt :: delivery_attempt where
  "empty_attempt = \<lparr>da_ID = 0, da_WebhookID = 0, da_Source = [], da_Target = [], da_Status = [],
     da_HTTPStatus = 0, da_ErrorMessage = [], da_DurationMS = 0, da_StartedAt = zero_time,
     da_CompletedAt = None, da_ResponseBody = [], da_ResponseHeaders = [], da_ResponseCaptured = False,
     da_ResponseTruncated = False\<rparr>"

end
