(* ===== verification/Store.thy ===== *)
theory Store
  imports Models
begin

text \<open>
  \<open>internal/storage/db.go\<close> and \<open>db_user.go\<close>: the database the program keeps its state in,
  its transactions and the basic operations on webhooks, rules and users.

  The database is the record \<open>db\<close> of the four tables and the sequences their primary keys
  come from. A table is the list of its rows in physical order, which no operation relies on.
  A Go method on \<open>*DB\<close> becomes a function from a database to a result and a database.
  A \<open>faults\<close> value says how the database behaves during one call: \<open>fails n\<close> that its n-th
  statement returns an error (connection, context or constraint), \<open>commit\<close> what becomes of
  the commit, where \<open>ReplyLost\<close> is a commit that took effect although the caller sees an
  error. The body of \<open>Transaction\<close> returns an error or the new database, so an error leaves
  the old one: the rollback.
\<close>

record db =
  t_webhooks :: "webhook list"
  t_attempts :: "delivery_attempt list"
  t_rules :: "forwarding_rule list"
  t_users :: "user list"
  seq_webhooks :: int
  seq_attempts :: int
  seq_rules :: int
  seq_users :: int

definition empty_db :: db where
  "empty_db = \<lparr>t_webhooks = [], t_attempts = [], t_rules = [], t_users = [],
     seq_webhooks = 0, seq_attempts = 0, seq_rules = 0, seq_users = 0\<rparr>"

datatype commit_outcome = Committed | CommitFailed | ReplyLost

record faults =
  fails :: "nat \<Rightarrow> bool"
  commit :: commit_outcome

definition no_faults :: faults where
  "no_faults = \<lparr>fails = (\<lambda>_. False), commit = Committed\<rparr>"

lemma no_faults_simps [simp]: "fails no_faults = (\<lambda>_. False)" "commit no_faults = Committed"
  by (simp_all add: no_faults_def)

definition transaction ::
    "faults \<Rightarrow> (db \<Rightarrow> go_error + 'a \<times> db) \<Rightarrow> db \<Rightarrow> (go_error + 'a) \<times> db" where
  "transaction f body d =
     (case body d of
        Inl e \<Rightarrow> (Inl e, d)
      | Inr (a, d') \<Rightarrow>
          (case commit f of
             Committed \<Rightarrow> (Inr a, d')
           | CommitFailed \<Rightarrow> (Inl ErrDatabase, d)
           | ReplyLost \<Rightarrow> (Inl ErrDatabase, d')))"

text \<open>One statement: it fails, or has the given effect.\<close>

definition exec :: "bool \<Rightarrow> 'a \<Rightarrow> go_error + 'a" where
  "exec failed x = (if failed then Inl ErrDatabase else Inr x)"

lemma exec_simps [simp]: "exec True x = Inl ErrDatabase" "exec False x = Inr x"
  by (simp_all add: exec_def)

lemma exec_Inr [simp]: "exec b x = Inr y \<longleftrightarrow> \<not> b \<and> y = x"
  by (auto simp: exec_def)

lemma exec_Inl [simp]: "exec b x = Inl e \<longleftrightarrow> b \<and> e = ErrDatabase"
  by (auto simp: exec_def)

text \<open>
  A committed call is its body's result; a call that returns an error without a lost reply
  leaves the database as it was; in every case the database is the old one or the body's.
\<close>

lemma transaction_ok:
  "transaction f body d = (Inr a, d') \<longleftrightarrow> body d = Inr (a, d') \<and> commit f = Committed"
  by (auto simp: transaction_def split: sum.splits prod.splits commit_outcome.splits)

lemma transaction_error:
  "transaction f body d = (Inl e, d') \<Longrightarrow> commit f \<noteq> ReplyLost \<Longrightarrow> d' = d"
  by (auto simp: transaction_def split: sum.splits prod.splits commit_outcome.splits)

lemma transaction_cases:
  assumes "transaction f body d = (r, d')"
  obtains (rolled_back) e where "r = Inl e" "d' = d"
  | (applied) a where "body d = Inr (a, d')"
  using assms
  by (auto simp: transaction_def split: sum.splits prod.splits commit_outcome.splits)

lemma transaction_body_error: "body d = Inl e \<Longrightarrow> transaction f body d = (Inl e, d)"
  by (simp add: transaction_def)

lemma transaction_inv:
  assumes "transaction f body d = (r, d')" and "I d" and "\<And>a e. body d = Inr (a, e) \<Longrightarrow> I e"
  shows "I d'"
  using assms by (cases rule: transaction_cases) auto

section \<open>Tables\<close>

text \<open>\<open>UPDATE ... WHERE\<close>, and the number of rows it affects.\<close>

definition update_rows :: "('r \<Rightarrow> bool) \<Rightarrow> ('r \<Rightarrow> 'r) \<Rightarrow> 'r list \<Rightarrow> 'r list" where
  "update_rows P g rows = map (\<lambda>r. if P r then g r else r) rows"

definition rows_affected :: "('r \<Rightarrow> bool) \<Rightarrow> 'r list \<Rightarrow> nat" where
  "rows_affected P rows = length (filter P rows)"

definition delete_rows :: "('r \<Rightarrow> bool) \<Rightarrow> 'r list \<Rightarrow> 'r list" where
  "delete_rows P rows = filter (\<lambda>r. \<not> P r) rows"

text \<open>
  \<open>INSERT\<close> of a row: key 0 asks for the next value of the sequence, another key is inserted
  as it is and must not exist yet.
\<close>

definition insert_row ::
    "('r \<Rightarrow> int) \<Rightarrow> (int \<Rightarrow> 'r \<Rightarrow> 'r) \<Rightarrow> 'r \<Rightarrow> int \<Rightarrow> 'r list \<Rightarrow> go_error + 'r \<times> int \<times> 'r list" where
  "insert_row rid set_rid r seq rows =
     (let key = (if rid r = 0 then seq + 1 else rid r);
          seq' = (if rid r = 0 then seq + 1 else seq)
      in if \<exists>x \<in> set rows. rid x = key then Inl ErrDatabase
         else Inr (set_rid key r, seq', rows @ [set_rid key r]))"

lemma set_update_rows:
  "x \<in> set (update_rows P g rows) \<longleftrightarrow> (\<exists>r \<in> set rows. x = (if P r then g r else r))"
  by (auto simp: update_rows_def)

lemma in_update_rows: "x \<in> set (update_rows P g rows) \<Longrightarrow> x \<in> set rows \<or> (\<exists>r \<in> set rows. x = g r)"
  by (auto simp: set_update_rows split: if_splits)

lemma set_delete_rows [simp]: "set (delete_rows P rows) = {r \<in> set rows. \<not> P r}"
  by (simp add: delete_rows_def)

lemma rows_affected_pos: "rows_affected P rows \<noteq> 0 \<longleftrightarrow> (\<exists>r \<in> set rows. P r)"
  by (auto simp: rows_affected_def filter_empty_conv)

text \<open>
  What a table with a primary key guarantees, for any row type: its laws are proved once
  and used for each of the four tables.
\<close>

locale keyed_table =
  fixes rid :: "'r \<Rightarrow> int" and set_rid :: "int \<Rightarrow> 'r \<Rightarrow> 'r"
  assumes rid_set_rid: "rid (set_rid k r) = k"
begin

lemma update_keys:
  assumes "\<And>r. rid (g r) = rid r"
  shows "map rid (update_rows P g rows) = map rid rows"
  using assms by (simp add: update_rows_def)

lemma find_update:
  assumes "\<And>r. rid (g r) = rid r"
  shows "find (\<lambda>r. rid r = k) (update_rows P g rows) =
           map_option (\<lambda>r. if P r then g r else r) (find (\<lambda>r. rid r = k) rows)"
  unfolding update_rows_def by (rule find_map) (simp add: assms)

lemma find_update_key:
  assumes "\<And>r. rid (g r) = rid r"
  shows "find (\<lambda>r. rid r = j) (update_rows (\<lambda>r. rid r = k) g rows) =
           (if j = k then map_option g else id) (find (\<lambda>r. rid r = j) rows)"
  by (induction rows) (auto simp: update_rows_def assms)

lemma find_delete_key:
  "find (\<lambda>r. rid r = k) (delete_rows (\<lambda>r. rid r = j) rows) =
     (if k = j then None else find (\<lambda>r. rid r = k) rows)"
  by (induction rows) (auto simp: delete_rows_def)

lemma insert_distinct:
  assumes "insert_row rid set_rid r seq rows = Inr (r', seq', rows')"
    and "distinct (map rid rows)"
  shows "distinct (map rid rows')" and "r' \<in> set rows'" and "find (\<lambda>x. rid x = rid r') rows' = Some r'"
proof -
  have "rows' = rows @ [r']" and "\<forall>x \<in> set rows. rid x \<noteq> rid r'"
    using assms(1) rid_set_rid by (auto simp: insert_row_def Let_def split: if_splits)
  with assms(2) show d: "distinct (map rid rows')" and m: "r' \<in> set rows'" by auto
  show "find (\<lambda>x. rid x = rid r') rows' = Some r'" by (rule find_distinct_key [OF d m])
qed

lemma insert_fresh:
  assumes "rid r = 0" and "\<And>x. x \<in> set rows \<Longrightarrow> rid x \<le> seq"
  shows "insert_row rid set_rid r seq rows =
           Inr (set_rid (seq + 1) r, seq + 1, rows @ [set_rid (seq + 1) r])"
  using assms by (fastforce simp: insert_row_def Let_def)

end

definition set_wh_ID :: "int \<Rightarrow> webhook \<Rightarrow> webhook" where "set_wh_ID k r = r\<lparr>wh_ID := k\<rparr>"
definition set_da_ID :: "int \<Rightarrow> delivery_attempt \<Rightarrow> delivery_attempt" where "set_da_ID k r = r\<lparr>da_ID := k\<rparr>"
definition set_fr_ID :: "int \<Rightarrow> forwarding_rule \<Rightarrow> forwarding_rule" where "set_fr_ID k r = r\<lparr>fr_ID := k\<rparr>"
definition set_us_ID :: "int \<Rightarrow> user \<Rightarrow> user" where "set_us_ID k r = r\<lparr>us_ID := k\<rparr>"

interpretation wh_table: keyed_table wh_ID set_wh_ID
  by unfold_locales (simp add: set_wh_ID_def)
interpretation da_table: keyed_table da_ID set_da_ID
  by unfold_locales (simp add: set_da_ID_def)
interpretation fr_table: keyed_table fr_ID set_fr_ID
  by unfold_locales (simp add: set_fr_ID_def)
interpretation us_table: keyed_table us_ID set_us_ID
  by unfold_locales (simp add: set_us_ID_def)

section \<open>Webhooks\<close>

definition insert_webhook :: "webhook \<Rightarrow> db \<Rightarrow> go_error + webhook \<times> db" where
  "insert_webhook h d =
     (case insert_row wh_ID set_wh_ID h (seq_webhooks d) (t_webhooks d) of
        Inl e \<Rightarrow> Inl e
      | Inr (h', seq, rows) \<Rightarrow> Inr (h', d\<lparr>t_webhooks := rows, seq_webhooks := seq\<rparr>))"

text \<open>\<open>Save\<close> stores the webhook and, as GORM's \<open>Create\<close>, returns it with its key.\<close>

definition Save :: "faults \<Rightarrow> webhook \<Rightarrow> db \<Rightarrow> (go_error + webhook) \<times> db" where
  "Save f h d = transaction f (\<lambda>d. if fails f 0 then Inl ErrDatabase else insert_webhook h d) d"

definition find_webhook :: "int \<Rightarrow> db \<Rightarrow> webhook option" where
  "find_webhook k d = find (\<lambda>w. wh_ID w = k) (t_webhooks d)"

definition FindByID :: "bool \<Rightarrow> int \<Rightarrow> db \<Rightarrow> go_error + webhook" where
  "FindByID failed k d =
     (if failed then Inl ErrDatabase
      else (case find_webhook k d of None \<Rightarrow> Inl ErrNotFound | Some h \<Rightarrow> Inr h))"

text \<open>\<open>SELECT ... FOR UPDATE\<close> on one row.\<close>

definition lockWebhook :: "bool \<Rightarrow> int \<Rightarrow> db \<Rightarrow> go_error + webhook" where
  "lockWebhook failed k d =
     (if failed then Inl ErrDatabase
      else (case find_webhook k d of None \<Rightarrow> Inl ErrNotFound | Some w \<Rightarrow> Inr w))"

definition update_webhooks :: "(webhook \<Rightarrow> bool) \<Rightarrow> (webhook \<Rightarrow> webhook) \<Rightarrow> db \<Rightarrow> db" where
  "update_webhooks P g d = d\<lparr>t_webhooks := update_rows P g (t_webhooks d)\<rparr>"

definition replayUpdates :: "webhook \<Rightarrow> webhook" where
  "replayUpdates w = w\<lparr>
     wh_Status := st_pending,
     wh_Response := [],
     wh_FailureCount := 0,
     wh_LastError := [],
     wh_NextRetryAt := None,
     wh_DeliveryLeaseUntil := None,
     wh_DeadLetteredAt := None,
     wh_DeadLetterReason := []\<rparr>"

definition ResetWebhookDeliveryState :: "faults \<Rightarrow> int \<Rightarrow> db \<Rightarrow> (go_error + unit) \<times> db" where
  "ResetWebhookDeliveryState f k d = transaction f (\<lambda>d.
     case lockWebhook (fails f 0) k d of
       Inl e \<Rightarrow> Inl e
     | Inr w \<Rightarrow>
         if wh_Status w = st_processing then Inl ErrWebhookProcessing
         else exec (fails f 1) ((), update_webhooks (\<lambda>x. wh_ID x = wh_ID w) replayUpdates d)) d"

definition delete_attempts :: "(delivery_attempt \<Rightarrow> bool) \<Rightarrow> db \<Rightarrow> db" where
  "delete_attempts P d = d\<lparr>t_attempts := delete_rows P (t_attempts d)\<rparr>"

definition delete_webhooks :: "(webhook \<Rightarrow> bool) \<Rightarrow> db \<Rightarrow> db" where
  "delete_webhooks P d = d\<lparr>t_webhooks := delete_rows P (t_webhooks d)\<rparr>"

definition DeleteWebhook :: "faults \<Rightarrow> int \<Rightarrow> db \<Rightarrow> (go_error + unit) \<times> db" where
  "DeleteWebhook f k d = transaction f (\<lambda>d.
     case lockWebhook (fails f 0) k d of
       Inl e \<Rightarrow> Inl e
     | Inr w \<Rightarrow>
         if wh_Status w = st_processing then Inl ErrWebhookProcessing
         else if fails f 1 then Inl ErrDatabase
         else exec (fails f 2)
                ((), delete_webhooks (\<lambda>x. wh_ID x = wh_ID w)
                       (delete_attempts (\<lambda>a. da_WebhookID a = k) d))) d"

definition DeleteForwardingRule :: "faults \<Rightarrow> string \<Rightarrow> db \<Rightarrow> (go_error + unit) \<times> db" where
  "DeleteForwardingRule f source d = transaction f (\<lambda>d.
     exec (fails f 0) ((), d\<lparr>t_rules := delete_rows (\<lambda>r. fr_Source r = source) (t_rules d)\<rparr>)) d"

section \<open>Users\<close>

definition FindUserByEmail :: "bool \<Rightarrow> string \<Rightarrow> db \<Rightarrow> go_error + user" where
  "FindUserByEmail failed email d =
     (if failed then Inl ErrDatabase
      else (case find (\<lambda>u. us_Email u = email) (sort_key us_ID (t_users d)) of
              None \<Rightarrow> Inl ErrNotFound | Some u \<Rightarrow> Inr u))"

definition insert_user :: "user \<Rightarrow> db \<Rightarrow> go_error + unit \<times> db" where
  "insert_user u d =
     (case insert_row us_ID set_us_ID u (seq_users d) (t_users d) of
        Inl e \<Rightarrow> Inl e
      | Inr (u', seq, rows) \<Rightarrow> Inr ((), d\<lparr>t_users := rows, seq_users := seq\<rparr>))"

text \<open>
  \<open>bcrypt\<close> is not part of the repository: \<open>hash\<close> stands for \<open>GenerateFromPassword\<close> and
  \<open>matches\<close> for a nil result of \<open>CompareHashAndPassword\<close>.
\<close>

definition adopt_admin ::
    "(string \<Rightarrow> string \<Rightarrow> bool) \<Rightarrow> bool \<Rightarrow> string \<Rightarrow> string \<Rightarrow> string \<Rightarrow> user \<Rightarrow> db \<Rightarrow> go_error + unit \<times> db" where
  "adopt_admin matches failed email password hashed u d =
     (if us_IsAdmin u \<and> matches (us_Password u) password then Inr ((), d)
      else exec failed
        ((), d\<lparr>t_users := update_rows (\<lambda>x. us_ID x = us_ID u)
                 (\<lambda>x. x\<lparr>us_Email := email, us_Password := hashed, us_IsAdmin := True\<rparr>) (t_users d)\<rparr>))"

definition ensure_admin_body ::
    "(string \<Rightarrow> string \<Rightarrow> bool) \<Rightarrow> faults \<Rightarrow> string \<Rightarrow> string \<Rightarrow> string \<Rightarrow> db \<Rightarrow> go_error + unit \<times> db" where
  "ensure_admin_body matches f email password hashed d =
     (case FindUserByEmail (fails f 0) email d of
        Inr u \<Rightarrow> adopt_admin matches (fails f 1) email password hashed u d
      | Inl e \<Rightarrow>
          if e \<noteq> ErrNotFound then Inl e
          else if fails f 1 then Inl ErrDatabase
          else
            (case take 2 (sort_key us_ID (t_users d)) of
               [] \<Rightarrow> if fails f 2 then Inl ErrDatabase
                     else insert_user \<lparr>us_ID = 0, us_Email = email, us_Password = hashed, us_IsAdmin = True\<rparr> d
             | [u] \<Rightarrow> adopt_admin matches (fails f 2) email password hashed u d
             | _ \<Rightarrow> Inl (ErrText ''ADMIN_EMAIL does not match an existing user'')))"

definition EnsureAdmin ::
    "(string \<Rightarrow> go_error + string) \<Rightarrow> (string \<Rightarrow> string \<Rightarrow> bool) \<Rightarrow> faults \<Rightarrow>
     string \<Rightarrow> string \<Rightarrow> db \<Rightarrow> (go_error + unit) \<times> db" where
  "EnsureAdmin hash matches f email password d =
     (case hash password of
        Inl e \<Rightarrow> (Inl e, d)
      | Inr hashed \<Rightarrow> transaction f (ensure_admin_body matches f email password hashed) d)"

end
