(* ===== verification/DbInv.thy ===== *)
theory DbInv
  imports Store
begin

text \<open>
  The integrity the program keeps in its database, beyond what the schema enforces:
  \<open>webhook_ok\<close> relates the fields of one webhook row, \<open>attempt_ok\<close> an attempt to its webhook,
  and \<open>db_inv\<close> holds of the tables together (unique keys below their sequences, at most one
  pending attempt per webhook, one rule per source, one user per email).

  Then the preservation facts for single-table updates that every component's proof uses,
  and for the operations of theory Store. The collection \<open>inv_intros\<close> holds one fact per
  operation.
\<close>

definition webhook_statuses :: "string list" where
  "webhook_statuses = [st_pending, st_processing, st_retrying, st_success, st_skipped, st_dead_lettered]"

definition attempt_statuses :: "string list" where
  "attempt_statuses = [st_pending, st_success, st_failed, st_cancelled, st_skipped, st_interrupted]"

definition webhook_ok :: "webhook \<Rightarrow> bool" where
  "webhook_ok w \<longleftrightarrow>
     wh_Status w \<in> set webhook_statuses \<and>
     (wh_Status w = st_processing \<longleftrightarrow> wh_DeliveryLeaseUntil w \<noteq> None) \<and>
     (wh_Status w = st_retrying \<longleftrightarrow> wh_NextRetryAt w \<noteq> None) \<and>
     (wh_Status w = st_dead_lettered \<longleftrightarrow> wh_DeadLetteredAt w \<noteq> None) \<and>
     (wh_Status w = st_processing \<longrightarrow> 0 < wh_DeliveryLeaseVersion w) \<and>
     (wh_Status w \<in> {st_retrying, st_dead_lettered} \<longrightarrow> 0 < wh_FailureCount w) \<and>
     0 \<le> wh_DeliveryLeaseVersion w \<and> 0 \<le> wh_FailureCount w"

definition attempt_ok :: "delivery_attempt \<Rightarrow> bool" where
  "attempt_ok a \<longleftrightarrow>
     da_Status a \<in> set attempt_statuses \<and> (da_Status a = st_pending \<longleftrightarrow> da_CompletedAt a = None)"

definition attempt_linked :: "webhook list \<Rightarrow> delivery_attempt \<Rightarrow> bool" where
  "attempt_linked ws a \<longleftrightarrow>
     (\<exists>w \<in> set ws. wh_ID w = da_WebhookID a \<and> wh_Source w = da_Source a \<and>
        (da_Status a = st_pending \<longrightarrow> wh_Status w = st_processing))"

definition keys_ok :: "('r \<Rightarrow> int) \<Rightarrow> int \<Rightarrow> 'r list \<Rightarrow> bool" where
  "keys_ok rid seq rows \<longleftrightarrow> distinct (map rid rows) \<and> (\<forall>r \<in> set rows. 0 < rid r \<and> rid r \<le> seq) \<and> 0 \<le> seq"

definition one_pending :: "delivery_attempt list \<Rightarrow> bool" where
  "one_pending as \<longleftrightarrow>
     (\<forall>a \<in> set as. \<forall>b \<in> set as.
        da_Status a = st_pending \<longrightarrow> da_Status b = st_pending \<longrightarrow> da_WebhookID a = da_WebhookID b \<longrightarrow> a = b)"

definition delivery_inv :: "db \<Rightarrow> bool" where
  "delivery_inv d \<longleftrightarrow>
     keys_ok wh_ID (seq_webhooks d) (t_webhooks d) \<and>
     keys_ok da_ID (seq_attempts d) (t_attempts d) \<and>
     (\<forall>w \<in> set (t_webhooks d). webhook_ok w) \<and>
     (\<forall>a \<in> set (t_attempts d). attempt_ok a \<and> attempt_linked (t_webhooks d) a) \<and>
     one_pending (t_attempts d)"

definition rules_inv :: "db \<Rightarrow> bool" where
  "rules_inv d \<longleftrightarrow>
     keys_ok fr_ID (seq_rules d) (t_rules d) \<and> distinct (map fr_Source (t_rules d))"

definition users_inv :: "db \<Rightarrow> bool" where
  "users_inv d \<longleftrightarrow>
     keys_ok us_ID (seq_users d) (t_users d) \<and> distinct (map us_Email (t_users d))"

definition db_inv :: "db \<Rightarrow> bool" where
  "db_inv d \<longleftrightarrow> delivery_inv d \<and> rules_inv d \<and> users_inv d"

lemma db_inv_empty [simp]: "db_inv empty_db"
  by (simp add: db_inv_def delivery_inv_def rules_inv_def users_inv_def keys_ok_def one_pending_def
      empty_db_def)

lemma delivery_invI:
  assumes "keys_ok wh_ID (seq_webhooks d) (t_webhooks d)"
    and "keys_ok da_ID (seq_attempts d) (t_attempts d)"
    and "\<And>w. w \<in> set (t_webhooks d) \<Longrightarrow> webhook_ok w"
    and "\<And>a. a \<in> set (t_attempts d) \<Longrightarrow> attempt_ok a"
    and "\<And>a. a \<in> set (t_attempts d) \<Longrightarrow> attempt_linked (t_webhooks d) a"
    and "one_pending (t_attempts d)"
  shows "delivery_inv d"
  using assms by (simp add: delivery_inv_def)

lemma delivery_invD:
  assumes "delivery_inv d"
  shows "keys_ok wh_ID (seq_webhooks d) (t_webhooks d)"
    and "keys_ok da_ID (seq_attempts d) (t_attempts d)"
    and "w \<in> set (t_webhooks d) \<Longrightarrow> webhook_ok w"
    and "a \<in> set (t_attempts d) \<Longrightarrow> attempt_ok a"
    and "a \<in> set (t_attempts d) \<Longrightarrow> attempt_linked (t_webhooks d) a"
    and "one_pending (t_attempts d)"
  using assms by (simp_all add: delivery_inv_def)

lemma db_invD:
  assumes "db_inv d" shows "delivery_inv d" and "rules_inv d" and "users_inv d"
  using assms by (simp_all add: db_inv_def)

lemma find_webhook_Some:
  assumes "find_webhook k d = Some w" shows "w \<in> set (t_webhooks d)" and "wh_ID w = k"
  using assms by (auto simp: find_webhook_def dest: find_Some_in)

lemma webhook_unique:
  assumes "delivery_inv d" "w \<in> set (t_webhooks d)" "v \<in> set (t_webhooks d)" "wh_ID w = wh_ID v"
  shows "w = v"
  using assms distinct_map_eqD unfolding delivery_inv_def keys_ok_def by metis

lemma find_webhook_in:
  assumes "delivery_inv d" "w \<in> set (t_webhooks d)"
  shows "find_webhook (wh_ID w) d = Some w"
  using assms find_distinct_key unfolding delivery_inv_def keys_ok_def find_webhook_def by metis

lemma keys_ok_update:
  assumes "keys_ok rid seq rows" and "\<And>r. rid (g r) = rid r"
  shows "keys_ok rid seq (update_rows P g rows)"
proof -
  have "map rid (update_rows P g rows) = map rid rows" using assms(2) by (simp add: update_rows_def)
  then show ?thesis using assms by (auto simp: keys_ok_def set_update_rows)
qed

lemma keys_ok_delete: "keys_ok rid seq rows \<Longrightarrow> keys_ok rid seq (delete_rows P rows)"
  by (auto simp: keys_ok_def delete_rows_def intro: distinct_map_filter_cong)

lemma keys_ok_insert:
  assumes "keys_ok rid seq rows" and "rid r = seq + 1"
  shows "keys_ok rid (seq + 1) (rows @ [r])"
  using assms by (fastforce simp: keys_ok_def)

section \<open>Updates of one table\<close>

text \<open>
  An update of webhooks keeps the integrity when it keeps keys and sources, leaves each row
  it touches well formed, and takes no row out of \<open>processing\<close> that has a pending attempt.
\<close>

lemma delivery_inv_update_webhooks:
  assumes inv: "delivery_inv d"
    and key: "\<And>w. wh_ID (g w) = wh_ID w" and src: "\<And>w. wh_Source (g w) = wh_Source w"
    and ok: "\<And>w. w \<in> set (t_webhooks d) \<Longrightarrow> P w \<Longrightarrow> webhook_ok w \<Longrightarrow> webhook_ok (g w)"
    and pend: "\<And>w a. w \<in> set (t_webhooks d) \<Longrightarrow> P w \<Longrightarrow> a \<in> set (t_attempts d) \<Longrightarrow>
        da_WebhookID a = wh_ID w \<Longrightarrow> da_Status a = st_pending \<Longrightarrow> wh_Status (g w) = st_processing"
  shows "delivery_inv (update_webhooks P g d)"
proof (rule delivery_invI)
  show "keys_ok wh_ID (seq_webhooks (update_webhooks P g d)) (t_webhooks (update_webhooks P g d))"
    using delivery_invD(1) [OF inv] key by (simp add: update_webhooks_def keys_ok_update)
next
  fix w assume "w \<in> set (t_webhooks (update_webhooks P g d))"
  then show "webhook_ok w" using delivery_invD(3) [OF inv] ok
    by (auto simp: update_webhooks_def set_update_rows)
next
  fix a assume "a \<in> set (t_attempts (update_webhooks P g d))"
  then have a: "a \<in> set (t_attempts d)" by (simp add: update_webhooks_def)
  with delivery_invD(5) [OF inv] obtain w where w: "w \<in> set (t_webhooks d)"
    "wh_ID w = da_WebhookID a" "wh_Source w = da_Source a"
    "da_Status a = st_pending \<longrightarrow> wh_Status w = st_processing"
    unfolding attempt_linked_def by blast
  let ?w = "if P w then g w else w"
  have "?w \<in> set (t_webhooks (update_webhooks P g d))"
    using w(1) by (auto simp: update_webhooks_def set_update_rows)
  moreover have "wh_ID ?w = da_WebhookID a" "wh_Source ?w = da_Source a" using w key src by auto
  moreover have "da_Status a = st_pending \<longrightarrow> wh_Status ?w = st_processing"
    using w pend [OF w(1) _ a] by auto
  ultimately show "attempt_linked (t_webhooks (update_webhooks P g d)) a"
    unfolding attempt_linked_def by blast
qed (use delivery_invD [OF inv] in \<open>simp_all add: update_webhooks_def\<close>)

text \<open>Rows that are not \<open>processing\<close> have no pending attempt.\<close>

lemma pending_processing:
  assumes "delivery_inv d" "w \<in> set (t_webhooks d)" "a \<in> set (t_attempts d)"
    "da_WebhookID a = wh_ID w" "da_Status a = st_pending"
  shows "wh_Status w = st_processing"
  using delivery_invD(5) [OF assms(1,3)] assms webhook_unique unfolding attempt_linked_def by metis

lemma delivery_inv_delete_webhooks:
  assumes inv: "delivery_inv d"
  shows "delivery_inv (delete_webhooks (\<lambda>w. wh_ID w \<in> K)
           (delete_attempts (\<lambda>a. da_WebhookID a \<in> K) d))"
proof (rule delivery_invI)
  let ?d = "delete_webhooks (\<lambda>w. wh_ID w \<in> K) (delete_attempts (\<lambda>a. da_WebhookID a \<in> K) d)"
  fix a assume "a \<in> set (t_attempts ?d)"
  then have a: "a \<in> set (t_attempts d)" "da_WebhookID a \<notin> K"
    by (auto simp: delete_webhooks_def delete_attempts_def)
  then show "attempt_linked (t_webhooks ?d) a" using delivery_invD(5) [OF inv a(1)]
    unfolding attempt_linked_def delete_webhooks_def delete_attempts_def by auto
  show "attempt_ok a" by (rule delivery_invD(4) [OF inv a(1)])
qed (use delivery_invD [OF inv] in
    \<open>auto simp: delete_webhooks_def delete_attempts_def keys_ok_delete one_pending_def\<close>)

lemma delivery_inv_insert_webhook:
  assumes inv: "delivery_inv d" and ok: "webhook_ok h" and new: "wh_ID h = 0"
    and ins: "insert_webhook h d = Inr (h', d')"
  shows "delivery_inv d'" and "h' = h\<lparr>wh_ID := seq_webhooks d + 1\<rparr>"
    and "d' = d\<lparr>t_webhooks := t_webhooks d @ [h'], seq_webhooks := seq_webhooks d + 1\<rparr>"
proof -
  have "insert_row wh_ID set_wh_ID h (seq_webhooks d) (t_webhooks d) =
          Inr (set_wh_ID (seq_webhooks d + 1) h, seq_webhooks d + 1,
               t_webhooks d @ [set_wh_ID (seq_webhooks d + 1) h])"
    using delivery_invD(1) [OF inv] new by (intro wh_table.insert_fresh) (auto simp: keys_ok_def)
  then show h': "h' = h\<lparr>wh_ID := seq_webhooks d + 1\<rparr>"
    and d': "d' = d\<lparr>t_webhooks := t_webhooks d @ [h'], seq_webhooks := seq_webhooks d + 1\<rparr>"
    using ins by (auto simp: insert_webhook_def set_wh_ID_def)
  have id': "wh_ID h' = seq_webhooks d + 1" and ok': "webhook_ok h'"
    using h' ok by (simp_all add: webhook_ok_def)
  show "delivery_inv d'"
  proof (rule delivery_invI)
    show "keys_ok wh_ID (seq_webhooks d') (t_webhooks d')"
      using keys_ok_insert [OF delivery_invD(1) [OF inv] id'] d' by simp
    show "webhook_ok w" if "w \<in> set (t_webhooks d')" for w
      using that d' ok' delivery_invD(3) [OF inv, of w] by auto
    show "attempt_linked (t_webhooks d') a" if "a \<in> set (t_attempts d')" for a
      using that d' delivery_invD(5) [OF inv, of a] unfolding attempt_linked_def by auto
  qed (use d' delivery_invD [OF inv] in simp_all)
qed

lemma insert_webhook_succeeds:
  assumes "delivery_inv d" and "wh_ID h = 0"
  shows "\<exists>h' d'. insert_webhook h d = Inr (h', d')"
  using wh_table.insert_fresh [of h "t_webhooks d" "seq_webhooks d"] delivery_invD(1) [OF assms(1)] assms(2)
  by (auto simp: insert_webhook_def keys_ok_def)

section \<open>The operations of theory Store\<close>

text \<open>The webhook tables and the tables of rules and users do not depend on each other.\<close>

lemma db_inv_delivery_part:
  assumes "db_inv d" and "delivery_inv d'"
    and "t_rules d' = t_rules d" "seq_rules d' = seq_rules d"
    and "t_users d' = t_users d" "seq_users d' = seq_users d"
  shows "db_inv d'"
  using assms by (simp add: db_inv_def rules_inv_def users_inv_def)

lemma db_inv_users_part:
  assumes "db_inv d" and "users_inv d'" and "d' = d\<lparr>t_users := us, seq_users := n\<rparr>"
  shows "db_inv d'"
  using assms by (simp add: db_inv_def delivery_inv_def rules_inv_def)

lemma update_webhooks_frame [simp]:
  "t_attempts (update_webhooks P g d) = t_attempts d"
  "t_rules (update_webhooks P g d) = t_rules d" "seq_rules (update_webhooks P g d) = seq_rules d"
  "t_users (update_webhooks P g d) = t_users d" "seq_users (update_webhooks P g d) = seq_users d"
  "seq_webhooks (update_webhooks P g d) = seq_webhooks d"
  "seq_attempts (update_webhooks P g d) = seq_attempts d"
  "t_webhooks (update_webhooks P g d) = update_rows P g (t_webhooks d)"
  by (simp_all add: update_webhooks_def)

lemma db_inv_Save [inv_intros]:
  assumes "db_inv d" and "webhook_ok h" and "wh_ID h = 0" and "Save f h d = (r, d')"
  shows "db_inv d'"
  using assms(4) unfolding Save_def
proof (rule transaction_inv)
  fix a e assume "(if fails f 0 then Inl ErrDatabase else insert_webhook h d) = Inr (a, e)"
  then have ins: "insert_webhook h d = Inr (a, e)" by (simp split: if_splits)
  note i = delivery_inv_insert_webhook [OF db_invD(1) [OF assms(1)] assms(2,3) ins]
  show "db_inv e" by (rule db_inv_delivery_part [OF assms(1) i(1)]) (simp_all add: i(3))
qed (rule assms(1))

lemma webhook_ok_replay: "webhook_ok w \<Longrightarrow> webhook_ok (replayUpdates w)"
  by (simp add: webhook_ok_def replayUpdates_def webhook_statuses_def)

lemma replayUpdates_keep [simp]:
  "wh_ID (replayUpdates w) = wh_ID w" "wh_Source (replayUpdates w) = wh_Source w"
  by (simp_all add: replayUpdates_def)

text \<open>A replay of any set of webhooks none of which is \<open>processing\<close>.\<close>

lemma db_inv_replay:
  assumes inv: "db_inv d"
    and "\<And>w. w \<in> set (t_webhooks d) \<Longrightarrow> P w \<Longrightarrow> wh_Status w \<noteq> st_processing"
  shows "db_inv (update_webhooks P replayUpdates d)"
proof (rule db_inv_delivery_part [OF inv])
  show "delivery_inv (update_webhooks P replayUpdates d)"
    using db_invD(1) [OF inv] assms(2)
    by (intro delivery_inv_update_webhooks) (auto intro: webhook_ok_replay dest: pending_processing)
qed simp_all

lemma lockWebhook_Inr:
  assumes "lockWebhook failed k d = Inr w"
  shows "w \<in> set (t_webhooks d)" and "wh_ID w = k" and "find_webhook k d = Some w" and "\<not> failed"
  using assms by (auto simp: lockWebhook_def dest: find_webhook_Some split: if_splits option.splits)

lemma db_inv_Reset [inv_intros]:
  assumes "db_inv d" and "ResetWebhookDeliveryState f k d = (r, d')"
  shows "db_inv d'"
  using assms(2) unfolding ResetWebhookDeliveryState_def
proof (rule transaction_inv)
  fix a e
  assume body: "(case lockWebhook (fails f 0) k d of Inl e \<Rightarrow> Inl e
     | Inr w \<Rightarrow> if wh_Status w = st_processing then Inl ErrWebhookProcessing
         else exec (fails f 1) ((), update_webhooks (\<lambda>x. wh_ID x = wh_ID w) replayUpdates d)) = Inr (a, e)"
  then obtain w where w: "lockWebhook (fails f 0) k d = Inr w" "wh_Status w \<noteq> st_processing"
    and e: "e = update_webhooks (\<lambda>x. wh_ID x = wh_ID w) replayUpdates d"
    by (auto split: sum.splits if_splits)
  show "db_inv e" unfolding e
    using w webhook_unique [OF db_invD(1) [OF assms(1)]] lockWebhook_Inr(1) [OF w(1)]
    by (intro db_inv_replay [OF assms(1)]) metis
qed (rule assms(1))

lemma delete_frame [simp]:
  "t_webhooks (delete_attempts Q d) = t_webhooks d" "t_attempts (delete_webhooks P d) = t_attempts d"
  "t_rules (delete_webhooks P d) = t_rules d" "seq_rules (delete_webhooks P d) = seq_rules d"
  "t_users (delete_webhooks P d) = t_users d" "seq_users (delete_webhooks P d) = seq_users d"
  "t_rules (delete_attempts Q d) = t_rules d" "seq_rules (delete_attempts Q d) = seq_rules d"
  "t_users (delete_attempts Q d) = t_users d" "seq_users (delete_attempts Q d) = seq_users d"
  "t_webhooks (delete_webhooks P d) = delete_rows P (t_webhooks d)"
  "t_attempts (delete_attempts Q d) = delete_rows Q (t_attempts d)"
  by (simp_all add: delete_webhooks_def delete_attempts_def)

lemma db_inv_delete_set:
  assumes "db_inv d"
  shows "db_inv (delete_webhooks (\<lambda>w. wh_ID w \<in> K) (delete_attempts (\<lambda>a. da_WebhookID a \<in> K) d))"
  by (rule db_inv_delivery_part [OF assms delivery_inv_delete_webhooks [OF db_invD(1) [OF assms]]]) simp_all

lemma db_inv_DeleteWebhook [inv_intros]:
  assumes "db_inv d" and "DeleteWebhook f k d = (r, d')"
  shows "db_inv d'"
  using assms(2) unfolding DeleteWebhook_def
proof (rule transaction_inv)
  fix a e
  assume "(case lockWebhook (fails f 0) k d of Inl e \<Rightarrow> Inl e
     | Inr w \<Rightarrow> if wh_Status w = st_processing then Inl ErrWebhookProcessing
         else if fails f 1 then Inl ErrDatabase
         else exec (fails f 2) ((), delete_webhooks (\<lambda>x. wh_ID x = wh_ID w)
            (delete_attempts (\<lambda>a. da_WebhookID a = k) d))) = Inr (a, e)"
  then have "e = delete_webhooks (\<lambda>x. wh_ID x \<in> {k}) (delete_attempts (\<lambda>a. da_WebhookID a \<in> {k}) d)"
    by (auto dest: lockWebhook_Inr split: sum.splits if_splits)
  then show "db_inv e" by (simp only: db_inv_delete_set [OF assms(1)])
qed (rule assms(1))

lemma db_inv_DeleteForwardingRule [inv_intros]:
  assumes "db_inv d" and "DeleteForwardingRule f source d = (r, d')"
  shows "db_inv d'"
  using assms(2) unfolding DeleteForwardingRule_def
proof (rule transaction_inv)
  fix a e
  assume "exec (fails f 0) ((), d\<lparr>t_rules := delete_rows (\<lambda>r. fr_Source r = source) (t_rules d)\<rparr>) = Inr (a, e)"
  then have e: "e = d\<lparr>t_rules := delete_rows (\<lambda>r. fr_Source r = source) (t_rules d)\<rparr>" by simp
  show "db_inv e" using assms(1) unfolding e
    by (auto simp: db_inv_def delivery_inv_def rules_inv_def users_inv_def keys_ok_delete
        delete_rows_def distinct_map_filter_cong intro: keys_ok_delete [unfolded delete_rows_def])
qed (rule assms(1))

end
