(* ===== verification/Searches.thy ===== *)
theory Searches
  imports DbInv Json "HOL-Library.Sublist" "HOL-Library.Multiset"
begin

text \<open>
  \<open>internal/storage/db_filtered.go\<close>: the searches behind the lists of webhooks. A query becomes a
  condition on rows (\<open>applyWebhookFilter\<close>), an order (\<open>applyWebhookSort\<close>) and a window
  (\<open>page_rows\<close>). \<open>LIKE\<close> is PostgreSQL's, with the backslash as its escape character; \<open>ILIKE\<close>
  compares after lower-casing both sides, and \<open>lower\<close>, which depends on the database's locale, is
  an argument of the definitions.

  The lemmas show that an escaped pattern finds exactly the texts containing the query, and that
  the pages of a search list each matching webhook once, in the order asked for.
\<close>

record webhook_filter =
  wf_Source :: string
  wf_Status :: string
  wf_Query :: string
  wf_From :: "time option"
  wf_To :: "time option"
  wf_Sort :: string

section \<open>Patterns\<close>

text \<open>
  A pattern that ends in its escape character is an error of the database; none of the code's
  patterns does. The wildcard \<open>_\<close> stands for one rune.
\<close>

fun like :: "string \<Rightarrow> string \<Rightarrow> bool" where
  "like [] s \<longleftrightarrow> s = []"
| "like (c # p) s \<longleftrightarrow>
     (if c = CHR ''%'' then list_ex (\<lambda>t. like p t) (suffixes s)
      else if c = CHR ''_'' then s \<noteq> [] \<and> like p (drop (max 1 (rune_len s)) s)
      else if c = backslash then (case p of [] \<Rightarrow> False | d # p' \<Rightarrow> s \<noteq> [] \<and> hd s = d \<and> like p' (tl s))
      else s \<noteq> [] \<and> hd s = c \<and> like p (tl s))"

definition ilike :: "(string \<Rightarrow> string) \<Rightarrow> string \<Rightarrow> string \<Rightarrow> bool" where
  "ilike lower pattern s \<longleftrightarrow> like (lower pattern) (lower s)"

definition escapeLikePattern :: "string \<Rightarrow> string" where
  "escapeLikePattern value =
     concat (map (\<lambda>c. if c = backslash \<or> c = CHR ''%'' \<or> c = CHR ''_'' then [backslash, c] else [c]) value)"

definition like_pattern :: "string \<Rightarrow> string" where
  "like_pattern q = ''%'' @ escapeLikePattern q @ ''%''"

text \<open>
  \<open>webhookhub_payload_text\<close>, the function the program installs: the payload as text, or \<open>NULL\<close> when
  it is no text of the database's encoding, UTF-8, which also has no zero byte.
\<close>

definition payload_text :: "bytes \<Rightarrow> string option" where
  "payload_text payload = (if utf8_valid payload \<and> CHR 0x00 \<notin> set payload then Some payload else None)"

section \<open>Searches\<close>

definition query_matches :: "(string \<Rightarrow> string) \<Rightarrow> string \<Rightarrow> webhook \<Rightarrow> bool" where
  "query_matches lower q w \<longleftrightarrow>
     (let hit = ilike lower (like_pattern (TrimSpace q))
      in hit (wh_Source w) \<or>
         (case payload_text (wh_Payload w) of None \<Rightarrow> False | Some t \<Rightarrow> hit t) \<or>
         hit (wh_Headers w) \<or> hit (wh_LastError w) \<or> hit (wh_DeadLetterReason w))"

definition applyWebhookFilter :: "(string \<Rightarrow> string) \<Rightarrow> webhook_filter \<Rightarrow> webhook \<Rightarrow> bool" where
  "applyWebhookFilter lower f w \<longleftrightarrow>
     (wf_Source f \<noteq> [] \<longrightarrow> wh_Source w = TrimSpace (wf_Source f)) \<and>
     (wf_Status f \<noteq> [] \<longrightarrow> wh_Status w = TrimSpace (wf_Status f)) \<and>
     (wf_Query f \<noteq> [] \<longrightarrow> query_matches lower (wf_Query f) w) \<and>
     (case wf_From f of None \<Rightarrow> True | Some t \<Rightarrow> t \<le> wh_ReceivedAt w) \<and>
     (case wf_To f of None \<Rightarrow> True | Some t \<Rightarrow> wh_ReceivedAt w < t)"

text \<open>\<open>received_at\<close> and then \<open>id\<close>: the second order is stable for the first.\<close>

definition applyWebhookSort :: "string \<Rightarrow> webhook list \<Rightarrow> webhook list" where
  "applyWebhookSort srt rows =
     (let s = TrimSpace srt; by_id = sort_key wh_ID rows; by_time = sort_key wh_ReceivedAt by_id
      in if s = ''id_asc'' then by_id
         else if s = ''received_asc'' then by_time
         else if s = ''received_desc'' then rev by_time
         else rev by_id)"

text \<open>GORM's \<open>Limit\<close> and \<open>Offset\<close>: a negative limit and an offset that is not positive do nothing.\<close>

definition page_rows :: "int \<Rightarrow> int \<Rightarrow> 'r list \<Rightarrow> 'r list" where
  "page_rows limit offset rows =
     (let rest = drop (nat offset) rows in if limit < 0 then rest else take (nat limit) rest)"

definition matching :: "(string \<Rightarrow> string) \<Rightarrow> webhook_filter \<Rightarrow> db \<Rightarrow> webhook list" where
  "matching lower f d = filter (applyWebhookFilter lower f) (t_webhooks d)"

definition Filtered ::
    "(string \<Rightarrow> string) \<Rightarrow> bool \<Rightarrow> webhook_filter \<Rightarrow> int \<Rightarrow> int \<Rightarrow> db \<Rightarrow> go_error + webhook list" where
  "Filtered lower failed f limit offset d =
     exec failed (page_rows limit offset (applyWebhookSort (wf_Sort f) (matching lower f d)))"

definition omit_columns :: "webhook \<Rightarrow> webhook" where
  "omit_columns w = w\<lparr>wh_Payload := [], wh_Headers := [], wh_Response := []\<rparr>"

definition FilteredSummary ::
    "(string \<Rightarrow> string) \<Rightarrow> bool \<Rightarrow> webhook_filter \<Rightarrow> int \<Rightarrow> int \<Rightarrow> db \<Rightarrow> go_error + webhook list" where
  "FilteredSummary lower failed f limit offset d =
     exec failed (map omit_columns
       (page_rows limit offset (applyWebhookSort (wf_Sort f) (matching lower f d))))"

definition CountFiltered :: "(string \<Rightarrow> string) \<Rightarrow> bool \<Rightarrow> webhook_filter \<Rightarrow> db \<Rightarrow> go_error + int" where
  "CountFiltered lower failed f d = exec failed (int (length (matching lower f d)))"

section \<open>Escaped patterns\<close>

lemma escape_simps:
  "escapeLikePattern [] = []"
  "escapeLikePattern (c # q) =
     (if c = backslash \<or> c = CHR ''%'' \<or> c = CHR ''_'' then [backslash, c] else [c]) @ escapeLikePattern q"
  by (simp_all add: escapeLikePattern_def)

lemma like_escaped_prefix:
  "like (escapeLikePattern q @ ''%'') s \<longleftrightarrow> prefix q s"
proof (induction q arbitrary: s)
  case Nil
  have "[] \<in> set (suffixes s)" by simp
  then show ?case by (auto simp: escape_simps list_ex_iff)
next
  case (Cons c q)
  have "CHR ''%'' \<noteq> backslash" "CHR ''_'' \<noteq> backslash" by (simp_all add: backslash_def)
  with Cons.IH show ?case by (cases s) (auto simp: escape_simps)
qed

lemma like_pattern_sublist: "like (like_pattern q) s \<longleftrightarrow> sublist q s"
proof -
  have "CHR ''%'' \<noteq> backslash" by (simp add: backslash_def)
  then have "like (like_pattern q) s \<longleftrightarrow> (\<exists>t. suffix t s \<and> prefix q t)"
    by (auto simp: like_pattern_def list_ex_iff like_escaped_prefix)
  then show ?thesis by (fastforce simp: suffix_def prefix_def sublist_def)
qed

lemma query_matches_iff:
  assumes "lower (like_pattern (TrimSpace q)) = like_pattern (lower (TrimSpace q))"
  shows "query_matches lower q w \<longleftrightarrow>
    (\<exists>t. (t \<in> {wh_Source w, wh_Headers w, wh_LastError w, wh_DeadLetterReason w} \<or> payload_text (wh_Payload w) = Some t) \<and>
       sublist (lower (TrimSpace q)) (lower t))"
  using assms by (auto simp: query_matches_def ilike_def like_pattern_sublist Let_def split: option.splits)

section \<open>Pages\<close>

lemma applyWebhookSort_mset [simp]: "mset (applyWebhookSort s rows) = mset rows"
  by (simp add: applyWebhookSort_def Let_def)

lemma applyWebhookSort_set [simp]: "set (applyWebhookSort s rows) = set rows"
  by (metis applyWebhookSort_mset set_mset_mset)

lemma applyWebhookSort_length [simp]: "length (applyWebhookSort s rows) = length rows"
  by (metis applyWebhookSort_mset size_mset)

lemma page_rows_nth: "0 \<le> k \<Longrightarrow> page_rows k (int i * k) rows = take (nat k) (drop (i * nat k) rows)"
  by (simp add: page_rows_def nat_mult_distrib)

lemma pages_take:
  assumes "0 \<le> k"
  shows "concat (map (\<lambda>i. page_rows k (int i * k) rows) [0..<n]) = take (n * nat k) rows"
proof (induction n)
  case (Suc n)
  then show ?case
    using assms by (simp add: page_rows_nth take_add [symmetric] add.commute)
qed simp

text \<open>
  The order a search asks for. Sorting by a second key first and then, stably, by the first
  gives the lexicographic order.
\<close>

definition list_order :: "string \<Rightarrow> webhook \<Rightarrow> webhook \<Rightarrow> bool" where
  "list_order srt v w \<longleftrightarrow>
     (let s = TrimSpace srt;
          earlier = (\<lambda>v w. wh_ReceivedAt v < wh_ReceivedAt w \<or> wh_ReceivedAt v = wh_ReceivedAt w \<and> wh_ID v < wh_ID w)
      in if s = ''id_asc'' then wh_ID v < wh_ID w
         else if s = ''received_asc'' then earlier v w
         else if s = ''received_desc'' then earlier w v
         else wh_ID w < wh_ID v)"

lemma insort_key_lex:
  assumes "sorted_wrt (\<lambda>x y. f x < f y \<or> f x = f y \<and> Q x y) ys" and "\<And>y. y \<in> set ys \<Longrightarrow> Q x y"
  shows "sorted_wrt (\<lambda>x y. (f x :: int) < f y \<or> f x = f y \<and> Q x y) (insort_key f x ys)"
  using assms by (induction ys) (fastforce simp: set_insort_key)+

lemma sort_key_lex:
  "sorted_wrt Q xs \<Longrightarrow> sorted_wrt (\<lambda>x y. (f x :: int) < f y \<or> f x = f y \<and> Q x y) (sort_key f xs)"
  by (induction xs) (auto intro!: insort_key_lex)

lemma sort_key_strict:
  assumes "distinct (map f xs)" shows "sorted_wrt (\<lambda>x y. (f x :: int) < f y) (sort_key f xs)"
proof -
  have "distinct (map f (sort_key f xs))"
    using assms by (metis mset_map mset_sort mset_eq_imp_distinct_iff)
  moreover have "sorted (map f (sort_key f xs))" by simp
  ultimately have "sorted_wrt (<) (map f (sort_key f xs))" by (simp add: strict_sorted_iff)
  then show ?thesis by (simp add: sorted_wrt_map)
qed

lemma applyWebhookSort_sorted:
  assumes "distinct (map wh_ID rows)"
  shows "sorted_wrt (list_order srt) (applyWebhookSort srt rows)"
proof -
  note by_id = sort_key_strict [OF assms]
  note by_time = sort_key_lex [OF by_id, of wh_ReceivedAt]
  show ?thesis
    using by_id by_time unfolding applyWebhookSort_def list_order_def Let_def
    by (simp add: sorted_wrt_rev)
qed

lemma matching_distinct: "db_inv d \<Longrightarrow> distinct (map wh_ID (matching lower f d))"
  unfolding matching_def by (rule distinct_map_filter) (use delivery_invD(1) [OF db_invD(1)] in \<open>auto simp: keys_ok_def\<close>)

section \<open>Properties\<close>

text \<open>
  C23: what a search shows. The pages of a search, taken one after the other until they cover the
  count, list exactly the webhooks that meet its conditions, each once, in the strict order it
  asks for; no page is longer than the limit, and the count is the number of webhooks listed.
\<close>

theorem pages_partition:
  assumes "db_inv d" and "0 < k" and "CountFiltered lower False f d = Inr found" and "found \<le> int n * k"
  shows "\<exists>pages. (\<forall>i < n. Filtered lower False f k (int i * k) d = Inr (pages i) \<and> length (pages i) \<le> nat k) \<and>
    (let listed = concat (map pages [0..<n])
     in set listed = {w \<in> set (t_webhooks d). applyWebhookFilter lower f w} \<and>
        sorted_wrt (list_order (wf_Sort f)) listed \<and> distinct (map wh_ID listed) \<and> found = int (length listed))"
proof -
  let ?rows = "applyWebhookSort (wf_Sort f) (matching lower f d)"
  let ?pages = "\<lambda>i. page_rows k (int i * k) ?rows"
  have found: "found = int (length ?rows)" using assms(3) by (simp add: CountFiltered_def)
  have "int (length ?rows) \<le> int (n * nat k)" using assms(2,4) found by simp
  then have "length ?rows \<le> n * nat k" by (simp only: of_nat_le_iff)
  then have listed: "concat (map ?pages [0..<n]) = ?rows" using assms(2) by (simp add: pages_take)
  have len: "length (?pages i) \<le> nat k" for i using assms(2) by (simp add: page_rows_nth)
  have d: "distinct (map wh_ID ?rows)"
    using matching_distinct [OF assms(1)] by (metis applyWebhookSort_mset mset_eq_imp_distinct_iff mset_map)
  have s: "set ?rows = {w \<in> set (t_webhooks d). applyWebhookFilter lower f w}" by (simp add: matching_def)
  have f: "Filtered lower False f k (int i * k) d = Inr (?pages i)" for i by (simp add: Filtered_def)
  show ?thesis
  proof (rule exI [of _ ?pages], unfold listed Let_def, intro conjI)
    show "\<forall>i < n. Filtered lower False f k (int i * k) d = Inr (?pages i) \<and> length (?pages i) \<le> nat k"
      using f len by blast
  qed (rule s d found applyWebhookSort_sorted [OF matching_distinct [OF assms(1)]])+
qed

text \<open>
  A search text is taken literally. Whatever wildcards or backslashes it contains, a webhook
  is found exactly when its source, its payload, if that is text, its headers, its last error or
  its dead-letter reason contains the trimmed text, up to case. The hypothesis is that
  lower-casing leaves the pattern's wildcards and escapes alone.
\<close>

theorem search_is_literal:
  assumes "lower (like_pattern (TrimSpace q)) = like_pattern (lower (TrimSpace q))" and "q \<noteq> []"
  shows "applyWebhookFilter lower \<lparr>wf_Source = [], wf_Status = [], wf_Query = q, wf_From = None, wf_To = None, wf_Sort = s\<rparr> w \<longleftrightarrow>
    (\<exists>t. (t \<in> {wh_Source w, wh_Headers w, wh_LastError w, wh_DeadLetterReason w} \<or> payload_text (wh_Payload w) = Some t) \<and>
       sublist (lower (TrimSpace q)) (lower t))"
  unfolding applyWebhookFilter_def using assms query_matches_iff by simp

definition demo_found :: db where
  "demo_found = empty_db\<lparr>t_webhooks := map (\<lambda>(k, t, s). empty_webhook\<lparr>wh_ID := k, wh_ReceivedAt := t, wh_Source := s, wh_Status := st_pending\<rparr>)
     [(1, 7, ''sale-50%_OFF''), (2, 6, ''b''), (3, 7, ''sale-50''), (4, 5, ''c'')], seq_webhooks := 4\<rparr>"

definition demo_filter :: webhook_filter where
  "demo_filter = \<lparr>wf_Source = [], wf_Status = st_pending, wf_Query = [], wf_From = Some 6, wf_To = None, wf_Sort = ''received_asc''\<rparr>"

lemma demo_found_inv: "db_inv demo_found"
  by (simp add: demo_found_def empty_db_def empty_webhook_def db_inv_def delivery_inv_def rules_inv_def
      users_inv_def keys_ok_def webhook_ok_def webhook_statuses_def one_pending_def)

lemma TrimSpace_pending: "TrimSpace st_pending = st_pending" by code_simp

lemma demo_found_count: "CountFiltered lower False demo_filter demo_found = Inr 3"
  by (simp add: CountFiltered_def matching_def applyWebhookFilter_def demo_filter_def demo_found_def
      empty_webhook_def TrimSpace_pending)

theorem pages_partition_witness:
  "\<exists>p0 p1. Filtered (map to_lower) False demo_filter 2 0 demo_found = Inr p0 \<and>
     Filtered (map to_lower) False demo_filter 2 2 demo_found = Inr p1 \<and> length (p0 @ p1) = 3"
proof -
  from pages_partition [OF demo_found_inv _ demo_found_count, of 2 2 "map to_lower"] obtain pages where
    p: "\<forall>i < 2. Filtered (map to_lower) False demo_filter 2 (int i * 2) demo_found = Inr (pages i) \<and> length (pages i) \<le> nat 2"
      "3 = int (length (concat (map pages [0..<2])))"
    by (auto simp: Let_def)
  have two: "[0..<2] = [0, 1]" by (simp add: numeral_2_eq_2)
  have "Filtered (map to_lower) False demo_filter 2 0 demo_found = Inr (pages 0)"
    "Filtered (map to_lower) False demo_filter 2 2 demo_found = Inr (pages 1)"
    using p(1) [rule_format, of 0] p(1) [rule_format, of 1] by simp_all
  moreover have "length (pages 0 @ pages 1) = 3" using p(2) two by simp
  ultimately show ?thesis by blast
qed

theorem search_is_literal_witness:
  "applyWebhookFilter (map to_lower)
     \<lparr>wf_Source = [], wf_Status = [], wf_Query = ''50%_off'', wf_From = None, wf_To = None, wf_Sort = []\<rparr>
     (empty_webhook\<lparr>wh_Source := ''sale-50%_OFF''\<rparr>)"
proof -
  have fold: "map to_lower (like_pattern (TrimSpace ''50%_off'')) = like_pattern (map to_lower (TrimSpace ''50%_off''))" by code_simp
  have "sublist (map to_lower (TrimSpace ''50%_off'')) (map to_lower ''sale-50%_OFF'')"
  proof -
    have "map to_lower ''sale-50%_OFF'' = ''sale-'' @ map to_lower (TrimSpace ''50%_off'') @ []" by code_simp
    then show ?thesis unfolding sublist_def by blast
  qed
  then have "\<exists>t. t = ''sale-50%_OFF'' \<and> sublist (map to_lower (TrimSpace ''50%_off'')) (map to_lower t)" by blast
  with search_is_literal [of "map to_lower" "''50%_off''" "[]" "empty_webhook\<lparr>wh_Source := ''sale-50%_OFF''\<rparr>"] fold
  show ?thesis by force
qed

end
