(* ===== verification/Delivery.thy ===== *)
theory Delivery
  imports DbInv
begin

text \<open>
  \<open>internal/storage/db_retry.go\<close> and \<open>db_delivery.go\<close>: claiming due webhooks under a
  lease, opening a delivery attempt and recording its result. Every call that reads
  \<open>time.Now()\<close> takes a clock \<open>clk\<close>, the instants of its successive readings.
  \<open>locked\<close> tells which webhook rows other transactions hold, which \<open>SKIP LOCKED\<close> passes over.

  The lemmas describe a claim, fence off a worker whose lease was taken over, and show that
  each operation keeps the database's integrity.
\<close>

section \<open>Claiming\<close>

definition deliverable :: "time \<Rightarrow> webhook \<Rightarrow> bool" where
  "deliverable now w \<longleftrightarrow>
     wh_Status w = st_pending \<or>
     (wh_Status w = st_retrying \<and> opt_le (wh_NextRetryAt w) now) \<or>
     (wh_Status w = st_processing \<and> opt_le (wh_DeliveryLeaseUntil w) now)"

definition source_paused :: "db \<Rightarrow> string \<Rightarrow> bool" where
  "source_paused d source = list_ex (\<lambda>r. fr_Source r = source \<and> fr_Paused r) (t_rules d)"

text \<open>\<open>COALESCE(next_retry_at, received_at)\<close>.\<close>

definition claim_order :: "webhook \<Rightarrow> time" where
  "claim_order w = (case wh_NextRetryAt w of Some t \<Rightarrow> t | None \<Rightarrow> wh_ReceivedAt w)"

definition claimable :: "(int \<Rightarrow> bool) \<Rightarrow> time \<Rightarrow> db \<Rightarrow> webhook \<Rightarrow> bool" where
  "claimable locked now d w \<longleftrightarrow>
     deliverable now w \<and> \<not> source_paused d (wh_Source w) \<and> \<not> locked (wh_ID w)"

definition claim_select :: "(int \<Rightarrow> bool) \<Rightarrow> int \<Rightarrow> time \<Rightarrow> db \<Rightarrow> webhook list" where
  "claim_select locked limit now d =
     take (nat limit) (sort_key claim_order (filter (claimable locked now d) (t_webhooks d)))"

definition interrupt_attempt :: "time \<Rightarrow> delivery_attempt \<Rightarrow> delivery_attempt" where
  "interrupt_attempt now a = a\<lparr>
     da_Status := st_interrupted,
     da_ErrorMessage := ''delivery worker lease expired'',
     da_CompletedAt := Some now\<rparr>"

definition claim_update :: "time \<Rightarrow> webhook \<Rightarrow> webhook" where
  "claim_update leaseUntil w = w\<lparr>
     wh_Status := st_processing,
     wh_NextRetryAt := None,
     wh_DeliveryLeaseUntil := Some leaseUntil,
     wh_DeliveryLeaseVersion := wh_DeliveryLeaseVersion w + 1\<rparr>"

text \<open>The in-memory copies the caller gets, patched after the commit.\<close>

definition claim_copy :: "time \<Rightarrow> webhook \<Rightarrow> webhook" where
  "claim_copy leaseUntil h = h\<lparr>
     wh_DeliveryLeaseVersion := wh_DeliveryLeaseVersion h + 1,
     wh_Status := st_processing,
     wh_NextRetryAt := None,
     wh_DeliveryLeaseUntil := Some leaseUntil\<rparr>"

definition update_attempts :: "(delivery_attempt \<Rightarrow> bool) \<Rightarrow> (delivery_attempt \<Rightarrow> delivery_attempt) \<Rightarrow> db \<Rightarrow> db" where
  "update_attempts P g d = d\<lparr>t_attempts := update_rows P g (t_attempts d)\<rparr>"

definition claim_body ::
    "(int \<Rightarrow> bool) \<Rightarrow> faults \<Rightarrow> int \<Rightarrow> time \<Rightarrow> time \<Rightarrow> db \<Rightarrow> go_error + webhook list \<times> db" where
  "claim_body locked f limit now leaseUntil d =
     (if fails f 0 then Inl ErrDatabase
      else
        (let hooks = claim_select locked limit now d;
             ids = map wh_ID hooks;
             staleProcessingIDs = map wh_ID (filter (\<lambda>h. wh_Status h = st_processing) hooks)
         in if hooks = [] then Inr ([], d)
            else if staleProcessingIDs \<noteq> [] \<and> fails f 1 then Inl ErrDatabase
            else
              (let d1 = (if staleProcessingIDs = [] then d
                         else update_attempts
                                (\<lambda>a. da_WebhookID a \<in> set staleProcessingIDs \<and> da_Status a = st_pending)
                                (interrupt_attempt now) d)
               in exec (fails f 2)
                    (hooks, update_webhooks (\<lambda>w. wh_ID w \<in> set ids) (claim_update leaseUntil) d1))))"

definition ClaimDeliverableWebhooks ::
    "(int \<Rightarrow> bool) \<Rightarrow> faults \<Rightarrow> int \<Rightarrow> time \<Rightarrow> time \<Rightarrow> db \<Rightarrow> (go_error + webhook list) \<times> db" where
  "ClaimDeliverableWebhooks locked f limit now leaseUntil d =
     (if limit \<le> 0 then (Inr [], d)
      else
        (case transaction f (claim_body locked f limit now leaseUntil) d of
           (Inl e, d') \<Rightarrow> (Inl e, d')
         | (Inr hooks, d') \<Rightarrow> (Inr (map (claim_copy leaseUntil) hooks), d')))"

section \<open>Attempts\<close>

record delivery_result =
  res_Status :: string
  res_Response :: delivery_response
  res_ErrorMessage :: string
  res_DurationMS :: int
  res_NextRetryAt :: "time option"

text \<open>\<open>t == nil || !time.Now().Before(*t)\<close>.\<close>

definition lease_over :: "time option \<Rightarrow> time \<Rightarrow> bool" where
  "lease_over lease now = (case lease of None \<Rightarrow> True | Some t \<Rightarrow> \<not> now < t)"

definition lockDeliveryLease :: "bool \<Rightarrow> time \<Rightarrow> webhook \<Rightarrow> db \<Rightarrow> go_error + webhook" where
  "lockDeliveryLease failed now claim d =
     (case lockWebhook failed (wh_ID claim) d of
        Inl e \<Rightarrow> if e = ErrNotFound then Inl ErrLeaseLost else Inl e
      | Inr w \<Rightarrow>
          if wh_DeliveryLeaseVersion claim \<le> 0 \<or>
             wh_DeliveryLeaseVersion w \<noteq> wh_DeliveryLeaseVersion claim \<or>
             wh_Status w \<noteq> st_processing \<or> lease_over (wh_DeliveryLeaseUntil w) now
          then Inl ErrLeaseLost else Inr w)"

definition insert_attempt :: "delivery_attempt \<Rightarrow> db \<Rightarrow> go_error + delivery_attempt \<times> db" where
  "insert_attempt a d =
     (case insert_row da_ID set_da_ID a (seq_attempts d) (t_attempts d) of
        Inl e \<Rightarrow> Inl e
      | Inr (a', seq, rows) \<Rightarrow> Inr (a', d\<lparr>t_attempts := rows, seq_attempts := seq\<rparr>))"

definition new_pending_attempt :: "webhook \<Rightarrow> string \<Rightarrow> time \<Rightarrow> delivery_attempt" where
  "new_pending_attempt w target startedAt = empty_attempt\<lparr>
     da_WebhookID := wh_ID w, da_Source := wh_Source w, da_Target := target,
     da_Status := st_pending, da_StartedAt := startedAt\<rparr>"

definition create_body ::
    "faults \<Rightarrow> (nat \<Rightarrow> time) \<Rightarrow> webhook \<Rightarrow> string \<Rightarrow> db \<Rightarrow> go_error + delivery_attempt \<times> db" where
  "create_body f clk claim target d =
     (case lockDeliveryLease (fails f 0) (clk 1) claim d of
        Inl e \<Rightarrow> Inl e
      | Inr w \<Rightarrow>
          if fails f 1 then Inl ErrDatabase
          else if rows_affected (\<lambda>a. da_WebhookID a = wh_ID w \<and> da_Status a = st_pending) (t_attempts d) \<noteq> 0
          then Inl (ErrText ''delivery attempt already in progress'')
          else if fails f 2 then Inl ErrDatabase
          else insert_attempt (new_pending_attempt w target (clk 2)) d)"

definition CreateDeliveryAttempt ::
    "faults \<Rightarrow> (nat \<Rightarrow> time) \<Rightarrow> webhook \<Rightarrow> string \<Rightarrow> db \<Rightarrow> (go_error + int) \<times> db" where
  "CreateDeliveryAttempt f clk claim target d =
     (if lease_over (wh_DeliveryLeaseUntil claim) (clk 0) then (Inl ErrLeaseLost, d)
      else
        (case transaction f (create_body f clk claim target) d of
           (Inl e, d') \<Rightarrow> (Inl e, d')
         | (Inr a, d') \<Rightarrow> (Inr (da_ID a), d')))"

definition complete_attempt :: "delivery_result \<Rightarrow> time \<Rightarrow> delivery_attempt \<Rightarrow> delivery_attempt" where
  "complete_attempt result completedAt a = a\<lparr>
     da_Status := res_Status result,
     da_HTTPStatus := dr_HTTPStatus (res_Response result),
     da_ErrorMessage := res_ErrorMessage result,
     da_DurationMS := res_DurationMS result,
     da_CompletedAt := Some completedAt,
     da_ResponseBody := dr_Body (res_Response result),
     da_ResponseHeaders := dr_Headers (res_Response result),
     da_ResponseCaptured := dr_Captured (res_Response result),
     da_ResponseTruncated := dr_Truncated (res_Response result)\<rparr>"

definition finish_updates :: "delivery_result \<Rightarrow> time \<Rightarrow> webhook \<Rightarrow> webhook" where
  "finish_updates result completedAt w =
     (let w = w\<lparr>wh_DeliveryLeaseUntil := None\<rparr>;
          w = (if res_Status result \<noteq> st_skipped
               then w\<lparr>wh_Response := dr_Body (res_Response result)\<rparr> else w)
      in if res_Status result = st_success \<or> res_Status result = st_skipped then
           w\<lparr>wh_Status := res_Status result, wh_FailureCount := 0, wh_LastError := [],
             wh_NextRetryAt := None, wh_DeadLetteredAt := None, wh_DeadLetterReason := []\<rparr>
         else if res_Status result = st_cancelled then w\<lparr>wh_Status := st_pending\<rparr>
         else if res_Status result = st_failed then
           (let w = w\<lparr>wh_FailureCount := wh_FailureCount w + 1,
                      wh_LastError := res_ErrorMessage result,
                      wh_NextRetryAt := res_NextRetryAt result\<rparr>
            in case res_NextRetryAt result of
                 None \<Rightarrow> w\<lparr>wh_Status := st_dead_lettered, wh_DeadLetteredAt := Some completedAt,
                           wh_DeadLetterReason := res_ErrorMessage result\<rparr>
               | Some _ \<Rightarrow> w\<lparr>wh_Status := st_retrying, wh_DeadLetteredAt := None,
                             wh_DeadLetterReason := []\<rparr>)
         else w)"

definition finish_body ::
    "faults \<Rightarrow> (nat \<Rightarrow> time) \<Rightarrow> webhook \<Rightarrow> int \<Rightarrow> delivery_result \<Rightarrow> db \<Rightarrow> go_error + unit \<times> db" where
  "finish_body f clk claim attemptID result d =
     (case lockDeliveryLease (fails f 0) (clk 1) claim d of
        Inl e \<Rightarrow> Inl e
      | Inr w \<Rightarrow>
          let completedAt = clk 2;
              P = (\<lambda>a. da_ID a = attemptID \<and> da_WebhookID a = wh_ID w \<and> da_Status a = st_pending)
          in if fails f 1 then Inl ErrDatabase
             else if rows_affected P (t_attempts d) \<noteq> 1 then Inl ErrLeaseLost
             else exec (fails f 2)
                    ((), update_webhooks (\<lambda>x. wh_ID x = wh_ID w) (finish_updates result completedAt)
                           (update_attempts P (complete_attempt result completedAt) d)))"

definition FinishDelivery ::
    "faults \<Rightarrow> (nat \<Rightarrow> time) \<Rightarrow> webhook \<Rightarrow> int \<Rightarrow> delivery_result \<Rightarrow> db \<Rightarrow> (go_error + unit) \<times> db" where
  "FinishDelivery f clk claim attemptID result d =
     (if res_Status result \<notin> {st_success, st_failed, st_cancelled, st_skipped}
      then (Inl (ErrText ''invalid delivery result status''), d)
      else if lease_over (wh_DeliveryLeaseUntil claim) (clk 0) then (Inl ErrLeaseLost, d)
      else transaction f (finish_body f clk claim attemptID result) d)"

section \<open>What a claim selects\<close>

lemma source_paused_iff:
  "source_paused d source \<longleftrightarrow> (\<exists>r \<in> set (t_rules d). fr_Source r = source \<and> fr_Paused r)"
  by (simp add: source_paused_def list_ex_iff)

lemma claim_select_in:
  "w \<in> set (claim_select locked limit now d) \<Longrightarrow> w \<in> set (t_webhooks d) \<and> claimable locked now d w"
  by (auto simp: claim_select_def dest: in_set_takeD)

lemma claim_select_length: "length (claim_select locked limit now d) \<le> nat limit"
  by (simp add: claim_select_def)

lemma claim_select_distinct:
  "delivery_inv d \<Longrightarrow> distinct (map wh_ID (claim_select locked limit now d))"
  unfolding claim_select_def
  by (intro distinct_map_take distinct_map_sort_key distinct_map_filter_cong)
    (simp add: delivery_inv_def keys_ok_def)

text \<open>The selection is served in order: a row left out is due no earlier than one taken.\<close>

lemma claim_select_order:
  assumes "w \<in> set (claim_select locked limit now d)"
    and "v \<in> set (t_webhooks d)" "claimable locked now d v" "v \<notin> set (claim_select locked limit now d)"
  shows "claim_order w \<le> claim_order v"
proof -
  let ?s = "sort_key claim_order (filter (claimable locked now d) (t_webhooks d))"
  have "v \<in> set ?s" using assms by simp
  then have "v \<in> set (take (nat limit) ?s) \<union> set (drop (nat limit) ?s)"
    by (metis append_take_drop_id set_append)
  with assms(4) have "v \<in> set (drop (nat limit) ?s)" by (simp add: claim_select_def)
  moreover have "sorted (map claim_order ?s)" by simp
  ultimately show ?thesis using assms(1) unfolding claim_select_def by (meson take_sorted_le)
qed

lemma claim_select_full:
  assumes "length (claim_select locked limit now d) < nat limit"
    and "v \<in> set (t_webhooks d)" "claimable locked now d v"
  shows "v \<in> set (claim_select locked limit now d)"
proof -
  let ?s = "sort_key claim_order (filter (claimable locked now d) (t_webhooks d))"
  have "take (nat limit) ?s = ?s" using assms(1) unfolding claim_select_def by auto
  then show ?thesis using assms by (simp add: claim_select_def)
qed

lemma claim_update_eq_copy: "claim_update t w = claim_copy t w"
  by (simp add: claim_update_def claim_copy_def)

lemma claim_update_keep [simp]:
  "wh_ID (claim_update t w) = wh_ID w" "wh_Source (claim_update t w) = wh_Source w"
  "wh_Status (claim_update t w) = st_processing"
  "wh_DeliveryLeaseUntil (claim_update t w) = Some t"
  "wh_DeliveryLeaseVersion (claim_update t w) = wh_DeliveryLeaseVersion w + 1"
  "wh_FailureCount (claim_update t w) = wh_FailureCount w"
  by (simp_all add: claim_update_def)

lemma claim_copy_keep [simp]:
  "wh_ID (claim_copy t w) = wh_ID w" "wh_Source (claim_copy t w) = wh_Source w"
  "wh_Status (claim_copy t w) = st_processing"
  "wh_DeliveryLeaseUntil (claim_copy t w) = Some t"
  "wh_DeliveryLeaseVersion (claim_copy t w) = wh_DeliveryLeaseVersion w + 1"
  "wh_FailureCount (claim_copy t w) = wh_FailureCount w"
  by (simp_all add: claim_copy_def)

lemma update_attempts_frame [simp]:
  "t_webhooks (update_attempts P g d) = t_webhooks d"
  "t_rules (update_attempts P g d) = t_rules d" "seq_rules (update_attempts P g d) = seq_rules d"
  "t_users (update_attempts P g d) = t_users d" "seq_users (update_attempts P g d) = seq_users d"
  "seq_webhooks (update_attempts P g d) = seq_webhooks d"
  "seq_attempts (update_attempts P g d) = seq_attempts d"
  "t_attempts (update_attempts P g d) = update_rows P g (t_attempts d)"
  by (simp_all add: update_attempts_def)

text \<open>The effect of a successful claim on the tables, in one equation.\<close>

definition interrupted_rows :: "webhook list \<Rightarrow> time \<Rightarrow> delivery_attempt list \<Rightarrow> delivery_attempt list" where
  "interrupted_rows hooks now =
     update_rows (\<lambda>a. da_WebhookID a \<in> wh_ID ` {h \<in> set hooks. wh_Status h = st_processing} \<and>
                      da_Status a = st_pending) (interrupt_attempt now)"

lemma update_rows_none: "(\<And>r. r \<in> set rows \<Longrightarrow> \<not> P r) \<Longrightarrow> update_rows P g rows = rows"
  by (simp add: update_rows_def map_idI)

lemma claim_body_Inr:
  assumes "claim_body locked f limit now leaseUntil d = Inr (hooks, d')"
  shows "hooks = claim_select locked limit now d"
    and "d' = d\<lparr>t_webhooks := update_rows (\<lambda>w. wh_ID w \<in> wh_ID ` set hooks) (claim_update leaseUntil) (t_webhooks d),
                t_attempts := interrupted_rows hooks now (t_attempts d)\<rparr>"
proof -
  show hooks: "hooks = claim_select locked limit now d"
    using assms by (auto simp: claim_body_def Let_def split: if_splits)
  consider (none) "hooks = []" "d' = d"
    | (some) "d' = update_webhooks (\<lambda>w. wh_ID w \<in> set (map wh_ID hooks)) (claim_update leaseUntil)
                 (if map wh_ID (filter (\<lambda>h. wh_Status h = st_processing) hooks) = [] then d
                  else update_attempts (\<lambda>a. da_WebhookID a \<in> set (map wh_ID (filter (\<lambda>h. wh_Status h = st_processing) hooks)) \<and>
             da_Status a = st_pending) (interrupt_attempt now) d)"
    using assms unfolding claim_body_def Let_def hooks [symmetric] by (auto split: if_splits)
  then show "d' = d\<lparr>t_webhooks := update_rows (\<lambda>w. wh_ID w \<in> wh_ID ` set hooks) (claim_update leaseUntil) (t_webhooks d),
                t_attempts := interrupted_rows hooks now (t_attempts d)\<rparr>"
  proof cases
    case none
    then show ?thesis by (simp add: interrupted_rows_def update_rows_none)
  next
    case some
    show ?thesis
    proof (cases "filter (\<lambda>h. wh_Status h = st_processing) hooks = []")
      case True
      then have "interrupted_rows hooks now (t_attempts d) = t_attempts d"
        unfolding interrupted_rows_def by (intro update_rows_none) (auto simp: filter_empty_conv)
      then show ?thesis using some True by (simp add: update_webhooks_def)
    next
      case False
      then show ?thesis using some
        by (simp add: update_webhooks_def update_attempts_def interrupted_rows_def)
    qed
  qed
qed

lemma Claim_Inr:
  assumes "ClaimDeliverableWebhooks locked f limit now leaseUntil d = (Inr claims, d')" and "0 < limit"
  shows "claims = map (claim_copy leaseUntil) (claim_select locked limit now d)"
    and "claim_body locked f limit now leaseUntil d = Inr (claim_select locked limit now d, d')"
proof -
  obtain hooks where h: "transaction f (claim_body locked f limit now leaseUntil) d = (Inr hooks, d')"
    and c: "claims = map (claim_copy leaseUntil) hooks"
    using assms by (auto simp: ClaimDeliverableWebhooks_def split: if_splits prod.splits sum.splits)
  from h have b: "claim_body locked f limit now leaseUntil d = Inr (hooks, d')"
    by (simp add: transaction_ok)
  from claim_body_Inr(1) [OF b] b c
  show "claims = map (claim_copy leaseUntil) (claim_select locked limit now d)"
    and "claim_body locked f limit now leaseUntil d = Inr (claim_select locked limit now d, d')"
    by simp_all
qed

section \<open>Integrity\<close>

lemma delivery_inv_update_attempts:
  assumes inv: "delivery_inv d"
    and keep: "\<And>a. da_ID (g a) = da_ID a" "\<And>a. da_WebhookID (g a) = da_WebhookID a"
      "\<And>a. da_Source (g a) = da_Source a"
    and closed: "\<And>a. attempt_ok (g a) \<and> da_Status (g a) \<noteq> st_pending"
  shows "delivery_inv (update_attempts P g d)"
proof (rule delivery_invI)
  fix a assume "a \<in> set (t_attempts (update_attempts P g d))"
  then obtain b where b: "b \<in> set (t_attempts d)" "a = (if P b then g b else b)"
    by (auto simp: set_update_rows)
  show "attempt_ok a" using delivery_invD(4) [OF inv b(1)] closed b(2) by simp
  show "attempt_linked (t_webhooks (update_attempts P g d)) a"
    using delivery_invD(5) [OF inv b(1)] closed keep b(2) by (auto simp: attempt_linked_def)
next
  have "a \<in> set (t_attempts d)" if "a \<in> set (update_rows P g (t_attempts d))" "da_Status a = st_pending" for a
    using that closed by (auto simp: set_update_rows split: if_splits)
  then show "one_pending (t_attempts (update_attempts P g d))"
    using delivery_invD(6) [OF inv] by (simp add: one_pending_def)
qed (use delivery_invD [OF inv] keep in \<open>simp_all add: keys_ok_update\<close>)

lemma interrupt_attempt_simps [simp]:
  "da_ID (interrupt_attempt t a) = da_ID a" "da_WebhookID (interrupt_attempt t a) = da_WebhookID a"
  "da_Source (interrupt_attempt t a) = da_Source a" "da_Status (interrupt_attempt t a) = st_interrupted"
  "attempt_ok (interrupt_attempt t a)"
  by (simp_all add: interrupt_attempt_def attempt_ok_def attempt_statuses_def)

lemma deliverable_status:
  "deliverable now w \<Longrightarrow> wh_Status w \<in> {st_pending, st_retrying, st_processing}"
  by (auto simp: deliverable_def)

lemma webhook_ok_claim_update:
  assumes "webhook_ok w" and "wh_Status w \<in> {st_pending, st_retrying, st_processing}"
  shows "webhook_ok (claim_update t w)"
proof -
  have "wh_DeadLetteredAt w = None" using assms by (auto simp: webhook_ok_def)
  then show ?thesis using assms(1) by (simp add: webhook_ok_def claim_update_def webhook_statuses_def)
qed

lemma claim_body_inv:
  assumes inv: "delivery_inv d" and body: "claim_body locked f limit now leaseUntil d = Inr (hooks, d')"
  shows "delivery_inv d'" and "t_rules d' = t_rules d \<and> seq_rules d' = seq_rules d \<and>
           t_users d' = t_users d \<and> seq_users d' = seq_users d"
proof -
  let ?Q = "\<lambda>a. da_WebhookID a \<in> wh_ID ` {h \<in> set hooks. wh_Status h = st_processing} \<and> da_Status a = st_pending"
  let ?d1 = "update_attempts ?Q (interrupt_attempt now) d"
  have d': "d' = update_webhooks (\<lambda>w. wh_ID w \<in> wh_ID ` set hooks) (claim_update leaseUntil) ?d1"
    using claim_body_Inr(2) [OF body]
    by (simp add: interrupted_rows_def update_webhooks_def update_attempts_def)
  have inv1: "delivery_inv ?d1" by (rule delivery_inv_update_attempts [OF inv]) simp_all
  have st: "wh_Status w \<in> {st_pending, st_retrying, st_processing}"
    if w: "w \<in> set (t_webhooks d)" "wh_ID w \<in> wh_ID ` set hooks" for w
  proof -
    from w(2) obtain h where h: "h \<in> set hooks" "wh_ID h = wh_ID w" by auto
    have "h \<in> set (t_webhooks d)" and "deliverable now h"
      using h(1) claim_body_Inr(1) [OF body] claim_select_in by (auto simp: claimable_def)
    with webhook_unique [OF inv _ w(1) h(2)] deliverable_status show ?thesis by metis
  qed
  show "delivery_inv d'" unfolding d'
    by (rule delivery_inv_update_webhooks [OF inv1]) (use st in \<open>auto intro: webhook_ok_claim_update\<close>)
  show "t_rules d' = t_rules d \<and> seq_rules d' = seq_rules d \<and>
           t_users d' = t_users d \<and> seq_users d' = seq_users d"
    by (simp add: d')
qed

lemma db_inv_Claim [inv_intros]:
  assumes "db_inv d" and "ClaimDeliverableWebhooks locked f limit now leaseUntil d = (r, d')"
  shows "db_inv d'"
proof (cases "limit \<le> 0")
  case True
  then show ?thesis using assms by (simp add: ClaimDeliverableWebhooks_def)
next
  case False
  then obtain r' where "transaction f (claim_body locked f limit now leaseUntil) d = (r', d')"
    using assms(2) by (auto simp: ClaimDeliverableWebhooks_def split: prod.splits sum.splits)
  then show ?thesis
  proof (rule transaction_inv)
    fix a e assume body: "claim_body locked f limit now leaseUntil d = Inr (a, e)"
    note i = claim_body_inv [OF db_invD(1) [OF assms(1)] body]
    show "db_inv e" by (rule db_inv_delivery_part [OF assms(1) i(1)]) (use i(2) in simp_all)
  qed (rule assms(1))
qed

lemma lockDeliveryLease_Inr:
  assumes "lockDeliveryLease failed now claim d = Inr w"
  shows "find_webhook (wh_ID claim) d = Some w" and "w \<in> set (t_webhooks d)" and "wh_ID w = wh_ID claim"
    and "0 < wh_DeliveryLeaseVersion claim" and "wh_DeliveryLeaseVersion w = wh_DeliveryLeaseVersion claim"
    and "wh_Status w = st_processing" and "\<not> lease_over (wh_DeliveryLeaseUntil w) now" and "\<not> failed"
proof -
  from assms have "lockWebhook failed (wh_ID claim) d = Inr w"
    and *: "\<not> (wh_DeliveryLeaseVersion claim \<le> 0 \<or>
             wh_DeliveryLeaseVersion w \<noteq> wh_DeliveryLeaseVersion claim \<or>
             wh_Status w \<noteq> st_processing \<or> lease_over (wh_DeliveryLeaseUntil w) now)"
    by (auto simp: lockDeliveryLease_def split: sum.splits if_splits)
  from lockWebhook_Inr [OF this(1)] *
  show "find_webhook (wh_ID claim) d = Some w" and "w \<in> set (t_webhooks d)" and "wh_ID w = wh_ID claim"
    and "0 < wh_DeliveryLeaseVersion claim" and "wh_DeliveryLeaseVersion w = wh_DeliveryLeaseVersion claim"
    and "wh_Status w = st_processing" and "\<not> lease_over (wh_DeliveryLeaseUntil w) now" and "\<not> failed"
    by simp_all
qed

lemma lockDeliveryLease_iff:
  "lockDeliveryLease False now claim d = Inr w \<longleftrightarrow>
     find_webhook (wh_ID claim) d = Some w \<and> 0 < wh_DeliveryLeaseVersion claim \<and>
     wh_DeliveryLeaseVersion w = wh_DeliveryLeaseVersion claim \<and> wh_Status w = st_processing \<and>
     \<not> lease_over (wh_DeliveryLeaseUntil w) now"
  by (auto simp: lockDeliveryLease_def lockWebhook_def split: option.splits)

lemma lockDeliveryLease_errors:
  "lockDeliveryLease failed now claim d = Inl e \<Longrightarrow> e = ErrLeaseLost \<or> e = ErrDatabase"
  by (auto simp: lockDeliveryLease_def lockWebhook_def split: sum.splits option.splits if_splits)

lemma one_pending_snoc:
  assumes "one_pending as" and "bs = as @ [x]"
    and "\<And>b. b \<in> set as \<Longrightarrow> \<not> (da_WebhookID b = da_WebhookID x \<and> da_Status b = st_pending)"
  shows "one_pending bs"
  unfolding one_pending_def
proof (intro ballI impI)
  fix a b
  assume ab: "a \<in> set bs" "b \<in> set bs"
    and p: "da_Status a = st_pending" "da_Status b = st_pending" "da_WebhookID a = da_WebhookID b"
  from ab assms(2) have "a \<in> set as \<or> a = x" "b \<in> set as \<or> b = x" by auto
  then show "a = b" using p assms(1,3) unfolding one_pending_def by metis
qed

lemma insert_attempt_inv:
  assumes inv: "delivery_inv d" and w: "w \<in> set (t_webhooks d)" "wh_Status w = st_processing"
    and free: "rows_affected (\<lambda>a. da_WebhookID a = wh_ID w \<and> da_Status a = st_pending) (t_attempts d) = 0"
    and ins: "insert_attempt (new_pending_attempt w target t) d = Inr (a, d')"
  shows "delivery_inv d'" and "a = (new_pending_attempt w target t)\<lparr>da_ID := seq_attempts d + 1\<rparr>"
    and "d' = d\<lparr>t_attempts := t_attempts d @ [a], seq_attempts := seq_attempts d + 1\<rparr>"
proof -
  let ?n = "new_pending_attempt w target t"
  have "insert_row da_ID set_da_ID ?n (seq_attempts d) (t_attempts d) =
          Inr (set_da_ID (seq_attempts d + 1) ?n, seq_attempts d + 1,
               t_attempts d @ [set_da_ID (seq_attempts d + 1) ?n])"
    using delivery_invD(2) [OF inv]
    by (intro da_table.insert_fresh) (auto simp: keys_ok_def new_pending_attempt_def empty_attempt_def)
  then show a: "a = ?n\<lparr>da_ID := seq_attempts d + 1\<rparr>"
    and d': "d' = d\<lparr>t_attempts := t_attempts d @ [a], seq_attempts := seq_attempts d + 1\<rparr>"
    using ins by (auto simp: insert_attempt_def set_da_ID_def)
  have fields: "da_ID a = seq_attempts d + 1" "da_WebhookID a = wh_ID w" "da_Source a = wh_Source w"
    "attempt_ok a"
    by (simp_all add: a new_pending_attempt_def empty_attempt_def attempt_ok_def attempt_statuses_def)
  have free': "\<not> (da_WebhookID b = wh_ID w \<and> da_Status b = st_pending)" if "b \<in> set (t_attempts d)" for b
    using free that rows_affected_pos [of "\<lambda>a. da_WebhookID a = wh_ID w \<and> da_Status a = st_pending" "t_attempts d"]
    by blast
  show "delivery_inv d'"
  proof (rule delivery_invI)
    show "keys_ok da_ID (seq_attempts d') (t_attempts d')"
      using keys_ok_insert [OF delivery_invD(2) [OF inv] fields(1)] d' by simp
    show "attempt_linked (t_webhooks d') b" if "b \<in> set (t_attempts d')" for b
      using that d' delivery_invD(5) [OF inv, of b] fields w by (auto simp: attempt_linked_def)
    show "attempt_ok b" if "b \<in> set (t_attempts d')" for b
      using that d' delivery_invD(4) [OF inv, of b] fields(4) by auto
    show "one_pending (t_attempts d')"
      by (rule one_pending_snoc [OF delivery_invD(6) [OF inv]]) (use d' free' fields in auto)
  qed (use d' delivery_invD [OF inv] in simp_all)
qed

lemma create_body_Inr:
  assumes "create_body f clk claim target d = Inr (a, d')"
  obtains w where "lockDeliveryLease (fails f 0) (clk 1) claim d = Inr w"
    "rows_affected (\<lambda>a. da_WebhookID a = wh_ID w \<and> da_Status a = st_pending) (t_attempts d) = 0"
    "insert_attempt (new_pending_attempt w target (clk 2)) d = Inr (a, d')"
  using assms by (auto simp: create_body_def split: sum.splits if_splits)

lemma Create_transaction:
  assumes "CreateDeliveryAttempt f clk claim target d = (r, d')"
  shows "d' = d \<or> (\<exists>r'. transaction f (create_body f clk claim target) d = (r', d'))"
  using assms by (auto simp: CreateDeliveryAttempt_def split: if_splits prod.splits sum.splits)

lemma db_inv_Create [inv_intros]:
  assumes "db_inv d" and "CreateDeliveryAttempt f clk claim target d = (r, d')"
  shows "db_inv d'"
  using Create_transaction [OF assms(2)]
proof (elim disjE exE)
  fix r' assume "transaction f (create_body f clk claim target) d = (r', d')"
  then show ?thesis
  proof (rule transaction_inv)
    fix a e assume "create_body f clk claim target d = Inr (a, e)"
    then obtain w where w: "lockDeliveryLease (fails f 0) (clk 1) claim d = Inr w"
      and free: "rows_affected (\<lambda>a. da_WebhookID a = wh_ID w \<and> da_Status a = st_pending) (t_attempts d) = 0"
      and ins: "insert_attempt (new_pending_attempt w target (clk 2)) d = Inr (a, e)"
      by (rule create_body_Inr)
    note i = insert_attempt_inv [OF db_invD(1) [OF assms(1)] lockDeliveryLease_Inr(2) [OF w]
        lockDeliveryLease_Inr(6) [OF w] free ins]
    show "db_inv e" by (rule db_inv_delivery_part [OF assms(1) i(1)]) (simp_all add: i(3))
  qed (rule assms(1))
qed (simp add: assms(1))

lemma complete_attempt_keep [simp]:
  "da_ID (complete_attempt r t a) = da_ID a" "da_WebhookID (complete_attempt r t a) = da_WebhookID a"
  "da_Source (complete_attempt r t a) = da_Source a" "da_Status (complete_attempt r t a) = res_Status r"
  "da_CompletedAt (complete_attempt r t a) = Some t"
  by (simp_all add: complete_attempt_def)

lemma finish_updates_keep [simp]:
  "wh_ID (finish_updates r t w) = wh_ID w" "wh_Source (finish_updates r t w) = wh_Source w"
  "wh_DeliveryLeaseVersion (finish_updates r t w) = wh_DeliveryLeaseVersion w"
  by (simp_all add: finish_updates_def Let_def split: option.splits)

lemma webhook_ok_finish:
  assumes "webhook_ok w" "wh_Status w = st_processing"
    and "res_Status r \<in> {st_success, st_failed, st_cancelled, st_skipped}"
  shows "webhook_ok (finish_updates r t w)"
proof -
  have "wh_NextRetryAt w = None" "wh_DeadLetteredAt w = None" "0 \<le> wh_DeliveryLeaseVersion w"
    "0 \<le> wh_FailureCount w"
    using assms(1,2) by (auto simp: webhook_ok_def)
  with assms(3) show ?thesis
    by (elim insertE; cases "res_NextRetryAt r")
      (simp_all add: webhook_ok_def finish_updates_def Let_def webhook_statuses_def)
qed

lemma finish_body_Inr:
  assumes "finish_body f clk claim attemptID result d = Inr (u, d')"
  obtains w P where "lockDeliveryLease (fails f 0) (clk 1) claim d = Inr w"
    "P = (\<lambda>a. da_ID a = attemptID \<and> da_WebhookID a = wh_ID w \<and> da_Status a = st_pending)"
    "rows_affected P (t_attempts d) = 1"
    "d' = update_webhooks (\<lambda>x. wh_ID x = wh_ID w) (finish_updates result (clk 2))
            (update_attempts P (complete_attempt result (clk 2)) d)"
  using assms by (auto simp: finish_body_def Let_def split: sum.splits if_splits)

lemma finish_body_inv:
  assumes inv: "delivery_inv d" and body: "finish_body f clk claim attemptID result d = Inr (u, d')"
    and st: "res_Status result \<in> {st_success, st_failed, st_cancelled, st_skipped}"
  shows "delivery_inv d'"
proof -
  from body obtain w P where w: "lockDeliveryLease (fails f 0) (clk 1) claim d = Inr w"
    and P: "P = (\<lambda>a. da_ID a = attemptID \<and> da_WebhookID a = wh_ID w \<and> da_Status a = st_pending)"
    and one: "rows_affected P (t_attempts d) = 1"
    and d': "d' = update_webhooks (\<lambda>x. wh_ID x = wh_ID w) (finish_updates result (clk 2))
            (update_attempts P (complete_attempt result (clk 2)) d)"
    by (rule finish_body_Inr)
  note wl = lockDeliveryLease_Inr [OF w]
  let ?d1 = "update_attempts P (complete_attempt result (clk 2)) d"
  have inv1: "delivery_inv ?d1"
    by (rule delivery_inv_update_attempts [OF inv])
      (use st in \<open>auto simp: attempt_ok_def attempt_statuses_def\<close>)
  obtain a0 where a0: "a0 \<in> set (t_attempts d)" "P a0"
    using one rows_affected_pos [of P "t_attempts d"] by auto
  have none: False
    if a: "a \<in> set (t_attempts ?d1)" "da_WebhookID a = wh_ID w" "da_Status a = st_pending" for a
  proof -
    obtain b where b: "b \<in> set (t_attempts d)" "a = (if P b then complete_attempt result (clk 2) b else b)"
      using a(1) unfolding update_attempts_frame set_update_rows by blast
    with a st have "\<not> P b" "a = b" by auto
    with a a0 b(1) delivery_invD(6) [OF inv] show False unfolding one_pending_def P by metis
  qed
  have uniq: "x = w" if "x \<in> set (t_webhooks d)" "wh_ID x = wh_ID w" for x
    using webhook_unique [OF inv that(1) wl(2) that(2)] .
  show ?thesis unfolding d'
  proof (rule delivery_inv_update_webhooks [OF inv1])
    fix x assume x: "x \<in> set (t_webhooks ?d1)" "wh_ID x = wh_ID w" "webhook_ok x"
    then have "wh_Status x = st_processing" using uniq wl(6) by auto
    from webhook_ok_finish [OF x(3) this st] show "webhook_ok (finish_updates result (clk 2) x)" .
  qed (use none in auto)
qed

lemma db_inv_Finish [inv_intros]:
  assumes "db_inv d" and "FinishDelivery f clk claim attemptID result d = (r, d')"
  shows "db_inv d'"
proof (cases "d' = d")
  case False
  then have t: "transaction f (finish_body f clk claim attemptID result) d = (r, d')"
    and st: "res_Status result \<in> {st_success, st_failed, st_cancelled, st_skipped}"
    using assms(2) by (auto simp: FinishDelivery_def split: if_splits)
  from t show ?thesis
  proof (rule transaction_inv)
    fix a e assume body: "finish_body f clk claim attemptID result d = Inr (a, e)"
    have "t_rules e = t_rules d \<and> seq_rules e = seq_rules d \<and> t_users e = t_users d \<and> seq_users e = seq_users d"
      using body by (elim finish_body_Inr) simp
    then show "db_inv e"
      by (intro db_inv_delivery_part [OF assms(1) finish_body_inv [OF db_invD(1) [OF assms(1)] body st]])
        simp_all
  qed (rule assms(1))
qed (simp add: assms(1))

end
