(* ===== verification/Leases.thy ===== *)
theory Leases
  imports Delivery
begin

text \<open>
  What the operations of theory Delivery guarantee to the workers that share the database: a
  claim hands out due webhooks fairly and as they are stored, an attempt is opened and closed
  only under the current lease and then completely, a worker that lost its lease is fenced
  off, and one that holds it makes progress.
\<close>

section \<open>What a claim guarantees\<close>

lemma find_webhook_update:
  assumes "\<And>w. wh_ID (g w) = wh_ID w"
  shows "find_webhook k (update_webhooks P g d) = map_option (\<lambda>w. if P w then g w else w) (find_webhook k d)"
  unfolding find_webhook_def update_webhooks_frame by (rule wh_table.find_update) (rule assms)

lemma find_webhook_table [simp]:
  "find_webhook k (d\<lparr>t_attempts := as\<rparr>) = find_webhook k d"
  "find_webhook k (d\<lparr>seq_attempts := n\<rparr>) = find_webhook k d"
  "find_webhook k (update_attempts P g d) = find_webhook k d"
  by (simp_all add: find_webhook_def)

lemma Claim_find:
  assumes "db_inv d" and "ClaimDeliverableWebhooks locked f limit now leaseUntil d = (Inr claims, d')"
    and "0 < limit"
  shows "find_webhook k d' = map_option
           (\<lambda>w. if w \<in> set (claim_select locked limit now d) then claim_copy leaseUntil w else w) (find_webhook k d)"
proof -
  note c = Claim_Inr [OF assms(2,3)]
  let ?S = "set (claim_select locked limit now d)"
  have "find_webhook k d' = map_option
          (\<lambda>w. if wh_ID w \<in> wh_ID ` ?S then claim_update leaseUntil w else w) (find_webhook k d)"
    using claim_body_Inr(2) [OF c(2)]
      wh_table.find_update [of "claim_update leaseUntil" k "\<lambda>w. wh_ID w \<in> wh_ID ` ?S" "t_webhooks d"]
    by (simp add: find_webhook_def)
  moreover have "wh_ID w \<in> wh_ID ` ?S \<longleftrightarrow> w \<in> ?S" if "find_webhook k d = Some w" for w
    using webhook_unique [OF db_invD(1) [OF assms(1)] find_webhook_Some(1) [OF that]] claim_select_in by blast
  ultimately show ?thesis by (cases "find_webhook k d") (simp_all add: claim_update_eq_copy)
qed

lemma claim_facts:
  assumes "db_inv d" and "0 < limit"
    and "ClaimDeliverableWebhooks locked f limit now leaseUntil d = (Inr claims, d')"
  shows claim_length: "length claims \<le> nat limit" and claim_distinct: "distinct (map wh_ID claims)"
    and claim_stored: "\<And>c. c \<in> set claims \<Longrightarrow> find_webhook (wh_ID c) d' = Some c"
    and claim_from: "\<And>c. c \<in> set claims \<Longrightarrow> \<exists>w. find_webhook (wh_ID c) d = Some w \<and> c = claim_copy leaseUntil w \<and>
          deliverable now w \<and> \<not> source_paused d (wh_Source w) \<and> \<not> locked (wh_ID w)"
    and claim_others: "\<And>k. k \<notin> wh_ID ` set claims \<Longrightarrow> find_webhook k d' = find_webhook k d"
proof -
  let ?S = "claim_select locked limit now d"
  note inv = db_invD(1) [OF assms(1)]
  have c: "claims = map (claim_copy leaseUntil) ?S" by (rule Claim_Inr(1) [OF assms(3,2)])
  note find = Claim_find [OF assms(1,3,2)]
  show "length claims \<le> nat limit" using claim_select_length by (simp add: c)
  show "distinct (map wh_ID claims)"
    using claim_select_distinct [OF inv] by (simp add: c comp_def)
  show "find_webhook k d' = find_webhook k d" if "k \<notin> wh_ID ` set claims" for k
  proof (cases "find_webhook k d")
    case (Some w)
    then have "w \<notin> set ?S" using that find_webhook_Some(2) [OF Some]
      by (auto simp: c image_image)
    then show ?thesis by (simp add: find Some)
  qed (simp add: find)
  fix x assume "x \<in> set claims"
  then obtain w where w: "w \<in> set ?S" "x = claim_copy leaseUntil w" by (auto simp: c)
  then have id: "wh_ID x = wh_ID w" by simp
  have old: "find_webhook (wh_ID x) d = Some w"
    using find_webhook_in [OF inv] claim_select_in [OF w(1)] id by simp
  then show "find_webhook (wh_ID x) d' = Some x" using w by (simp add: find)
  show "\<exists>w. find_webhook (wh_ID x) d = Some w \<and> x = claim_copy leaseUntil w \<and>
          deliverable now w \<and> \<not> source_paused d (wh_Source w) \<and> \<not> locked (wh_ID w)"
    using old w(2) claim_select_in [OF w(1)] by (auto simp: claimable_def)
qed

text \<open>
  The delivery attempts a claim interrupts: the pending ones of the claimed webhooks that were
  already \<open>processing\<close>, under a lease that ran out.
\<close>

lemma claim_attempts:
  assumes "db_inv d" and "0 < limit"
    and "ClaimDeliverableWebhooks locked f limit now leaseUntil d = (Inr claims, d')"
  shows "d' = d\<lparr>t_webhooks := t_webhooks d',
      t_attempts := map (\<lambda>a.
        if da_Status a = st_pending \<and> da_WebhookID a \<in> wh_ID ` set claims \<and>
           (\<exists>w. find_webhook (da_WebhookID a) d = Some w \<and> wh_Status w = st_processing)
        then a\<lparr>da_Status := st_interrupted, da_ErrorMessage := ''delivery worker lease expired'',
               da_CompletedAt := Some now\<rparr>
        else a) (t_attempts d)\<rparr>"
proof -
  let ?S = "claim_select locked limit now d"
  note inv = db_invD(1) [OF assms(1)]
  note c = Claim_Inr [OF assms(3,2)]
  note d' = claim_body_Inr(2) [OF c(2)]
  have "k \<in> wh_ID ` {h \<in> set ?S. wh_Status h = st_processing} \<longleftrightarrow>
      k \<in> wh_ID ` set claims \<and> (\<exists>w. find_webhook k d = Some w \<and> wh_Status w = st_processing)" for k
  proof
    assume "k \<in> wh_ID ` {h \<in> set ?S. wh_Status h = st_processing}"
    then obtain h where h: "h \<in> set ?S" "k = wh_ID h" "wh_Status h = st_processing" by auto
    then have "find_webhook k d = Some h" using find_webhook_in [OF inv] claim_select_in [OF h(1)] by simp
    moreover have "k \<in> wh_ID ` set claims" using h(1,2) by (auto simp: c(1) image_image)
    ultimately show "k \<in> wh_ID ` set claims \<and> (\<exists>w. find_webhook k d = Some w \<and> wh_Status w = st_processing)"
      using h(3) by blast
  next
    assume "k \<in> wh_ID ` set claims \<and> (\<exists>w. find_webhook k d = Some w \<and> wh_Status w = st_processing)"
    then obtain h w where h: "h \<in> set ?S" "k = wh_ID h" and w: "find_webhook k d = Some w" "wh_Status w = st_processing"
      by (auto simp: c(1) image_image)
    then have "h = w" using find_webhook_in [OF inv] claim_select_in [OF h(1)] by force
    then show "k \<in> wh_ID ` {h \<in> set ?S. wh_Status h = st_processing}" using h w(2) by blast
  qed
  then show ?thesis
    by (subst d') (simp add: d' interrupted_rows_def update_rows_def interrupt_attempt_def conj_ac cong: if_cong)
qed

lemma claimed_has_no_pending:
  assumes "db_inv d" and "0 < limit"
    and "ClaimDeliverableWebhooks locked f limit now leaseUntil d = (Inr claims, d')"
    and c: "c \<in> set claims" and a: "a \<in> set (t_attempts d')" "da_WebhookID a = wh_ID c"
  shows "da_Status a \<noteq> st_pending"
proof
  assume pending: "da_Status a = st_pending"
  have "t_attempts d' = map (\<lambda>a. if da_Status a = st_pending \<and> da_WebhookID a \<in> wh_ID ` set claims \<and>
           (\<exists>w. find_webhook (da_WebhookID a) d = Some w \<and> wh_Status w = st_processing)
        then a\<lparr>da_Status := st_interrupted, da_ErrorMessage := ''delivery worker lease expired'',
               da_CompletedAt := Some now\<rparr> else a) (t_attempts d)"
    using arg_cong [where f = t_attempts, OF claim_attempts [OF assms(1-3)]] by simp
  with a(1) pending have old: "a \<in> set (t_attempts d)"
    "\<not> (da_WebhookID a \<in> wh_ID ` set claims \<and> (\<exists>w. find_webhook (da_WebhookID a) d = Some w \<and> wh_Status w = st_processing))"
    by (auto split: if_splits)
  obtain w where w: "find_webhook (wh_ID c) d = Some w" using claim_from [OF assms(1-3) c] by blast
  then have "wh_Status w = st_processing"
    using pending_processing [OF db_invD(1) [OF assms(1)] find_webhook_Some(1) [OF w] old(1) _ pending]
      find_webhook_Some(2) [OF w] a(2) by simp
  then show False using old(2) w a(2) c by auto
qed

text \<open>
  C12: a successful claim returns at most \<open>limit\<close> webhooks, each once. Each one was in the
  database, due (pending, past its retry time, or under an expired lease), of a source that is
  not paused and not locked by another transaction, and the copy the worker receives is exactly
  the row now stored: \<open>processing\<close>, without a retry time, under the new lease and one version
  further, otherwise as it was. Every other webhook row is untouched. Of the delivery attempts
  exactly the pending ones of a claimed webhook that was already \<open>processing\<close> are interrupted,
  with their message and completion time; every other attempt, the rules, the users and the
  sequences are as before.
\<close>

theorem claim_correct:
  assumes "db_inv d" and "0 < limit"
    and "ClaimDeliverableWebhooks locked f limit now leaseUntil d = (Inr claims, d')"
  shows "length claims \<le> nat limit \<and> distinct (map wh_ID claims) \<and>
    (\<forall>c \<in> set claims. find_webhook (wh_ID c) d' = Some c \<and>
       (\<exists>w. find_webhook (wh_ID c) d = Some w \<and>
          c = w\<lparr>wh_Status := st_processing, wh_NextRetryAt := None, wh_DeliveryLeaseUntil := Some leaseUntil,
                 wh_DeliveryLeaseVersion := wh_DeliveryLeaseVersion w + 1\<rparr> \<and>
          (wh_Status w = st_pending \<or>
           wh_Status w = st_retrying \<and> (\<exists>t. wh_NextRetryAt w = Some t \<and> t \<le> now) \<or>
           wh_Status w = st_processing \<and> (\<exists>t. wh_DeliveryLeaseUntil w = Some t \<and> t \<le> now)) \<and>
          (\<forall>rule \<in> set (t_rules d). fr_Source rule = wh_Source w \<longrightarrow> \<not> fr_Paused rule) \<and>
          \<not> locked (wh_ID w))) \<and>
    (\<forall>k. k \<notin> wh_ID ` set claims \<longrightarrow> find_webhook k d' = find_webhook k d) \<and>
    d' = d\<lparr>t_webhooks := t_webhooks d',
      t_attempts := map (\<lambda>a.
        if da_Status a = st_pending \<and> da_WebhookID a \<in> wh_ID ` set claims \<and>
           (\<exists>w. find_webhook (da_WebhookID a) d = Some w \<and> wh_Status w = st_processing)
        then a\<lparr>da_Status := st_interrupted, da_ErrorMessage := ''delivery worker lease expired'',
               da_CompletedAt := Some now\<rparr>
        else a) (t_attempts d)\<rparr>"
proof (intro conjI ballI allI impI)
  fix c assume c: "c \<in> set claims"
  show "find_webhook (wh_ID c) d' = Some c" by (rule claim_stored [OF assms c])
  from claim_from [OF assms c] obtain w where w: "find_webhook (wh_ID c) d = Some w" "c = claim_copy leaseUntil w"
    "deliverable now w" "\<not> source_paused d (wh_Source w)" "\<not> locked (wh_ID w)" by blast
  show "\<exists>w. find_webhook (wh_ID c) d = Some w \<and>
          c = w\<lparr>wh_Status := st_processing, wh_NextRetryAt := None, wh_DeliveryLeaseUntil := Some leaseUntil,
                 wh_DeliveryLeaseVersion := wh_DeliveryLeaseVersion w + 1\<rparr> \<and>
          (wh_Status w = st_pending \<or>
           wh_Status w = st_retrying \<and> (\<exists>t. wh_NextRetryAt w = Some t \<and> t \<le> now) \<or>
           wh_Status w = st_processing \<and> (\<exists>t. wh_DeliveryLeaseUntil w = Some t \<and> t \<le> now)) \<and>
          (\<forall>rule \<in> set (t_rules d). fr_Source rule = wh_Source w \<longrightarrow> \<not> fr_Paused rule) \<and>
          \<not> locked (wh_ID w)"
  proof (rule exI [of _ w], intro conjI ballI impI)
    show "c = w\<lparr>wh_Status := st_processing, wh_NextRetryAt := None, wh_DeliveryLeaseUntil := Some leaseUntil,
                 wh_DeliveryLeaseVersion := wh_DeliveryLeaseVersion w + 1\<rparr>"
      by (simp add: w(2) claim_copy_def)
    show "wh_Status w = st_pending \<or>
           wh_Status w = st_retrying \<and> (\<exists>t. wh_NextRetryAt w = Some t \<and> t \<le> now) \<or>
           wh_Status w = st_processing \<and> (\<exists>t. wh_DeliveryLeaseUntil w = Some t \<and> t \<le> now)"
      using w(3) by (auto simp: deliverable_def opt_le_def split: option.splits)
    show "\<not> fr_Paused rule" if "rule \<in> set (t_rules d)" "fr_Source rule = wh_Source w" for rule
      using w(4) that by (auto simp: source_paused_def list_ex_iff)
  qed (use w in simp_all)
qed (rule claim_length [OF assms] claim_distinct [OF assms] claim_attempts [OF assms] | erule claim_others [OF assms])+

text \<open>A database with one pending webhook, for the concrete instances below.\<close>

definition demo_webhook :: webhook where
  "demo_webhook = empty_webhook\<lparr>wh_ID := 1, wh_Source := ''s'', wh_Status := st_pending, wh_ReceivedAt := 5\<rparr>"

definition demo_db :: db where
  "demo_db = empty_db\<lparr>t_webhooks := [demo_webhook], seq_webhooks := 1\<rparr>"

definition demo_claim :: webhook where
  "demo_claim = claim_copy 100 demo_webhook"

definition demo_claimed :: db where
  "demo_claimed = demo_db\<lparr>t_webhooks := [demo_claim]\<rparr>"

definition free_rows :: "int \<Rightarrow> bool" where "free_rows k = False"

lemmas demo_defs = demo_db_def demo_webhook_def demo_claim_def demo_claimed_def empty_db_def
  empty_webhook_def free_rows_def

lemma demo_inv: "db_inv demo_db" "db_inv demo_claimed"
  by (simp_all add: demo_defs db_inv_def delivery_inv_def rules_inv_def users_inv_def keys_ok_def
      webhook_ok_def webhook_statuses_def one_pending_def claim_copy_def)

lemma demo_claim_step:
  "ClaimDeliverableWebhooks free_rows no_faults 1 10 100 demo_db = (Inr [demo_claim], demo_claimed)"
  by (simp add: demo_defs ClaimDeliverableWebhooks_def transaction_def claim_body_def claim_select_def
      claimable_def deliverable_def source_paused_def claim_update_def claim_copy_def
      update_webhooks_def update_rows_def)

text \<open>The lease of the claim ran out at 100, with its attempt still pending.\<close>

definition demo_stale :: delivery_attempt where
  "demo_stale = empty_attempt\<lparr>da_ID := 1, da_WebhookID := 1, da_Source := ''s'', da_Status := st_pending\<rparr>"

definition demo_expired :: db where
  "demo_expired = demo_claimed\<lparr>t_attempts := [demo_stale], seq_attempts := 1\<rparr>"

lemma demo_expired_inv: "db_inv demo_expired"
  by (simp add: demo_defs demo_expired_def demo_stale_def empty_attempt_def db_inv_def delivery_inv_def rules_inv_def
      users_inv_def keys_ok_def webhook_ok_def webhook_statuses_def one_pending_def claim_copy_def attempt_ok_def
      attempt_statuses_def attempt_linked_def)

definition demo_reclaimed :: "webhook list \<times> db" where
  "demo_reclaimed = ([claim_copy 200 demo_claim],
     demo_expired\<lparr>t_webhooks := [claim_copy 200 demo_claim], t_attempts := [interrupt_attempt 100 demo_stale]\<rparr>)"

lemma demo_reclaim:
  "ClaimDeliverableWebhooks free_rows no_faults 1 100 200 demo_expired = (Inr (fst demo_reclaimed), snd demo_reclaimed)"
  by (simp add: demo_reclaimed_def demo_expired_def demo_stale_def empty_attempt_def demo_defs
      ClaimDeliverableWebhooks_def transaction_def claim_body_def claim_select_def claimable_def deliverable_def
      source_paused_def claim_update_def claim_copy_def update_webhooks_def update_attempts_def update_rows_def
      interrupt_attempt_def opt_le_def)

theorem claim_correct_witness:
  "length (fst demo_reclaimed) \<le> 1 \<and>
   map da_Status (t_attempts (snd demo_reclaimed)) = [st_interrupted] \<and>
   map wh_DeliveryLeaseVersion (t_webhooks (snd demo_reclaimed)) = [2]"
proof -
  have "find_webhook 1 demo_expired = Some demo_claim" "wh_Status demo_claim = st_processing"
      "wh_ID ` set (fst demo_reclaimed) = {1}" "t_attempts demo_expired = [demo_stale]"
      "da_WebhookID demo_stale = 1" "da_Status demo_stale = st_pending"
    by (simp_all add: find_webhook_def demo_expired_def demo_reclaimed_def demo_stale_def demo_defs claim_copy_def)
  moreover have "map wh_DeliveryLeaseVersion (t_webhooks (snd demo_reclaimed)) = [2]"
    by (simp add: demo_reclaimed_def claim_copy_def demo_defs)
  ultimately show ?thesis
    using claim_correct [OF demo_expired_inv _ demo_reclaim]
    by (auto dest: arg_cong [of _ _ t_attempts])
qed

text \<open>
  No webhook is passed over unfairly. When a claim leaves a claimable webhook behind, it
  returned a full batch, and everything in the batch was due no later than the webhook left
  behind; so with room in the batch every claimable webhook is claimed.
\<close>

theorem claim_is_fair:
  assumes "db_inv d" and "0 < limit"
    and "ClaimDeliverableWebhooks locked f limit now leaseUntil d = (Inr claims, d')"
    and "find_webhook k d = Some v" "claimable locked now d v" "k \<notin> wh_ID ` set claims"
  shows "length claims = nat limit \<and>
    (\<forall>c \<in> set claims. \<exists>w. find_webhook (wh_ID c) d = Some w \<and> claim_order w \<le> claim_order v)"
proof (intro conjI ballI)
  let ?S = "claim_select locked limit now d"
  have c: "claims = map (claim_copy leaseUntil) ?S" by (rule Claim_Inr(1) [OF assms(3,2)])
  note v = find_webhook_Some [OF assms(4)]
  have out: "v \<notin> set ?S" using assms(6) v(2) by (auto simp: c image_image)
  show "length claims = nat limit"
    using claim_select_full [OF _ v(1) assms(5)] out claim_select_length [of locked limit now d]
    by (force simp: c)
  fix x assume "x \<in> set claims"
  then obtain w where w: "w \<in> set ?S" "wh_ID x = wh_ID w" by (auto simp: c)
  then show "\<exists>w. find_webhook (wh_ID x) d = Some w \<and> claim_order w \<le> claim_order v"
    using find_webhook_in [OF db_invD(1) [OF assms(1)]] claim_select_in [OF w(1)]
      claim_select_order [OF w(1) v(1) assms(5) out] by auto
qed

definition demo_late :: webhook where
  "demo_late = demo_webhook\<lparr>wh_ID := 2, wh_ReceivedAt := 7\<rparr>"

definition demo_two :: db where
  "demo_two = empty_db\<lparr>t_webhooks := [demo_late, demo_webhook], seq_webhooks := 2\<rparr>"

lemma demo_two_inv: "db_inv demo_two"
  by (simp add: demo_defs demo_two_def demo_late_def db_inv_def delivery_inv_def rules_inv_def
      users_inv_def keys_ok_def webhook_ok_def webhook_statuses_def one_pending_def)

lemma demo_two_claim:
  "ClaimDeliverableWebhooks free_rows no_faults 1 10 100 demo_two =
     (Inr [demo_claim], demo_two\<lparr>t_webhooks := [demo_late, demo_claim]\<rparr>)"
  by (simp add: demo_defs demo_two_def demo_late_def ClaimDeliverableWebhooks_def transaction_def
      claim_body_def claim_select_def claimable_def deliverable_def source_paused_def claim_update_def
      claim_copy_def update_webhooks_def update_rows_def claim_order_def)

theorem claim_is_fair_witness:
  "length [demo_claim] = nat 1 \<and>
    (\<exists>w. find_webhook (wh_ID demo_claim) demo_two = Some w \<and> claim_order w \<le> claim_order demo_late)"
proof -
  have "find_webhook 2 demo_two = Some demo_late"
    by (simp add: find_webhook_def demo_two_def demo_late_def)
  moreover have "claimable free_rows 10 demo_two demo_late"
    by (simp add: claimable_def deliverable_def source_paused_def demo_two_def demo_late_def demo_defs)
  moreover have "2 \<notin> wh_ID ` set [demo_claim]" by (simp add: demo_defs)
  ultimately show ?thesis using claim_is_fair [OF demo_two_inv _ demo_two_claim] by simp
qed

section \<open>What finishing a delivery guarantees\<close>

definition find_attempt :: "int \<Rightarrow> db \<Rightarrow> delivery_attempt option" where
  "find_attempt k d = find (\<lambda>a. da_ID a = k) (t_attempts d)"

text \<open>The lease a worker holds on a stored webhook: same version, \<open>processing\<close>, not expired.\<close>

definition holds_lease :: "db \<Rightarrow> time \<Rightarrow> webhook \<Rightarrow> bool" where
  "holds_lease d now claim \<longleftrightarrow>
     (\<exists>w. find_webhook (wh_ID claim) d = Some w \<and> 0 < wh_DeliveryLeaseVersion claim \<and>
        wh_DeliveryLeaseVersion w = wh_DeliveryLeaseVersion claim \<and> wh_Status w = st_processing \<and>
        \<not> lease_over (wh_DeliveryLeaseUntil w) now)"

lemma lockDeliveryLease_holds:
  "lockDeliveryLease failed now claim d = Inr w \<longleftrightarrow>
     \<not> failed \<and> holds_lease d now claim \<and> find_webhook (wh_ID claim) d = Some w"
  using lockDeliveryLease_iff [of now claim d w]
  by (cases failed) (auto simp: holds_lease_def lockDeliveryLease_def lockWebhook_def)

lemma find_attempt_Some:
  assumes "find_attempt k d = Some a" shows "a \<in> set (t_attempts d)" and "da_ID a = k"
  using assms by (auto simp: find_attempt_def dest: find_Some_in)

lemma find_attempt_in:
  assumes "delivery_inv d" "a \<in> set (t_attempts d)" shows "find_attempt (da_ID a) d = Some a"
  using assms find_distinct_key unfolding delivery_inv_def keys_ok_def find_attempt_def by metis

lemma find_attempt_frame [simp]:
  "find_attempt k (update_webhooks P g d) = find_attempt k d"
  "find_attempt k (d\<lparr>t_webhooks := ws\<rparr>) = find_attempt k d"
  by (simp_all add: find_attempt_def)

lemma find_attempt_update:
  assumes "\<And>a. da_ID (g a) = da_ID a"
  shows "find_attempt k (update_attempts P g d) = map_option (\<lambda>a. if P a then g a else a) (find_attempt k d)"
  unfolding find_attempt_def update_attempts_frame by (rule da_table.find_update) (rule assms)

lemma Finish_Inr:
  assumes "FinishDelivery f clk claim attemptID result d = (Inr u, d')"
  shows "finish_body f clk claim attemptID result d = Inr (u, d')"
    and "res_Status result \<in> {st_success, st_failed, st_cancelled, st_skipped}"
    and "\<not> lease_over (wh_DeliveryLeaseUntil claim) (clk 0)"
  using assms by (auto simp: FinishDelivery_def transaction_ok split: if_splits)

lemma finish_facts:
  assumes "db_inv d" and "FinishDelivery f clk claim attemptID result d = (Inr u, d')"
  shows "holds_lease d (clk 1) claim \<and>
    (\<exists>w a. find_webhook (wh_ID claim) d = Some w \<and> find_attempt attemptID d = Some a \<and>
       da_WebhookID a = wh_ID w \<and> da_Status a = st_pending \<and>
       find_webhook (wh_ID claim) d' = Some (finish_updates result (clk 2) w) \<and>
       find_attempt attemptID d' = Some (complete_attempt result (clk 2) a)) \<and>
    (\<forall>k. k \<noteq> wh_ID claim \<longrightarrow> find_webhook k d' = find_webhook k d) \<and>
    (\<forall>k. k \<noteq> attemptID \<longrightarrow> find_attempt k d' = find_attempt k d) \<and>
    \<not> (\<exists>a \<in> set (t_attempts d'). da_WebhookID a = wh_ID claim \<and> da_Status a = st_pending)"
proof -
  note inv = db_invD(1) [OF assms(1)]
  from Finish_Inr(1) [OF assms(2)] obtain w P
    where w: "lockDeliveryLease (fails f 0) (clk 1) claim d = Inr w"
    and P: "P = (\<lambda>a. da_ID a = attemptID \<and> da_WebhookID a = wh_ID w \<and> da_Status a = st_pending)"
    and one: "rows_affected P (t_attempts d) = 1"
    and d': "d' = update_webhooks (\<lambda>x. wh_ID x = wh_ID w) (finish_updates result (clk 2))
            (update_attempts P (complete_attempt result (clk 2)) d)"
    by (rule finish_body_Inr)
  have fw: "find_webhook (wh_ID claim) d = Some w" and h: "holds_lease d (clk 1) claim"
    using w by (simp_all add: lockDeliveryLease_holds)
  have wid: "wh_ID w = wh_ID claim" by (rule find_webhook_Some(2) [OF fw])
  obtain a where a: "a \<in> set (t_attempts d)" "P a"
    using one rows_affected_pos [of P "t_attempts d"] by auto
  have fa: "find_attempt attemptID d = Some a" using find_attempt_in [OF inv a(1)] a(2) P by simp
  have fin_w: "find_webhook k d' = map_option
      (\<lambda>x. if wh_ID x = wh_ID w then finish_updates result (clk 2) x else x) (find_webhook k d)" for k
    unfolding d' by (subst find_webhook_update) simp_all
  have fin_a: "find_attempt k d' = map_option
      (\<lambda>x. if P x then complete_attempt result (clk 2) x else x) (find_attempt k d)" for k
    unfolding d' by (simp add: find_attempt_update)
  have "find_webhook (wh_ID claim) d' = Some (finish_updates result (clk 2) w)"
    by (simp add: fin_w fw)
  moreover have "find_attempt attemptID d' = Some (complete_attempt result (clk 2) a)"
    using a(2) by (simp add: fin_a fa)
  moreover have "find_webhook k d' = find_webhook k d" if "k \<noteq> wh_ID claim" for k
    using that find_webhook_Some(2) [of k d] wid by (cases "find_webhook k d") (auto simp: fin_w)
  moreover have "find_attempt k d' = find_attempt k d" if "k \<noteq> attemptID" for k
    using that find_attempt_Some(2) [of k d] P by (cases "find_attempt k d") (auto simp: fin_a)
  moreover have "\<not> (\<exists>b \<in> set (t_attempts d'). da_WebhookID b = wh_ID claim \<and> da_Status b = st_pending)"
  proof
    assume "\<exists>b \<in> set (t_attempts d'). da_WebhookID b = wh_ID claim \<and> da_Status b = st_pending"
    then obtain b where b: "b \<in> set (t_attempts d')" "da_WebhookID b = wh_ID claim" "da_Status b = st_pending"
      by blast
    have "db_inv d'" by (rule db_inv_Finish [OF assms])
    moreover have "find_webhook (wh_ID claim) d' = Some (finish_updates result (clk 2) w)"
      by (simp add: fin_w fw)
    ultimately have "wh_Status (finish_updates result (clk 2) w) = st_processing"
      using pending_processing [OF db_invD(1) find_webhook_Some(1) b(1) _ b(3)] wid b(2) by simp
    then show False using Finish_Inr(2) [OF assms(2)]
      by (elim insertE; cases "res_NextRetryAt result") (simp_all add: finish_updates_def Let_def)
  qed
  ultimately show ?thesis using h fw fa a(2) P by blast
qed

text \<open>The rows of the attempts: exactly the attempt named is completed.\<close>

lemma finish_rows:
  assumes "db_inv d" and "FinishDelivery f clk claim attemptID result d = (Inr u, d')"
  shows "t_attempts d' = map (\<lambda>a. if da_ID a = attemptID then complete_attempt result (clk 2) a else a) (t_attempts d)"
proof -
  note inv = db_invD(1) [OF assms(1)]
  from Finish_Inr(1) [OF assms(2)] obtain w P
    where "lockDeliveryLease (fails f 0) (clk 1) claim d = Inr w"
    and P: "P = (\<lambda>a. da_ID a = attemptID \<and> da_WebhookID a = wh_ID w \<and> da_Status a = st_pending)"
    and one: "rows_affected P (t_attempts d) = 1"
    and d': "d' = update_webhooks (\<lambda>x. wh_ID x = wh_ID w) (finish_updates result (clk 2))
            (update_attempts P (complete_attempt result (clk 2)) d)"
    by (rule finish_body_Inr)
  obtain a where a: "a \<in> set (t_attempts d)" "P a"
    using one rows_affected_pos [of P "t_attempts d"] by auto
  have "P b \<longleftrightarrow> da_ID b = attemptID" if "b \<in> set (t_attempts d)" for b
  proof
    assume id: "da_ID b = attemptID"
    have "da_ID a = attemptID" using a(2) by (simp add: P)
    then have "b = a" using find_attempt_in [OF inv a(1)] find_attempt_in [OF inv that] id by simp
    then show "P b" using a(2) by simp
  qed (simp add: P)
  then show ?thesis by (simp add: d' update_webhooks_def update_attempts_def update_rows_def)
qed

text \<open>
  Recording a result takes effect only for the current lease holder, and then completely.
  A \<open>FinishDelivery\<close> that returns no error was called under an unexpired lease of the stored
  version, closes the pending attempt it names with the result, moves the webhook on, leaves
  no attempt of it pending, and touches no other webhook and no other attempt.
\<close>

theorem finish_effect:
  assumes "db_inv d" and "FinishDelivery f clk claim attemptID result d = (Inr u, d')"
  shows "holds_lease d (clk 1) claim \<and>
    (\<exists>w a. find_webhook (wh_ID claim) d = Some w \<and> find_attempt attemptID d = Some a \<and>
       da_WebhookID a = wh_ID w \<and> da_Status a = st_pending \<and>
       find_webhook (wh_ID claim) d' = Some (finish_updates result (clk 2) w) \<and>
       find_attempt attemptID d' = Some (complete_attempt result (clk 2) a)) \<and>
    (\<forall>k. k \<noteq> wh_ID claim \<longrightarrow> find_webhook k d' = find_webhook k d) \<and>
    (\<forall>k. k \<noteq> attemptID \<longrightarrow> find_attempt k d' = find_attempt k d) \<and>
    \<not> (\<exists>a \<in> set (t_attempts d'). da_WebhookID a = wh_ID claim \<and> da_Status a = st_pending)"
  using assms by (rule finish_facts)

text \<open>The demonstration continued: an attempt is opened at instant 20 and fails at 30.\<close>

definition demo_clock :: "nat \<Rightarrow> time" where "demo_clock n = 20"

definition demo_attempt :: delivery_attempt where
  "demo_attempt = empty_attempt\<lparr>da_ID := 1, da_WebhookID := 1, da_Source := ''s'', da_Target := ''t'',
     da_Status := st_pending, da_StartedAt := 20\<rparr>"

definition demo_open :: db where
  "demo_open = demo_claimed\<lparr>t_attempts := [demo_attempt], seq_attempts := 1\<rparr>"

definition demo_result :: delivery_result where
  "demo_result = \<lparr>res_Status = st_failed, res_Response = empty_response, res_ErrorMessage = ''e'',
     res_DurationMS = 1, res_NextRetryAt = Some 40\<rparr>"

definition demo_done :: db where
  "demo_done = demo_open\<lparr>t_webhooks := [finish_updates demo_result 20 demo_claim],
     t_attempts := [complete_attempt demo_result 20 demo_attempt]\<rparr>"

lemma demo_claim_fields:
  "wh_ID demo_claim = 1" "wh_Source demo_claim = ''s''" "wh_Status demo_claim = st_processing"
  "wh_DeliveryLeaseUntil demo_claim = Some 100" "wh_DeliveryLeaseVersion demo_claim = 1"
  by (simp_all add: demo_defs claim_copy_def)

lemma demo_claimed_tables:
  "t_webhooks demo_claimed = [demo_claim]" "t_attempts demo_claimed = []" "seq_attempts demo_claimed = 0"
  "t_webhooks demo_open = [demo_claim]" "t_attempts demo_open = [demo_attempt]" "seq_attempts demo_open = 1"
  by (simp_all add: demo_open_def demo_claimed_def demo_db_def empty_db_def)

lemma demo_attempt_fields:
  "da_ID demo_attempt = 1" "da_WebhookID demo_attempt = 1" "da_Source demo_attempt = ''s''"
  "da_Status demo_attempt = st_pending" "da_CompletedAt demo_attempt = None"
  by (simp_all add: demo_attempt_def empty_attempt_def)

lemmas demo_facts = demo_claim_fields demo_claimed_tables demo_attempt_fields

lemma demo_create_step:
  "CreateDeliveryAttempt no_faults demo_clock demo_claim ''t'' demo_claimed = (Inr 1, demo_open)"
  by (simp add: CreateDeliveryAttempt_def lease_over_def demo_facts demo_clock_def transaction_def
      create_body_def lockDeliveryLease_def lockWebhook_def find_webhook_def rows_affected_def
      insert_attempt_def insert_row_def new_pending_attempt_def empty_attempt_def set_da_ID_def
      demo_open_def demo_attempt_def Let_def)

lemma demo_open_inv: "db_inv demo_open"
  by (rule db_inv_Create [OF demo_inv(2) demo_create_step])

lemma demo_finish_step:
  "FinishDelivery no_faults demo_clock demo_claim 1 demo_result demo_open = (Inr (), demo_done)"
  by (simp add: FinishDelivery_def lease_over_def demo_facts demo_clock_def transaction_def
      finish_body_def lockDeliveryLease_def lockWebhook_def find_webhook_def rows_affected_def
      update_webhooks_def update_attempts_def update_rows_def demo_done_def Let_def)
    (simp add: demo_result_def)

theorem finish_effect_witness:
  "holds_lease demo_open (demo_clock 1) demo_claim \<and>
    (\<exists>w a. find_webhook (wh_ID demo_claim) demo_open = Some w \<and> find_attempt 1 demo_open = Some a \<and>
       da_WebhookID a = wh_ID w \<and> da_Status a = st_pending \<and>
       find_webhook (wh_ID demo_claim) demo_done = Some (finish_updates demo_result (demo_clock 2) w) \<and>
       find_attempt 1 demo_done = Some (complete_attempt demo_result (demo_clock 2) a)) \<and>
    \<not> (\<exists>a \<in> set (t_attempts demo_done). da_WebhookID a = wh_ID demo_claim \<and> da_Status a = st_pending)"
  using finish_effect [OF demo_open_inv demo_finish_step] by blast

lemma create_facts:
  assumes "db_inv d" and "CreateDeliveryAttempt f clk claim target d = (Inr k, d')"
  shows "holds_lease d (clk 1) claim \<and>
    \<not> (\<exists>a \<in> set (t_attempts d). da_WebhookID a = wh_ID claim \<and> da_Status a = st_pending) \<and>
    find_attempt k d = None \<and>
    (\<exists>a w. find_attempt k d' = Some a \<and> find_webhook (wh_ID claim) d = Some w \<and>
       a = (new_pending_attempt w target (clk 2))\<lparr>da_ID := k\<rparr> \<and> t_attempts d' = t_attempts d @ [a]) \<and>
    t_webhooks d' = t_webhooks d"
proof -
  note inv = db_invD(1) [OF assms(1)]
  obtain a where body: "create_body f clk claim target d = Inr (a, d')" and k: "k = da_ID a"
    using assms(2) by (auto simp: CreateDeliveryAttempt_def transaction_ok split: if_splits prod.splits sum.splits)
  from body obtain w where w: "lockDeliveryLease (fails f 0) (clk 1) claim d = Inr w"
    and free: "rows_affected (\<lambda>a. da_WebhookID a = wh_ID w \<and> da_Status a = st_pending) (t_attempts d) = 0"
    and ins: "insert_attempt (new_pending_attempt w target (clk 2)) d = Inr (a, d')"
    by (rule create_body_Inr)
  note i = insert_attempt_inv [OF inv lockDeliveryLease_Inr(2) [OF w] lockDeliveryLease_Inr(6) [OF w] free ins]
  have fw: "find_webhook (wh_ID claim) d = Some w" and h: "holds_lease d (clk 1) claim"
    using w by (simp_all add: lockDeliveryLease_holds)
  have wid: "wh_ID w = wh_ID claim" by (rule find_webhook_Some(2) [OF fw])
  have key: "k = seq_attempts d + 1" using k i(2) by simp
  have below: "da_ID b \<le> seq_attempts d" if "b \<in> set (t_attempts d)" for b
    using that delivery_invD(2) [OF inv] by (simp add: keys_ok_def)
  have "find_attempt k d = None"
    using find_attempt_Some [of k d] below key by (cases "find_attempt k d") force+
  moreover have "find_attempt k d' = Some a" using find_attempt_in [OF i(1), of a] i(3) k by simp
  moreover have "\<not> (\<exists>a \<in> set (t_attempts d). da_WebhookID a = wh_ID claim \<and> da_Status a = st_pending)"
    using free rows_affected_pos [of "\<lambda>a. da_WebhookID a = wh_ID w \<and> da_Status a = st_pending" "t_attempts d"]
    unfolding wid by blast
  moreover have "a = (new_pending_attempt w target (clk 2))\<lparr>da_ID := k\<rparr>" using i(2) key by simp
  moreover have "t_attempts d' = t_attempts d @ [a]" "t_webhooks d' = t_webhooks d"
    by (simp_all add: i(3))
  ultimately show ?thesis using h fw by blast
qed

text \<open>
  Opening an attempt takes effect only for the current lease holder of a webhook with no
  pending attempt. It stores one new attempt, pending, for that webhook's id and source, and
  changes neither the webhook rows nor any earlier attempt.
\<close>

theorem create_attempt_effect:
  assumes "db_inv d" and "CreateDeliveryAttempt f clk claim target d = (Inr k, d')"
  shows "holds_lease d (clk 1) claim \<and>
    \<not> (\<exists>a \<in> set (t_attempts d). da_WebhookID a = wh_ID claim \<and> da_Status a = st_pending) \<and>
    find_attempt k d = None \<and>
    (\<exists>a w. find_attempt k d' = Some a \<and> find_webhook (wh_ID claim) d = Some w \<and>
       a = (new_pending_attempt w target (clk 2))\<lparr>da_ID := k\<rparr> \<and> t_attempts d' = t_attempts d @ [a]) \<and>
    t_webhooks d' = t_webhooks d"
  using assms by (rule create_facts)

theorem create_attempt_effect_witness:
  "holds_lease demo_claimed (demo_clock 1) demo_claim \<and>
    \<not> (\<exists>a \<in> set (t_attempts demo_claimed). da_WebhookID a = wh_ID demo_claim \<and> da_Status a = st_pending) \<and>
    find_attempt 1 demo_claimed = None \<and>
    (\<exists>a w. find_attempt 1 demo_open = Some a \<and> find_webhook (wh_ID demo_claim) demo_claimed = Some w \<and>
       a = (new_pending_attempt w ''t'' (demo_clock 2))\<lparr>da_ID := 1\<rparr> \<and>
       t_attempts demo_open = t_attempts demo_claimed @ [a]) \<and>
    t_webhooks demo_open = t_webhooks demo_claimed"
  by (rule create_attempt_effect [OF demo_inv(2) demo_create_step])

section \<open>Fencing and progress\<close>

lemma lockDeliveryLease_lost:
  assumes "\<not> holds_lease d now claim"
  shows "\<exists>e \<in> {ErrLeaseLost, ErrDatabase}. lockDeliveryLease failed now claim d = Inl e"
proof (cases "lockDeliveryLease failed now claim d")
  case (Inl e)
  then show ?thesis using lockDeliveryLease_errors [OF Inl] by auto
next
  case (Inr w)
  then show ?thesis using assms by (simp add: lockDeliveryLease_holds)
qed

text \<open>
  C13: a worker that lost its lease (it expired, another worker claimed the webhook again, or an
  operator reset or deleted it) can no longer change anything: both opening an attempt and
  recording a result are refused, whatever the database does, and leave every table as it was.
\<close>

theorem stale_worker_fenced:
  assumes "\<not> holds_lease d (clk 1) claim"
  shows "(\<exists>e \<in> {ErrLeaseLost, ErrDatabase}. CreateDeliveryAttempt f clk claim target d = (Inl e, d)) \<and>
    (\<exists>e \<in> {ErrLeaseLost, ErrDatabase, ErrText ''invalid delivery result status''}.
       FinishDelivery f clk claim attemptID result d = (Inl e, d))"
proof -
  obtain e where e: "e \<in> {ErrLeaseLost, ErrDatabase}"
    "lockDeliveryLease (fails f 0) (clk 1) claim d = Inl e"
    using lockDeliveryLease_lost [OF assms] by blast
  then have "create_body f clk claim target d = Inl e" "finish_body f clk claim attemptID result d = Inl e"
    by (simp_all add: create_body_def finish_body_def)
  then have "transaction f (create_body f clk claim target) d = (Inl e, d)"
    "transaction f (finish_body f clk claim attemptID result) d = (Inl e, d)"
    by (simp_all add: transaction_body_error)
  then show ?thesis using e(1) by (auto simp: CreateDeliveryAttempt_def FinishDelivery_def)
qed

theorem stale_worker_fenced_witness:
  "(\<exists>e \<in> {ErrLeaseLost, ErrDatabase}.
      CreateDeliveryAttempt no_faults (\<lambda>n. 200) demo_claim ''t'' demo_open = (Inl e, demo_open)) \<and>
    (\<exists>e \<in> {ErrLeaseLost, ErrDatabase, ErrText ''invalid delivery result status''}.
       FinishDelivery no_faults (\<lambda>n. 200) demo_claim 1 demo_result demo_open = (Inl e, demo_open))"
  by (rule stale_worker_fenced) (simp add: holds_lease_def find_webhook_def demo_facts lease_over_def)

lemma create_succeeds:
  assumes "db_inv d" and "holds_lease d (clk 1) claim" and "\<not> lease_over (wh_DeliveryLeaseUntil claim) (clk 0)"
    and "\<And>a. a \<in> set (t_attempts d) \<Longrightarrow> da_WebhookID a = wh_ID claim \<Longrightarrow> da_Status a \<noteq> st_pending"
  shows "\<exists>k d'. CreateDeliveryAttempt no_faults clk claim target d = (Inr k, d')"
proof -
  note inv = db_invD(1) [OF assms(1)]
  obtain w where w: "lockDeliveryLease False (clk 1) claim d = Inr w"
    using assms(2) by (auto simp: lockDeliveryLease_holds holds_lease_def)
  have free: "rows_affected (\<lambda>a. da_WebhookID a = wh_ID w \<and> da_Status a = st_pending) (t_attempts d) = 0"
    using assms(4) lockDeliveryLease_Inr(3) [OF w] by (auto simp: rows_affected_def filter_empty_conv)
  have "insert_row da_ID set_da_ID (new_pending_attempt w target (clk 2)) (seq_attempts d) (t_attempts d) =
      Inr (set_da_ID (seq_attempts d + 1) (new_pending_attempt w target (clk 2)), seq_attempts d + 1,
           t_attempts d @ [set_da_ID (seq_attempts d + 1) (new_pending_attempt w target (clk 2))])"
    using delivery_invD(2) [OF inv]
    by (intro da_table.insert_fresh) (auto simp: keys_ok_def new_pending_attempt_def empty_attempt_def)
  then show ?thesis using free assms(3)
    by (simp add: CreateDeliveryAttempt_def transaction_def create_body_def w [simplified] insert_attempt_def)
qed

lemma finish_succeeds:
  assumes "db_inv d" and "holds_lease d (clk 1) claim" and "\<not> lease_over (wh_DeliveryLeaseUntil claim) (clk 0)"
    and a: "a \<in> set (t_attempts d)" "da_WebhookID a = wh_ID claim" "da_Status a = st_pending"
    and st: "res_Status result \<in> {st_success, st_failed, st_cancelled, st_skipped}"
  shows "\<exists>d'. FinishDelivery no_faults clk claim (da_ID a) result d = (Inr (), d')"
proof -
  note inv = db_invD(1) [OF assms(1)]
  obtain w where w: "lockDeliveryLease False (clk 1) claim d = Inr w"
    using assms(2) by (auto simp: lockDeliveryLease_holds holds_lease_def)
  note wid = lockDeliveryLease_Inr(3) [OF w]
  let ?P = "\<lambda>b. da_ID b = da_ID a \<and> da_WebhookID b = wh_ID w \<and> da_Status b = st_pending"
  have "?P b \<longleftrightarrow> da_ID b = da_ID a" if "b \<in> set (t_attempts d)" for b
    using distinct_map_eqD [OF _ that a(1)] delivery_invD(2) [OF inv] a wid by (auto simp: keys_ok_def)
  then have "filter ?P (t_attempts d) = filter (\<lambda>b. da_ID b = da_ID a) (t_attempts d)"
    by (intro filter_cong) auto
  then have "rows_affected ?P (t_attempts d) = 1"
    using filter_distinct_key [of da_ID "t_attempts d" a] delivery_invD(2) [OF inv] a(1)
    by (simp add: rows_affected_def keys_ok_def)
  then show ?thesis
    using st assms(3) by (simp add: FinishDelivery_def transaction_def finish_body_def w [simplified] Let_def)
qed

text \<open>
  C38: a worker that holds its lease gets its work recorded. With a working database, it can
  open an attempt on a webhook that has none pending, and record any valid result for the
  pending attempt of its webhook.
\<close>

theorem lease_holder_succeeds:
  assumes "db_inv d" and "holds_lease d (clk 1) claim" and "\<not> lease_over (wh_DeliveryLeaseUntil claim) (clk 0)"
  shows "((\<exists>a \<in> set (t_attempts d). da_WebhookID a = wh_ID claim \<and> da_Status a = st_pending) \<or>
          (\<exists>k d'. CreateDeliveryAttempt no_faults clk claim target d = (Inr k, d'))) \<and>
    (\<forall>a \<in> set (t_attempts d). da_WebhookID a = wh_ID claim \<longrightarrow> da_Status a = st_pending \<longrightarrow>
       res_Status result \<in> {st_success, st_failed, st_cancelled, st_skipped} \<longrightarrow>
       (\<exists>d'. FinishDelivery no_faults clk claim (da_ID a) result d = (Inr (), d')))"
  using create_succeeds [OF assms] finish_succeeds [OF assms] by blast

theorem lease_holder_succeeds_witness:
  "\<exists>d'. FinishDelivery no_faults demo_clock demo_claim 1 demo_result demo_open = (Inr (), d')"
proof -
  have "holds_lease demo_open (demo_clock 1) demo_claim" "\<not> lease_over (wh_DeliveryLeaseUntil demo_claim) (demo_clock 0)"
    by (simp_all add: holds_lease_def find_webhook_def demo_facts lease_over_def demo_clock_def)
  from lease_holder_succeeds [OF demo_open_inv this, of undefined demo_result]
  show ?thesis by (simp add: demo_facts demo_result_def)
qed

end
