(* ===== verification/BulkReplay.thy ===== *)
theory BulkReplay
  imports DbInv
begin

text \<open>
  \<open>internal/storage/db_bulk_replay.go\<close> and the form parsing of
  \<open>internal/handler/bulk_replay.go\<close>: requeueing a selection of dead-lettered webhooks.
  The two loops that collect distinct ids keep a set \<open>seen\<close> beside the list they build, as
  the code does; \<open>collected\<close> is the relation between the two.
\<close>

definition MaxBulkReplay :: nat where "MaxBulkReplay = 20"

record bulk_replay_result =
  Requeued :: int
  Skipped :: int

fun unique_ids :: "int list \<Rightarrow> int set \<Rightarrow> int list \<Rightarrow> go_error + int list" where
  "unique_ids [] seen unique = Inr unique"
| "unique_ids (k # ids) seen unique =
     (if k \<le> 0 then Inl (ErrText ''invalid webhook ID'')
      else if k \<notin> seen then unique_ids ids (insert k seen) (unique @ [k])
      else unique_ids ids seen unique)"

definition eligible_ids :: "int list \<Rightarrow> db \<Rightarrow> int list" where
  "eligible_ids unique d =
     sort (map wh_ID (filter (\<lambda>w. wh_ID w \<in> set unique \<and> wh_Status w = st_dead_lettered) (t_webhooks d)))"

definition bulk_body :: "faults \<Rightarrow> int list \<Rightarrow> db \<Rightarrow> go_error + bulk_replay_result \<times> db" where
  "bulk_body f unique d =
     (if fails f 0 then Inl ErrDatabase
      else
        (let eligible = eligible_ids unique d;
             skipped = int (length unique) - int (length eligible)
         in if eligible = [] then Inr (\<lparr>Requeued = 0, Skipped = skipped\<rparr>, d)
            else exec (fails f 1)
              (\<lparr>Requeued = int (rows_affected (\<lambda>w. wh_ID w \<in> set eligible) (t_webhooks d)), Skipped = skipped\<rparr>,
               update_webhooks (\<lambda>w. wh_ID w \<in> set eligible) replayUpdates d)))"

definition BulkReplayDeadLetters ::
    "faults \<Rightarrow> int list \<Rightarrow> db \<Rightarrow> (go_error + bulk_replay_result) \<times> db" where
  "BulkReplayDeadLetters f ids d =
     (case unique_ids ids {} [] of
        Inl e \<Rightarrow> (Inl e, d)
      | Inr unique \<Rightarrow>
          if unique = [] \<or> length unique > MaxBulkReplay
          then (Inl (ErrText ''select between 1 and 20 webhooks''), d)
          else transaction f (bulk_body f unique) d)"

fun parse_bulk_loop :: "string list \<Rightarrow> int set \<Rightarrow> int list \<Rightarrow> go_error + int list" where
  "parse_bulk_loop [] seen ids = Inr ids"
| "parse_bulk_loop (raw # values) seen ids =
     (case Atoi raw of
        None \<Rightarrow> Inl (ErrText ''Invalid webhook ID'')
      | Some k \<Rightarrow>
          if k \<le> 0 then Inl (ErrText ''Invalid webhook ID'')
          else
            (let (seen', ids') = (if k \<notin> seen then (insert k seen, ids @ [k]) else (seen, ids))
             in if length ids' > MaxBulkReplay then Inl (ErrText ''Select at most 20 webhooks'')
                else parse_bulk_loop values seen' ids'))"

definition parseBulkReplayIDs :: "string list \<Rightarrow> go_error + int list" where
  "parseBulkReplayIDs values =
     (case parse_bulk_loop values {} [] of
        Inl e \<Rightarrow> Inl e
      | Inr ids \<Rightarrow> if ids = [] then Inl (ErrText ''Select at least one webhook'') else Inr ids)"

section \<open>The loops\<close>

definition collected :: "int list \<Rightarrow> int list \<Rightarrow> bool" where
  "collected ids unique \<longleftrightarrow> distinct unique \<and> set unique = set ids \<and> (\<forall>k \<in> set ids. 0 < k)"

lemma unique_ids_loop:
  assumes "unique_ids ids (set unique) unique = Inr u" and "distinct unique"
  shows "distinct u \<and> set u = set unique \<union> set ids \<and> (\<forall>k \<in> set ids. 0 < k)"
  using assms
proof (induction ids arbitrary: unique)
  case (Cons k ids)
  have "0 < k" using Cons.prems(1) by (auto split: if_splits)
  show ?case
  proof (cases "k \<in> set unique")
    case True
    then have "unique_ids ids (set unique) unique = Inr u" using Cons.prems(1) by (simp split: if_splits)
    from Cons.IH [OF this Cons.prems(2)] show ?thesis using True \<open>0 < k\<close> by auto
  next
    case False
    then have "unique_ids ids (set (unique @ [k])) (unique @ [k]) = Inr u"
      using Cons.prems(1) by (simp split: if_splits)
    from Cons.IH [OF this] show ?thesis using False Cons.prems(2) \<open>0 < k\<close> by auto
  qed
qed simp

lemma unique_ids_Inr: "unique_ids ids {} [] = Inr unique \<Longrightarrow> collected ids unique"
  using unique_ids_loop [of ids "[]"] by (simp add: collected_def)

lemma unique_ids_total:
  "(\<And>k. k \<in> set ids \<Longrightarrow> 0 < k) \<Longrightarrow> \<exists>u. unique_ids ids seen unique = Inr u"
  by (induction ids arbitrary: seen unique) (simp_all, fastforce)

lemma parse_bulk_step:
  assumes "Atoi raw = Some k" "0 < k" and "ids' = (if k \<in> set ids then ids else ids @ [k])"
  shows "parse_bulk_loop (raw # values) (set ids) ids =
    (if length ids' > MaxBulkReplay then Inl (ErrText ''Select at most 20 webhooks'')
     else parse_bulk_loop values (set ids') ids')"
  using assms by (auto simp: Let_def)

lemma parse_bulk_loop_Inr:
  assumes "parse_bulk_loop values (set ids) ids = Inr r" and "distinct ids" and "length ids \<le> MaxBulkReplay"
  shows "distinct r \<and> length r \<le> MaxBulkReplay \<and>
    (\<forall>v \<in> set values. \<exists>k > 0. Atoi v = Some k) \<and> set r = set ids \<union> (the \<circ> Atoi) ` set values"
  using assms
proof (induction "values" arbitrary: ids)
  case (Cons raw rest)
  obtain k where k: "Atoi raw = Some k" "0 < k"
    using Cons.prems(1) by (auto split: option.splits if_splits)
  define ids' where "ids' = (if k \<in> set ids then ids else ids @ [k])"
  note step = parse_bulk_step [OF k ids'_def, of rest]
  have "length ids' \<le> MaxBulkReplay" "parse_bulk_loop rest (set ids') ids' = Inr r"
    using Cons.prems(1) unfolding step by (simp_all split: if_splits)
  moreover have "distinct ids'" "set ids' = insert k (set ids)"
    using Cons.prems(2) by (auto simp: ids'_def)
  ultimately show ?case using Cons.IH [of ids'] k by auto
qed simp

lemma parse_bulk_loop_accepts:
  assumes "\<And>v. v \<in> set values \<Longrightarrow> \<exists>k > 0. Atoi v = Some k"
    and "distinct ids" and "card (set ids \<union> (the \<circ> Atoi) ` set values) \<le> MaxBulkReplay"
  shows "\<exists>r. parse_bulk_loop values (set ids) ids = Inr r"
  using assms
proof (induction "values" arbitrary: ids)
  case (Cons raw rest)
  obtain k where k: "Atoi raw = Some k" "0 < k" using Cons.prems(1) [of raw] by auto
  define ids' where "ids' = (if k \<in> set ids then ids else ids @ [k])"
  have d: "distinct ids'" and s: "set ids' = insert k (set ids)"
    using Cons.prems(2) by (auto simp: ids'_def)
  have all: "set ids' \<union> (the \<circ> Atoi) ` set rest = set ids \<union> (the \<circ> Atoi) ` set (raw # rest)"
    using k s by auto
  have "card (set ids') \<le> card (set ids' \<union> (the \<circ> Atoi) ` set rest)" by (rule card_mono) auto
  then have "card (set ids') \<le> MaxBulkReplay"
    using Cons.prems(3) unfolding all by (rule le_trans)
  then have "length ids' \<le> MaxBulkReplay" by (simp add: distinct_card [OF d])
  moreover have "\<exists>r. parse_bulk_loop rest (set ids') ids' = Inr r"
    using Cons.IH [of ids'] Cons.prems(1,3) d all by simp
  ultimately show ?case unfolding parse_bulk_step [OF k ids'_def] by simp
qed simp

text \<open>
  The form of a bulk replay is accepted exactly when every value is a positive decimal
  integer and they name between 1 and 20 different webhooks; the ids passed on are then those,
  each once.
\<close>

theorem parse_bulk_correct:
  "(case parseBulkReplayIDs values of
      Inl _ \<Rightarrow> \<not> (values \<noteq> [] \<and> (\<forall>v \<in> set values. \<exists>k > 0. Atoi v = Some k) \<and>
                 card ((the \<circ> Atoi) ` set values) \<le> 20)
    | Inr ids \<Rightarrow> values \<noteq> [] \<and> (\<forall>v \<in> set values. \<exists>k > 0. Atoi v = Some k) \<and>
        distinct ids \<and> set ids = (the \<circ> Atoi) ` set values \<and> 1 \<le> length ids \<and> length ids \<le> 20)"
proof (cases "parseBulkReplayIDs values")
  case (Inr ids)
  then have r: "parse_bulk_loop values (set []) [] = Inr ids" and ne: "ids \<noteq> []"
    by (auto simp: parseBulkReplayIDs_def split: sum.splits if_splits)
  have "values \<noteq> []" using r ne by auto
  moreover have "1 \<le> length ids" using ne by (simp add: Suc_le_eq)
  ultimately show ?thesis using parse_bulk_loop_Inr [OF r] Inr by (simp add: MaxBulkReplay_def)
next
  case (Inl e)
  have False
    if ok: "\<forall>v \<in> set values. \<exists>k > 0. Atoi v = Some k" "card ((the \<circ> Atoi) ` set values) \<le> 20"
      and ne: "values \<noteq> []"
  proof -
    obtain r where r: "parse_bulk_loop values (set []) [] = Inr r"
      using parse_bulk_loop_accepts [of "values" "[]"] ok by (auto simp: MaxBulkReplay_def)
    then have "set r \<noteq> {}" using parse_bulk_loop_Inr [OF r] ne by simp
    then have "parseBulkReplayIDs values = Inr r" using r by (auto simp: parseBulkReplayIDs_def)
    then show False using Inl by simp
  qed
  then show ?thesis using Inl by auto
qed

theorem parse_bulk_correct_witness:
  "parseBulkReplayIDs [''7'', ''3'', ''7''] = Inr [7, 3] \<and> distinct [7, 3::int] \<and>
   set [7, 3] = (the \<circ> Atoi) ` set [''7'', ''3'', ''7'']"
proof -
  have v: "parseBulkReplayIDs [''7'', ''3'', ''7''] = Inr [7, 3]" by code_simp
  show ?thesis using parse_bulk_correct [of "[''7'', ''3'', ''7'']"] unfolding v by simp
qed

section \<open>The transaction\<close>

lemma eligible_ids_set:
  "set (eligible_ids unique d) =
     {k. \<exists>w \<in> set (t_webhooks d). wh_ID w = k \<and> k \<in> set unique \<and> wh_Status w = st_dead_lettered}"
  by (auto simp: eligible_ids_def)

lemma bulk_body_Inr:
  assumes "bulk_body f unique d = Inr (r, d')"
  shows "Skipped r = int (length unique) - int (length (eligible_ids unique d))"
    and "Requeued r = int (rows_affected (\<lambda>w. wh_ID w \<in> set (eligible_ids unique d)) (t_webhooks d))"
    and "d' = update_webhooks (\<lambda>w. wh_ID w \<in> set (eligible_ids unique d)) replayUpdates d"
  using assms
  by (auto simp: bulk_body_def Let_def rows_affected_def update_webhooks_def update_rows_def split: if_splits)

lemma eligible_rows:
  assumes "delivery_inv d" and "w \<in> set (t_webhooks d)"
  shows "wh_ID w \<in> set (eligible_ids unique d) \<longleftrightarrow> wh_ID w \<in> set unique \<and> wh_Status w = st_dead_lettered"
  using assms webhook_unique [OF assms(1) _ assms(2)] by (auto simp: eligible_ids_set)

lemma eligible_count:
  assumes "delivery_inv d"
  shows "rows_affected (\<lambda>w. wh_ID w \<in> set (eligible_ids unique d)) (t_webhooks d) = length (eligible_ids unique d)"
proof -
  have "filter (\<lambda>w. wh_ID w \<in> set (eligible_ids unique d)) (t_webhooks d) =
        filter (\<lambda>w. wh_ID w \<in> set unique \<and> wh_Status w = st_dead_lettered) (t_webhooks d)"
    by (rule filter_cong [OF refl]) (rule eligible_rows [OF assms])
  then show ?thesis by (simp add: rows_affected_def eligible_ids_def)
qed

lemma Bulk_Inr:
  assumes "BulkReplayDeadLetters f ids d = (Inr r, d')"
  obtains unique where "collected ids unique" "unique \<noteq> []" "length unique \<le> MaxBulkReplay"
    "bulk_body f unique d = Inr (r, d')"
  using assms unique_ids_Inr [of ids]
  by (auto simp: BulkReplayDeadLetters_def transaction_ok split: sum.splits if_splits)

lemma db_inv_Bulk [inv_intros]:
  assumes "db_inv d" and "BulkReplayDeadLetters f ids d = (r, d')"
  shows "db_inv d'"
proof (cases "d' = d")
  case False
  then obtain unique where "transaction f (bulk_body f unique) d = (r, d')"
    using assms(2) by (auto simp: BulkReplayDeadLetters_def split: sum.splits if_splits)
  then show ?thesis
  proof (rule transaction_inv)
    fix a e assume "bulk_body f unique d = Inr (a, e)"
    then have e: "e = update_webhooks (\<lambda>w. wh_ID w \<in> set (eligible_ids unique d)) replayUpdates d"
      by (rule bulk_body_Inr(3))
    show "db_inv e" unfolding e
      by (rule db_inv_replay [OF assms(1)]) (simp add: eligible_rows [OF db_invD(1) [OF assms(1)]])
  qed (rule assms(1))
qed (simp add: assms(1))

lemma bulk_replay_cases:
  assumes "db_inv d" and "BulkReplayDeadLetters f ids d = (Inr r, d')"
  shows "(\<forall>k \<in> set ids. 0 < k) \<and> 1 \<le> card (set ids) \<and> card (set ids) \<le> 20 \<and>
    t_webhooks d' = map (\<lambda>w. if wh_ID w \<in> set ids \<and> wh_Status w = st_dead_lettered
                            then replayUpdates w else w) (t_webhooks d) \<and>
    t_attempts d' = t_attempts d \<and> t_rules d' = t_rules d \<and>
    Requeued r = int (length (filter (\<lambda>w. wh_ID w \<in> set ids \<and> wh_Status w = st_dead_lettered) (t_webhooks d))) \<and>
    Requeued r + Skipped r = int (card (set ids)) \<and> 0 \<le> Skipped r"
proof -
  note inv = db_invD(1) [OF assms(1)]
  from assms(2) obtain unique where u: "collected ids unique" "unique \<noteq> []" "length unique \<le> MaxBulkReplay"
    and body: "bulk_body f unique d = Inr (r, d')" by (rule Bulk_Inr)
  note b = bulk_body_Inr [OF body]
  have set_u: "set unique = set ids" and dist: "distinct unique" and pos: "\<forall>k \<in> set ids. 0 < k"
    using u(1) by (simp_all add: collected_def)
  have card: "card (set ids) = length unique" using distinct_card [OF dist] set_u by simp
  have elig: "length (eligible_ids unique d) =
      length (filter (\<lambda>w. wh_ID w \<in> set ids \<and> wh_Status w = st_dead_lettered) (t_webhooks d))"
    by (simp add: eligible_ids_def set_u)
  have "t_webhooks d' = map (\<lambda>w. if wh_ID w \<in> set (eligible_ids unique d) then replayUpdates w else w) (t_webhooks d)"
    by (simp add: b(3) update_rows_def)
  also have "\<dots> = map (\<lambda>w. if wh_ID w \<in> set ids \<and> wh_Status w = st_dead_lettered then replayUpdates w else w) (t_webhooks d)"
    by (rule map_cong [OF refl]) (simp add: eligible_rows [OF inv] set_u)
  finally have rows: "t_webhooks d' = map (\<lambda>w. if wh_ID w \<in> set ids \<and> wh_Status w = st_dead_lettered
      then replayUpdates w else w) (t_webhooks d)" .
  have "distinct (map wh_ID (filter (\<lambda>w. wh_ID w \<in> set unique \<and> wh_Status w = st_dead_lettered) (t_webhooks d)))"
    using delivery_invD(1) [OF inv] by (intro distinct_map_filter_cong) (simp add: keys_ok_def)
  then have "distinct (eligible_ids unique d)" by (simp add: eligible_ids_def)
  then have "length (eligible_ids unique d) = card (set (eligible_ids unique d))" by (rule distinct_card [symmetric])
  also have "\<dots> \<le> card (set unique)" by (rule card_mono) (auto simp: eligible_ids_set)
  finally have le: "length (eligible_ids unique d) \<le> length unique" using card_length [of unique] by linarith
  have "1 \<le> length unique" using u(2) by (simp add: Suc_le_eq)
  moreover have "t_attempts d' = t_attempts d" "t_rules d' = t_rules d" by (simp_all add: b(3))
  ultimately show ?thesis
    using pos card u(3) rows b(1) b(2) [unfolded eligible_count [OF inv]] elig le
    by (simp add: MaxBulkReplay_def)
qed

text \<open>The database after a bulk replay: all of its effect or, after an error, none of it, unless the reply of
  the commit was lost.\<close>

lemma bulk_body_effect:
  assumes "db_inv d" and "set unique = set ids" and "bulk_body f unique d = Inr (r, e)"
  shows "e = d\<lparr>t_webhooks := map (\<lambda>w. if wh_ID w \<in> set ids \<and> wh_Status w = st_dead_lettered
                            then replayUpdates w else w) (t_webhooks d)\<rparr>"
proof -
  have "update_rows (\<lambda>w. wh_ID w \<in> set (eligible_ids unique d)) replayUpdates (t_webhooks d) =
      map (\<lambda>w. if wh_ID w \<in> set ids \<and> wh_Status w = st_dead_lettered then replayUpdates w else w) (t_webhooks d)"
    unfolding update_rows_def
    by (rule map_cong [OF refl]) (simp add: eligible_rows [OF db_invD(1) [OF assms(1)]] assms(2))
  then show ?thesis using bulk_body_Inr(3) [OF assms(3)] by (simp add: update_webhooks_def)
qed

lemma bulk_replay_all_or_nothing:
  assumes "db_inv d" and "BulkReplayDeadLetters f ids d = (res, d')"
  defines "done \<equiv> d\<lparr>t_webhooks := map (\<lambda>w. if wh_ID w \<in> set ids \<and> wh_Status w = st_dead_lettered
                            then replayUpdates w else w) (t_webhooks d)\<rparr>"
  shows "case res of Inr _ \<Rightarrow> d' = done | Inl _ \<Rightarrow> d' = d \<or> commit f = ReplyLost \<and> d' = done"
proof (cases "unique_ids ids {} []")
  case (Inl e)
  then show ?thesis using assms(2) by (auto simp: BulkReplayDeadLetters_def)
next
  case (Inr unique)
  note effect = bulk_body_effect [OF assms(1), of unique ids f, folded done_def]
  have set: "set unique = set ids" using unique_ids_Inr [OF Inr] by (simp add: collected_def)
  show ?thesis
  proof (cases "unique = [] \<or> length unique > MaxBulkReplay")
    case True
    then show ?thesis using assms(2) Inr by (auto simp: BulkReplayDeadLetters_def)
  next
    case False
    then have "transaction f (bulk_body f unique) d = (res, d')"
      using assms(2) Inr by (auto simp: BulkReplayDeadLetters_def)
    then show ?thesis using effect [OF set]
      by (auto simp: transaction_def split: sum.splits prod.splits commit_outcome.splits)
  qed
qed

lemma bulk_replay_counts:
  assumes "db_inv d" and "BulkReplayDeadLetters f ids d = (Inr r, d')"
  shows "0 \<le> Requeued r" "0 \<le> Skipped r" "Requeued r + Skipped r \<le> 20"
proof -
  from bulk_replay_cases [OF assms] have "card (set ids) \<le> 20" "Requeued r + Skipped r = int (card (set ids))" by blast+
  then show "Requeued r + Skipped r \<le> 20" by simp
  from bulk_replay_cases [OF assms] show "0 \<le> Requeued r" "0 \<le> Skipped r" by simp_all
qed

text \<open>
  A bulk replay requeues exactly the dead-lettered webhooks of the selection. When it
  succeeds, the ids were positive and between 1 and 20 of them differ; each selected webhook
  that was dead-lettered is now pending with its delivery state cleared, every other row and all
  attempts are untouched, and the two counters add up to the number of different ids, of which
  \<open>Requeued\<close> counts the dead-lettered ones.
\<close>

theorem bulk_replay_effect:
  assumes "db_inv d" and "BulkReplayDeadLetters f ids d = (Inr r, d')"
  shows "(\<forall>k \<in> set ids. 0 < k) \<and> 1 \<le> card (set ids) \<and> card (set ids) \<le> 20 \<and>
    t_webhooks d' = map (\<lambda>w. if wh_ID w \<in> set ids \<and> wh_Status w = st_dead_lettered
                            then replayUpdates w else w) (t_webhooks d) \<and>
    t_attempts d' = t_attempts d \<and> t_rules d' = t_rules d \<and>
    Requeued r = int (length (filter (\<lambda>w. wh_ID w \<in> set ids \<and> wh_Status w = st_dead_lettered) (t_webhooks d))) \<and>
    Requeued r + Skipped r = int (card (set ids)) \<and> 0 \<le> Skipped r"
  by (rule bulk_replay_cases [OF assms])

definition demo_dlq :: db where
  "demo_dlq = empty_db\<lparr>t_webhooks :=
     [empty_webhook\<lparr>wh_ID := 1, wh_Status := st_dead_lettered, wh_FailureCount := 3, wh_DeadLetteredAt := Some 9\<rparr>,
      empty_webhook\<lparr>wh_ID := 2, wh_Status := st_success\<rparr>], seq_webhooks := 2\<rparr>"

lemma demo_dlq_inv: "db_inv demo_dlq"
  by (simp add: demo_dlq_def empty_db_def empty_webhook_def db_inv_def delivery_inv_def rules_inv_def
      users_inv_def keys_ok_def webhook_ok_def webhook_statuses_def one_pending_def)

definition demo_requeued :: db where
  "demo_requeued = demo_dlq\<lparr>t_webhooks :=
     map (\<lambda>w. if wh_ID w = 1 then replayUpdates w else w) (t_webhooks demo_dlq)\<rparr>"

lemma demo_dlq_step:
  "BulkReplayDeadLetters no_faults [1, 2, 1] demo_dlq = (Inr \<lparr>Requeued = 1, Skipped = 1\<rparr>, demo_requeued)"
  by (simp add: BulkReplayDeadLetters_def transaction_def bulk_body_def eligible_ids_def demo_dlq_def
      demo_requeued_def empty_db_def empty_webhook_def MaxBulkReplay_def rows_affected_def
      update_webhooks_def update_rows_def Let_def)

theorem bulk_replay_effect_witness:
  "t_webhooks demo_requeued = map (\<lambda>w. if wh_ID w \<in> set [1, 2, 1] \<and> wh_Status w = st_dead_lettered
                            then replayUpdates w else w) (t_webhooks demo_dlq) \<and>
    Requeued \<lparr>Requeued = 1, Skipped = 1\<rparr> + Skipped \<lparr>Requeued = 1, Skipped = 1\<rparr> = int (card (set [1, 2, 1 :: int]))"
  using bulk_replay_effect [OF demo_dlq_inv demo_dlq_step] by blast

end
