(* ===== verification/Retention.thy ===== *)
theory Retention
  imports DbInv
begin

text \<open>
  \<open>internal/storage/db_retention.go\<close>: the cleanup that deletes finished webhooks past the
  retention time in batches, and the worker that runs it at start and on every tick.

  One pass of the \<open>for\<close> loop sees a \<open>cleanup_env\<close>: what \<open>ctx.Err()\<close> returns, which rows other
  transactions hold (\<open>SKIP LOCKED\<close>), how the database behaves. The loop itself has no bound in
  the code. Here it is a function with a termination proof: a pass that does not end it has
  deleted a full, non-empty batch.
\<close>

record cleanup_env =
  env_ctx_err :: "go_error option"
  env_locked :: "int \<Rightarrow> bool"
  env_faults :: faults

definition expired_finished :: "time \<Rightarrow> webhook \<Rightarrow> bool" where
  "expired_finished before w \<longleftrightarrow>
     wh_ReceivedAt w < before \<and> wh_Status w \<notin> {st_pending, st_processing, st_retrying}"

definition cleanup_ids :: "(int \<Rightarrow> bool) \<Rightarrow> time \<Rightarrow> nat \<Rightarrow> db \<Rightarrow> int list" where
  "cleanup_ids locked before batchSize d =
     take batchSize (sort (map wh_ID
       (filter (\<lambda>w. expired_finished before w \<and> \<not> locked (wh_ID w)) (t_webhooks d))))"

definition cleanup_body ::
    "(int \<Rightarrow> bool) \<Rightarrow> faults \<Rightarrow> time \<Rightarrow> nat \<Rightarrow> db \<Rightarrow> go_error + int list \<times> db" where
  "cleanup_body locked f before batchSize d =
     (if fails f 0 then Inl ErrDatabase
      else
        (let ids = cleanup_ids locked before batchSize d
         in if ids = [] then Inr ([], d)
            else if fails f 1 then Inl ErrDatabase
            else exec (fails f 2)
              (ids, delete_webhooks (\<lambda>w. wh_ID w \<in> set ids)
                      (delete_attempts (\<lambda>a. da_WebhookID a \<in> set ids) d))))"

definition cleanup_batch :: "cleanup_env \<Rightarrow> time \<Rightarrow> nat \<Rightarrow> db \<Rightarrow> (go_error + int list) \<times> db" where
  "cleanup_batch env before batchSize d =
     transaction (env_faults env) (cleanup_body (env_locked env) (env_faults env) before batchSize) d"

lemma cleanup_ids_length: "length (cleanup_ids locked before n d) \<le> n"
  by (simp add: cleanup_ids_def)

lemma cleanup_ids_in:
  assumes "k \<in> set (cleanup_ids locked before n d)"
  shows "\<exists>w \<in> set (t_webhooks d). wh_ID w = k \<and> expired_finished before w \<and> \<not> locked k"
  using in_set_takeD [OF assms [unfolded cleanup_ids_def]] by auto

lemma cleanup_body_Inr:
  assumes "cleanup_body locked f before n d = Inr (ids, d')"
  shows "ids = cleanup_ids locked before n d"
    and "d' = delete_webhooks (\<lambda>w. wh_ID w \<in> set ids) (delete_attempts (\<lambda>a. da_WebhookID a \<in> set ids) d)"
  using assms
  by (auto simp: cleanup_body_def Let_def delete_webhooks_def delete_attempts_def delete_rows_def split: if_splits)

lemma cleanup_batch_shrinks:
  assumes "cleanup_batch env before n d = (Inr ids, d')" and "ids \<noteq> []"
  shows "length (t_webhooks d') < length (t_webhooks d)"
proof -
  from assms(1) have body: "cleanup_body (env_locked env) (env_faults env) before n d = Inr (ids, d')"
    by (simp add: cleanup_batch_def transaction_ok)
  obtain k where "k \<in> set ids" using assms(2) by (cases ids) auto
  then obtain w where "w \<in> set (t_webhooks d)" "wh_ID w \<in> set ids"
    using cleanup_ids_in cleanup_body_Inr(1) [OF body] by blast
  then have "length (filter (\<lambda>w. wh_ID w \<notin> set ids) (t_webhooks d)) < length (t_webhooks d)"
    by (intro length_filter_less) auto
  then show ?thesis by (simp add: cleanup_body_Inr(2) [OF body] delete_rows_def)
qed

lemma cleanup_batch_full:
  assumes "(Inr ids, d') = cleanup_batch env before n d" and "\<not> length ids < n" and "0 < n"
  shows "length (t_webhooks d') < length (t_webhooks d)"
  using assms cleanup_batch_shrinks [of env before n d ids d'] by (cases ids) auto

text \<open>
  The loop, from pass \<open>n\<close> on. It returns what it deleted and the error that ended it. The
  caller passes a positive \<open>batchSize\<close>; the disjunct for 0 only makes the function total.
\<close>

function cleanup_loop ::
    "(nat \<Rightarrow> cleanup_env) \<Rightarrow> nat \<Rightarrow> time \<Rightarrow> nat \<Rightarrow> int \<Rightarrow> db \<Rightarrow> (int \<times> go_error option) \<times> db" where
  "cleanup_loop envs n before batchSize totalDeleted d =
     (case env_ctx_err (envs n) of
        Some e \<Rightarrow> ((totalDeleted, Some e), d)
      | None \<Rightarrow>
          (case cleanup_batch (envs n) before batchSize d of
             (Inl e, d') \<Rightarrow> ((totalDeleted, Some e), d')
           | (Inr ids, d') \<Rightarrow>
               if length ids < batchSize \<or> batchSize = 0 then ((totalDeleted + int (length ids), None), d')
               else cleanup_loop envs (Suc n) before batchSize (totalDeleted + int (length ids)) d'))"
  by pat_completeness auto
termination
  by (relation "measure (\<lambda>(_, _, _, _, _, d). length (t_webhooks d))")
    (auto intro: cleanup_batch_full)

declare cleanup_loop.simps [simp del]

definition CleanupExpiredWebhooks ::
    "(nat \<Rightarrow> cleanup_env) \<Rightarrow> time \<Rightarrow> int \<Rightarrow> db \<Rightarrow> (int \<times> go_error option) \<times> db" where
  "CleanupExpiredWebhooks envs before batchSize d =
     cleanup_loop envs 0 before (nat (if batchSize \<le> 0 then 300 else batchSize)) 0 d"

text \<open>
  The worker: disabled unless it has a database, a retention time and an interval; else one
  cleanup at start and one per tick until the context ends. \<open>runs\<close> lists the environments and
  the clock reading of the successive cleanups up to then. \<open>AddDate\<close> goes back whole days of
  24 hours, as in a location without clock changes.
\<close>

definition AddDate_days :: "time \<Rightarrow> int \<Rightarrow> time" where
  "AddDate_days t days = t + days * (24 * hour)"

definition retention_cleanup :: "int \<Rightarrow> int \<Rightarrow> (nat \<Rightarrow> cleanup_env) \<times> time \<Rightarrow> db \<Rightarrow> db" where
  "retention_cleanup retentionDays batchSize run d =
     snd (CleanupExpiredWebhooks (fst run) (AddDate_days (snd run) (- retentionDays)) batchSize d)"

definition StartRetentionWorker ::
    "bool \<Rightarrow> int \<Rightarrow> duration \<Rightarrow> int \<Rightarrow> ((nat \<Rightarrow> cleanup_env) \<times> time) list \<Rightarrow> db \<Rightarrow> db" where
  "StartRetentionWorker has_db retentionDays interval batchSize runs d =
     (if \<not> has_db \<or> retentionDays \<le> 0 \<or> interval \<le> 0 then d
      else
        (let batchSize = (if batchSize \<le> 0 then 300 else batchSize)
         in foldl (\<lambda>d run. retention_cleanup retentionDays batchSize run d) d runs))"

section \<open>What a cleanup deletes\<close>

text \<open>
  \<open>cleaned K d d'\<close>: \<open>d'\<close> is \<open>d\<close> without the webhooks of \<open>K\<close> and their attempts.
\<close>

definition cleaned :: "int set \<Rightarrow> db \<Rightarrow> db" where
  "cleaned K d = delete_webhooks (\<lambda>w. wh_ID w \<in> K) (delete_attempts (\<lambda>a. da_WebhookID a \<in> K) d)"

lemma delete_rows_none: "(\<And>r. r \<in> set rows \<Longrightarrow> \<not> P r) \<Longrightarrow> delete_rows P rows = rows"
  by (simp add: delete_rows_def)

lemma cleaned_empty [simp]: "cleaned {} d = d"
  by (simp add: cleaned_def delete_webhooks_def delete_attempts_def delete_rows_def)

lemma cleaned_cleaned: "cleaned J (cleaned K d) = cleaned (J \<union> K) d"
  by (simp add: cleaned_def delete_webhooks_def delete_attempts_def delete_rows_def conj_commute)

lemma cleaned_rows:
  "t_webhooks (cleaned K d) = filter (\<lambda>w. wh_ID w \<notin> K) (t_webhooks d)"
  "t_attempts (cleaned K d) = filter (\<lambda>a. da_WebhookID a \<notin> K) (t_attempts d)"
  by (simp_all add: cleaned_def delete_rows_def)

lemma db_inv_cleaned: "db_inv d \<Longrightarrow> db_inv (cleaned K d)"
  unfolding cleaned_def by (rule db_inv_delete_set)

text \<open>The ids of the finished webhooks received before a time.\<close>

definition expired_ids :: "time \<Rightarrow> db \<Rightarrow> int set" where
  "expired_ids before d = wh_ID ` {w \<in> set (t_webhooks d). expired_finished before w}"

lemma expired_ids_cleaned: "expired_ids before (cleaned K d) = expired_ids before d - K"
  by (auto simp: expired_ids_def cleaned_rows)

lemma cleanup_body_cleaned:
  assumes "cleanup_body locked f before n d = Inr (ids, d')"
  shows "ids = cleanup_ids locked before n d" and "d' = cleaned (set ids) d"
    and "set ids \<subseteq> expired_ids before d"
proof -
  show ids: "ids = cleanup_ids locked before n d" by (rule cleanup_body_Inr(1) [OF assms])
  show "d' = cleaned (set ids) d" using cleanup_body_Inr(2) [OF assms] by (simp add: cleaned_def)
  show "set ids \<subseteq> expired_ids before d"
    using cleanup_ids_in [of _ locked before n d] by (auto simp: ids expired_ids_def)
qed

lemma cleanup_batch_cleaned:
  assumes "cleanup_batch env before n d = (r, d')"
  shows "\<exists>K \<subseteq> expired_ids before d. d' = cleaned K d"
  using assms [unfolded cleanup_batch_def]
proof (cases rule: transaction_cases)
  case (rolled_back e)
  then show ?thesis by (intro exI [of _ "{}"]) simp
next
  case (applied ids)
  from cleanup_body_cleaned(2,3) [OF applied] show ?thesis by blast
qed

lemma cleanup_loop_cleaned:
  "cleanup_loop envs n before bsz deleted d = (r, d') \<Longrightarrow>
   \<exists>K \<subseteq> expired_ids before d. d' = cleaned K d"
proof (induction envs n before bsz deleted d rule: cleanup_loop.induct)
  case (1 envs n before bsz deleted d)
  show ?case
  proof (cases "env_ctx_err (envs n)")
    case (Some e)
    then show ?thesis using "1.prems" by (intro exI [of _ "{}"]) (simp add: cleanup_loop.simps)
  next
    case None
    obtain b d1 where b: "cleanup_batch (envs n) before bsz d = (b, d1)" by (meson surj_pair)
    from cleanup_batch_cleaned [OF b] obtain K where K: "K \<subseteq> expired_ids before d" "d1 = cleaned K d" by blast
    show ?thesis
    proof (cases "d' = d1")
      case False
      then obtain ids where ids: "b = Inr ids" "\<not> (length ids < bsz \<or> bsz = 0)"
        using "1.prems" None b by (subst (asm) cleanup_loop.simps) (auto split: sum.splits if_splits)
      have "cleanup_loop envs (Suc n) before bsz (deleted + int (length ids)) d1 = (r, d')"
        using "1.prems" None b ids by (subst (asm) cleanup_loop.simps) simp
      from "1.IH" [OF None b [symmetric] ids this] obtain J where
        "J \<subseteq> expired_ids before d1" "d' = cleaned J d1" by blast
      then show ?thesis using K by (intro exI [of _ "J \<union> K"]) (auto simp: cleaned_cleaned expired_ids_cleaned)
    qed (use K in blast)
  qed
qed

lemma db_inv_cleanup_batch [inv_intros]:
  assumes "db_inv d" and "cleanup_batch env before n d = (r, d')" shows "db_inv d'"
  using cleanup_batch_cleaned [OF assms(2)] db_inv_cleaned [OF assms(1)] by auto

lemma Cleanup_cleaned:
  "CleanupExpiredWebhooks envs before batchSize d = (r, d') \<Longrightarrow> \<exists>K \<subseteq> expired_ids before d. d' = cleaned K d"
  unfolding CleanupExpiredWebhooks_def by (rule cleanup_loop_cleaned)

text \<open>
  C18: a cleanup never loses live work. Whatever the database and the context do during it, each
  webhook it removes was finished (not pending, processing or retrying) and received before
  the cutoff; the attempts it removes are exactly those of the removed webhooks; all other rows
  stay as they were.
\<close>

theorem cleanup_safe:
  assumes "db_inv d" and "CleanupExpiredWebhooks envs before batchSize d = (r, d')"
  shows "\<exists>K. (\<forall>w \<in> set (t_webhooks d). wh_ID w \<in> K \<longrightarrow> expired_finished before w) \<and>
    t_webhooks d' = filter (\<lambda>w. wh_ID w \<notin> K) (t_webhooks d) \<and>
    t_attempts d' = filter (\<lambda>a. da_WebhookID a \<notin> K) (t_attempts d) \<and>
    t_rules d' = t_rules d \<and> t_users d' = t_users d"
proof -
  from Cleanup_cleaned [OF assms(2)] obtain K where K: "K \<subseteq> expired_ids before d" "d' = cleaned K d" by blast
  have "expired_finished before w" if "w \<in> set (t_webhooks d)" "wh_ID w \<in> K" for w
  proof -
    from that(2) K(1) obtain v where "v \<in> set (t_webhooks d)" "wh_ID v = wh_ID w" "expired_finished before v"
      unfolding expired_ids_def by fastforce
    with webhook_unique [OF db_invD(1) [OF assms(1)] _ that(1)] show ?thesis by metis
  qed
  moreover have "t_rules d' = t_rules d" "t_users d' = t_users d" by (simp_all add: K(2) cleaned_def)
  ultimately show ?thesis using cleaned_rows [of K d] K(2) by blast
qed

section \<open>A cleanup in a quiet database\<close>

definition quiet_env :: cleanup_env where
  "quiet_env = \<lparr>env_ctx_err = None, env_locked = (\<lambda>_. False), env_faults = no_faults\<rparr>"

lemma cleanup_batch_quiet:
  "cleanup_batch quiet_env before n d =
     (let ids = cleanup_ids (\<lambda>_. False) before n d in (Inr ids, cleaned (set ids) d))"
  by (simp add: cleanup_batch_def quiet_env_def transaction_def cleanup_body_def Let_def cleaned_def
      delete_webhooks_def delete_attempts_def delete_rows_def)

lemma all_expired_ids:
  fixes before :: time and d :: db
  assumes "delivery_inv d"
  defines "all \<equiv> sort (map wh_ID (filter (expired_finished before) (t_webhooks d)))"
  shows "set all = expired_ids before d" and "distinct all"
    and "cleanup_ids (\<lambda>_. False) before n d = take n all"
proof -
  show "set all = expired_ids before d" by (auto simp: all_def expired_ids_def)
  have "distinct (map wh_ID (filter (expired_finished before) (t_webhooks d)))"
    using delivery_invD(1) [OF assms(1)] by (intro distinct_map_filter_cong) (simp add: keys_ok_def)
  then show "distinct all" by (simp add: all_def)
qed (simp add: all_def cleanup_ids_def)

lemma cleanup_loop_quiet:
  assumes "db_inv d" and "0 < bsz" and "\<And>k. envs k = quiet_env"
  shows "cleanup_loop envs n before bsz deleted d =
    ((deleted + int (card (expired_ids before d)), None), cleaned (expired_ids before d) d)"
  using assms(1)
proof (induction "length (t_webhooks d)" arbitrary: n deleted d rule: less_induct)
  case less
  define all where "all = sort (map wh_ID (filter (expired_finished before) (t_webhooks d)))"
  note a = all_expired_ids [OF db_invD(1) [OF less.prems], of before, folded all_def]
  let ?ids = "take bsz all"
  have batch: "cleanup_batch (envs n) before bsz d = (Inr ?ids, cleaned (set ?ids) d)"
    by (simp add: assms(3) cleanup_batch_quiet a(3) Let_def)
  have ctx: "env_ctx_err (envs n) = None" by (simp add: assms(3) quiet_env_def)
  have sub: "set ?ids \<subseteq> expired_ids before d" using a(1) set_take_subset [of bsz all] by simp
  have fin: "finite (expired_ids before d)" using a(1) by (metis List.finite_set)
  have len: "length ?ids = card (set ?ids)" using a(2) by (simp add: distinct_card)
  show ?case
  proof (cases "length ?ids < bsz")
    case True
    then have "set ?ids = expired_ids before d" using a(1) by simp
    moreover have "length all = card (expired_ids before d)" using a by (metis distinct_card)
    moreover have "length all < bsz" using True by simp
    ultimately show ?thesis
      by (subst cleanup_loop.simps) (simp add: batch ctx)
  next
    case False
    have shrink: "length (t_webhooks (cleaned (set ?ids) d)) < length (t_webhooks d)"
      using cleanup_batch_full [OF batch [symmetric] False assms(2)] .
    have rest: "expired_ids before (cleaned (set ?ids) d) = expired_ids before d - set ?ids"
      by (rule expired_ids_cleaned)
    have "card (expired_ids before d - set ?ids) + card (set ?ids) = card (expired_ids before d)"
      using card_Diff_subset [OF _ sub] card_mono [OF fin sub] by simp
    then have count: "int (length ?ids) + int (card (expired_ids before d - set ?ids)) = int (card (expired_ids before d))"
      using len by linarith
    have "cleanup_loop envs n before bsz deleted d =
        cleanup_loop envs (Suc n) before bsz (deleted + int (length ?ids)) (cleaned (set ?ids) d)"
      using False assms(2)
      by (subst cleanup_loop.simps) (simp add: batch ctx del: length_take)
    also have "\<dots> = ((deleted + int (card (expired_ids before d)), None), cleaned (expired_ids before d) d)"
      using less.hyps [OF shrink db_inv_cleaned [OF less.prems], of "Suc n" "deleted + int (length ?ids)"] rest count sub
      by (simp add: cleaned_cleaned Un_absorb2 add.assoc del: length_take)
    finally show ?thesis .
  qed
qed

text \<open>
  C40: a cleanup is complete and ends. In a working database that no other transaction is
  changing, it terminates without an error after deleting every finished webhook received
  before the cutoff, however many batches that takes, and returns their number.
\<close>

theorem cleanup_complete:
  assumes "db_inv d" and "\<And>k. envs k = quiet_env"
  shows "CleanupExpiredWebhooks envs before batchSize d =
    ((int (length (filter (expired_finished before) (t_webhooks d))), None),
     cleaned (wh_ID ` {w \<in> set (t_webhooks d). expired_finished before w}) d)"
proof -
  have "length (filter (expired_finished before) (t_webhooks d)) = card (expired_ids before d)"
    using all_expired_ids(1,2) [OF db_invD(1) [OF assms(1)], of before]
    by (metis distinct_card length_map length_sort)
  then show ?thesis unfolding CleanupExpiredWebhooks_def
    by (subst cleanup_loop_quiet [OF assms(1) _ assms(2)]) (simp_all add: expired_ids_def)
qed

definition demo_old :: db where
  "demo_old = empty_db\<lparr>t_webhooks := map (\<lambda>(k, t, s). empty_webhook\<lparr>wh_ID := k, wh_ReceivedAt := t, wh_Status := s\<rparr>)
     [(1, 5, st_success), (2, 6, st_pending), (3, 7, st_skipped), (4, 50, st_success)], seq_webhooks := 4\<rparr>"

lemma demo_old_inv: "db_inv demo_old"
  by (simp add: demo_old_def empty_db_def empty_webhook_def db_inv_def delivery_inv_def rules_inv_def
      users_inv_def keys_ok_def webhook_ok_def webhook_statuses_def one_pending_def)

theorem cleanup_complete_witness:
  "CleanupExpiredWebhooks (\<lambda>_. quiet_env) 10 1 demo_old = ((2, None), cleaned {1, 3} demo_old)"
proof -
  have e: "filter (expired_finished 10) (t_webhooks demo_old) =
     [empty_webhook\<lparr>wh_ID := 1, wh_ReceivedAt := 5, wh_Status := st_success\<rparr>,
      empty_webhook\<lparr>wh_ID := 3, wh_ReceivedAt := 7, wh_Status := st_skipped\<rparr>]"
    by (simp add: demo_old_def empty_webhook_def expired_finished_def)
  have "wh_ID ` set (filter (expired_finished 10) (t_webhooks demo_old)) = {1, 3}"
    unfolding e by simp
  then have s: "wh_ID ` {w \<in> set (t_webhooks demo_old). expired_finished 10 w} = {1, 3}" by simp
  show ?thesis using cleanup_complete [OF demo_old_inv, of "\<lambda>_. quiet_env" 10 1] unfolding e s by simp
qed

theorem cleanup_safe_witness:
  "\<exists>K. (\<forall>w \<in> set (t_webhooks demo_old). wh_ID w \<in> K \<longrightarrow> expired_finished 10 w) \<and>
    t_webhooks (snd (CleanupExpiredWebhooks (\<lambda>_. quiet_env) 10 1 demo_old)) =
      filter (\<lambda>w. wh_ID w \<notin> K) (t_webhooks demo_old) \<and>
    t_attempts (snd (CleanupExpiredWebhooks (\<lambda>_. quiet_env) 10 1 demo_old)) =
      filter (\<lambda>a. da_WebhookID a \<notin> K) (t_attempts demo_old) \<and>
    t_rules (snd (CleanupExpiredWebhooks (\<lambda>_. quiet_env) 10 1 demo_old)) = t_rules demo_old \<and>
    t_users (snd (CleanupExpiredWebhooks (\<lambda>_. quiet_env) 10 1 demo_old)) = t_users demo_old"
  by (rule cleanup_safe [OF demo_old_inv prod.collapse [symmetric]])

section \<open>The worker\<close>

lemma db_inv_retention_cleanup [inv_intros]:
  assumes "db_inv d" shows "db_inv (retention_cleanup days bsz run d)"
proof -
  have "CleanupExpiredWebhooks (fst run) (AddDate_days (snd run) (- days)) bsz d =
      (fst (CleanupExpiredWebhooks (fst run) (AddDate_days (snd run) (- days)) bsz d),
       retention_cleanup days bsz run d)"
    by (simp add: retention_cleanup_def)
  from Cleanup_cleaned [OF this] db_inv_cleaned [OF assms] show ?thesis by auto
qed

lemma retention_cleanup_keeps:
  assumes "db_inv d" and "w \<in> set (t_webhooks d)"
    and "\<not> expired_finished (AddDate_days (snd run) (- days)) w"
  shows "w \<in> set (t_webhooks (retention_cleanup days bsz run d)) \<and>
    (\<forall>a \<in> set (t_attempts d). da_WebhookID a = wh_ID w \<longrightarrow> a \<in> set (t_attempts (retention_cleanup days bsz run d)))"
proof -
  let ?t = "AddDate_days (snd run) (- days)"
  have "CleanupExpiredWebhooks (fst run) ?t bsz d =
      (fst (CleanupExpiredWebhooks (fst run) ?t bsz d), retention_cleanup days bsz run d)"
    by (simp add: retention_cleanup_def)
  from Cleanup_cleaned [OF this] obtain K where K: "K \<subseteq> expired_ids ?t d"
    "retention_cleanup days bsz run d = cleaned K d" by blast
  have "wh_ID w \<notin> expired_ids ?t d"
  proof
    assume "wh_ID w \<in> expired_ids ?t d"
    then obtain v where v: "v \<in> set (t_webhooks d)" "wh_ID v = wh_ID w" "expired_finished ?t v"
      unfolding expired_ids_def by fastforce
    with webhook_unique [OF db_invD(1) [OF assms(1)] v(1) assms(2) v(2)] assms(3) show False by simp
  qed
  then have "wh_ID w \<notin> K" using K(1) by blast
  then show ?thesis using assms(2) by (auto simp: K(2) cleaned_rows)
qed

text \<open>
  The retention worker keeps everything it must. However often it runs and whatever goes
  wrong, a webhook that is still being delivered, or that was received within the retention time
  before every run, is there afterwards with all its attempts; and a worker without a
  retention time or an interval deletes nothing at all.
\<close>

theorem retention_worker_keeps:
  assumes "db_inv d" and "w \<in> set (t_webhooks d)"
    and "wh_Status w \<in> {st_pending, st_processing, st_retrying} \<or>
         (\<forall>run \<in> set runs. snd run - days * (24 * hour) \<le> wh_ReceivedAt w) \<or> days \<le> 0 \<or> interval \<le> 0"
  shows "w \<in> set (t_webhooks (StartRetentionWorker has_db days interval bsz runs d)) \<and>
    (\<forall>a \<in> set (t_attempts d). da_WebhookID a = wh_ID w \<longrightarrow>
       a \<in> set (t_attempts (StartRetentionWorker has_db days interval bsz runs d)))"
proof (cases "\<not> has_db \<or> days \<le> 0 \<or> interval \<le> 0")
  case True
  then show ?thesis using assms(2) by (simp add: StartRetentionWorker_def)
next
  case False
  let ?b = "if bsz \<le> 0 then 300 else bsz"
  have "\<And>run. run \<in> set runs \<Longrightarrow> \<not> expired_finished (AddDate_days (snd run) (- days)) w"
    using False assms(3) by (auto simp: expired_finished_def AddDate_days_def)
  with assms(1,2) have kept: "w \<in> set (t_webhooks (foldl (\<lambda>d run. retention_cleanup days ?b run d) d runs)) \<and>
    (\<forall>a \<in> set (t_attempts d). da_WebhookID a = wh_ID w \<longrightarrow>
       a \<in> set (t_attempts (foldl (\<lambda>d run. retention_cleanup days ?b run d) d runs)))"
  proof (induction runs arbitrary: d)
    case (Cons run runs)
    note keep = retention_cleanup_keeps [OF Cons.prems(1,2) Cons.prems(3) [of run], of ?b]
    show ?case using Cons.IH [OF db_inv_retention_cleanup [OF Cons.prems(1)]] keep Cons.prems(3) by simp
  qed simp
  have eq: "StartRetentionWorker has_db days interval bsz runs d =
      foldl (\<lambda>d run. retention_cleanup days ?b run d) d runs"
    using False by (simp add: StartRetentionWorker_def Let_def)
  show ?thesis unfolding eq by (rule kept)
qed

definition demo_recent :: webhook where
  "demo_recent = empty_webhook\<lparr>wh_ID := 4, wh_ReceivedAt := 50, wh_Status := st_success\<rparr>"

theorem retention_worker_keeps_witness:
  "demo_recent \<in> set (t_webhooks (StartRetentionWorker True 1 5 0 [(\<lambda>_. quiet_env, 24 * hour + 50)] demo_old))"
  by (rule retention_worker_keeps [OF demo_old_inv, THEN conjunct1])
    (simp_all add: demo_old_def demo_recent_def empty_webhook_def)

end
