(* ===== verification/Rules.thy ===== *)
theory Rules
  imports Leases "HOL-Library.Char_ord" "HOL-Library.List_Lexorder"
begin

text \<open>
  \<open>internal/storage/db_forwarding.go\<close>: forwarding rules, one per source. Saving a rule is
  PostgreSQL's \<open>INSERT ... ON CONFLICT (source) DO UPDATE\<close> of the columns the code names, which
  leaves out \<open>paused\<close>; the sequence advances even when the row exists. \<open>ORDER BY source\<close>
  sorts by the library's lexicographic order on strings, the byte order (the \<open>C\<close> collation).
\<close>

definition update_rule_columns :: "forwarding_rule \<Rightarrow> forwarding_rule \<Rightarrow> forwarding_rule" where
  "update_rule_columns rule old = old\<lparr>
     fr_Target := fr_Target rule,
     fr_VerifySecret := fr_VerifySecret rule,
     fr_VerifyHeader := fr_VerifyHeader rule,
     fr_ToleranceSeconds := fr_ToleranceSeconds rule,
     fr_OutgoingSecret := fr_OutgoingSecret rule,
     fr_RetryMaxAttempts := fr_RetryMaxAttempts rule,
     fr_RetryBackoffSeconds := fr_RetryBackoffSeconds rule\<rparr>"

definition upsert_rule :: "forwarding_rule \<Rightarrow> db \<Rightarrow> go_error + unit \<times> db" where
  "upsert_rule rule d =
     (if \<exists>r \<in> set (t_rules d). fr_Source r = fr_Source rule
      then Inr ((), d\<lparr>t_rules := update_rows (\<lambda>r. fr_Source r = fr_Source rule) (update_rule_columns rule) (t_rules d),
                      seq_rules := (if fr_ID rule = 0 then seq_rules d + 1 else seq_rules d)\<rparr>)
      else
        (case insert_row fr_ID set_fr_ID rule (seq_rules d) (t_rules d) of
           Inl e \<Rightarrow> Inl e
         | Inr (r, seq, rows) \<Rightarrow> Inr ((), d\<lparr>t_rules := rows, seq_rules := seq\<rparr>)))"

definition SaveForwardingRule :: "faults \<Rightarrow> forwarding_rule \<Rightarrow> db \<Rightarrow> (go_error + unit) \<times> db" where
  "SaveForwardingRule f rule d =
     transaction f (\<lambda>d. if fails f 0 then Inl ErrDatabase else upsert_rule rule d) d"

text \<open>The update commits by itself; a lost reply or a failed commit is an error of the statement.\<close>

definition SetForwardingPaused :: "faults \<Rightarrow> string \<Rightarrow> bool \<Rightarrow> db \<Rightarrow> (go_error + unit) \<times> db" where
  "SetForwardingPaused f source paused d =
     (case transaction f (\<lambda>d. exec (fails f 0)
        (rows_affected (\<lambda>r. fr_Source r = source) (t_rules d),
         d\<lparr>t_rules := update_rows (\<lambda>r. fr_Source r = source) (\<lambda>r. r\<lparr>fr_Paused := paused\<rparr>) (t_rules d)\<rparr>)) d of
        (Inl e, d') \<Rightarrow> (Inl e, d')
      | (Inr n, d') \<Rightarrow> if n = 0 then (Inl ErrNotFound, d') else (Inr (), d'))"

definition queued :: "time \<Rightarrow> webhook \<Rightarrow> bool" where
  "queued now w \<longleftrightarrow>
     wh_Status w \<in> {st_pending, st_retrying} \<or>
     (wh_Status w = st_processing \<and> opt_le (wh_DeliveryLeaseUntil w) now)"

text \<open>\<open>GROUP BY source\<close>: one row per source that occurs, in no particular order.\<close>

definition group_counts :: "('r \<Rightarrow> 'k) \<Rightarrow> 'r list \<Rightarrow> ('k \<times> int) list" where
  "group_counts key rows =
     map (\<lambda>k. (k, int (length (filter (\<lambda>r. key r = k) rows)))) (remdups (map key rows))"

definition QueuedWebhookCounts :: "bool \<Rightarrow> time \<Rightarrow> db \<Rightarrow> go_error + (string \<rightharpoonup> int)" where
  "QueuedWebhookCounts failed now d =
     (if failed then Inl ErrDatabase
      else Inr (foldl (\<lambda>m (source, n). m(source \<mapsto> n)) Map.empty
                  (group_counts wh_Source (filter (queued now) (t_webhooks d)))))"

definition GetForwardingRules :: "bool \<Rightarrow> db \<Rightarrow> go_error + forwarding_rule list" where
  "GetForwardingRules failed d =
     (if failed then Inl ErrDatabase
      else Inr (sort_key fr_Source (t_rules d)))"

definition find_rule :: "string \<Rightarrow> db \<Rightarrow> forwarding_rule option" where
  "find_rule source d = find (\<lambda>r. fr_Source r = source) (t_rules d)"

definition GetForwardingRule :: "bool \<Rightarrow> string \<Rightarrow> db \<Rightarrow> go_error + forwarding_rule" where
  "GetForwardingRule failed source d =
     (if failed then Inl ErrDatabase
      else (case find (\<lambda>r. fr_Source r = source) (sort_key fr_ID (t_rules d)) of
              None \<Rightarrow> Inl ErrNotFound | Some r \<Rightarrow> Inr r))"

section \<open>Lookups\<close>

lemma find_unique_source:
  assumes "distinct (map fr_Source rules)" "distinct rules' \<and> set rules' = set rules"
  shows "find (\<lambda>r. fr_Source r = s) rules' = find (\<lambda>r. fr_Source r = s) rules"
proof (cases "find (\<lambda>r. fr_Source r = s) rules")
  case None
  then have "find (\<lambda>r. fr_Source r = s) rules' = None" using assms(2) by (simp add: find_None_iff)
  then show ?thesis using None by simp
next
  case (Some r)
  then have r: "r \<in> set rules" "fr_Source r = s" by (auto dest: find_Some_in)
  have "distinct (map fr_Source rules')"
    using assms by (metis distinct_map)
  then have "find (\<lambda>y. fr_Source y = fr_Source r) rules' = Some r"
    by (rule find_distinct_key) (simp add: r(1) assms(2))
  then show ?thesis using Some r(2) by simp
qed

lemma GetForwardingRule_find:
  assumes "rules_inv d"
  shows "GetForwardingRule False source d =
    (case find_rule source d of None \<Rightarrow> Inl ErrNotFound | Some r \<Rightarrow> Inr r)"
proof -
  have "find (\<lambda>r. fr_Source r = source) (sort_key fr_ID (t_rules d)) = find_rule source d"
    unfolding find_rule_def using assms
    by (intro find_unique_source) (auto simp: rules_inv_def keys_ok_def distinct_map)
  then show ?thesis by (simp add: GetForwardingRule_def)
qed

lemma update_rule_columns_keep [simp]:
  "fr_ID (update_rule_columns rule old) = fr_ID old"
  "fr_Source (update_rule_columns rule old) = fr_Source old"
  "fr_Paused (update_rule_columns rule old) = fr_Paused old"
  by (simp_all add: update_rule_columns_def)

lemma rules_inv_update:
  assumes "rules_inv d" and "\<And>r. fr_ID (g r) = fr_ID r" and "\<And>r. fr_Source (g r) = fr_Source r"
    and "seq_rules d \<le> n"
  shows "rules_inv (d\<lparr>t_rules := update_rows P g (t_rules d), seq_rules := n\<rparr>)"
proof -
  have "map fr_Source (update_rows P g (t_rules d)) = map fr_Source (t_rules d)"
    using assms(3) by (simp add: update_rows_def)
  moreover have "keys_ok fr_ID (seq_rules d) (update_rows P g (t_rules d))"
    using assms(1,2) by (intro keys_ok_update) (simp_all add: rules_inv_def)
  ultimately show ?thesis using assms(1,4) by (force simp: rules_inv_def keys_ok_def)
qed

lemma db_inv_rules_part:
  assumes "db_inv d" and "rules_inv d'"
    and "t_webhooks d' = t_webhooks d" "seq_webhooks d' = seq_webhooks d"
    and "t_attempts d' = t_attempts d" "seq_attempts d' = seq_attempts d"
    and "t_users d' = t_users d" "seq_users d' = seq_users d"
  shows "db_inv d'"
  using assms by (simp add: db_inv_def delivery_inv_def users_inv_def)

text \<open>
  A saved rule carries the key 0, from the form of a new rule, or a key the table issued before,
  from a rule read for editing.
\<close>

definition rule_key_ok :: "forwarding_rule \<Rightarrow> db \<Rightarrow> bool" where
  "rule_key_ok rule d \<longleftrightarrow> 0 \<le> fr_ID rule \<and> fr_ID rule \<le> seq_rules d"

lemma upsert_rule_new:
  assumes "\<forall>r \<in> set (t_rules d). fr_Source r \<noteq> fr_Source rule" and "upsert_rule rule d = Inr (u, d')"
  defines "key \<equiv> if fr_ID rule = 0 then seq_rules d + 1 else fr_ID rule"
  shows "d' = d\<lparr>t_rules := t_rules d @ [rule\<lparr>fr_ID := key\<rparr>],
      seq_rules := (if fr_ID rule = 0 then seq_rules d + 1 else seq_rules d)\<rparr>"
    and "\<forall>r \<in> set (t_rules d). fr_ID r \<noteq> key"
proof -
  obtain r seq rows where "insert_row fr_ID set_fr_ID rule (seq_rules d) (t_rules d) = Inr (r, seq, rows)"
    and "d' = d\<lparr>t_rules := rows, seq_rules := seq\<rparr>"
    using assms(1,2) by (auto simp: upsert_rule_def split: sum.splits prod.splits)
  then show "d' = d\<lparr>t_rules := t_rules d @ [rule\<lparr>fr_ID := key\<rparr>],
      seq_rules := (if fr_ID rule = 0 then seq_rules d + 1 else seq_rules d)\<rparr>"
    and "\<forall>r \<in> set (t_rules d). fr_ID r \<noteq> key"
    by (auto simp: insert_row_def Let_def set_fr_ID_def key_def split: if_splits)
qed

lemma set_upsert:
  assumes "upsert_rule rule d = Inr (u, d')" and "r \<in> set (t_rules d')"
  shows "r \<in> set (t_rules d) \<or> (\<exists>k. r = rule\<lparr>fr_ID := k\<rparr>) \<or> (\<exists>old \<in> set (t_rules d). r = update_rule_columns rule old)"
proof (cases "\<exists>r \<in> set (t_rules d). fr_Source r = fr_Source rule")
  case True
  then have "t_rules d' = update_rows (\<lambda>r. fr_Source r = fr_Source rule) (update_rule_columns rule) (t_rules d)"
    using assms(1) by (auto simp: upsert_rule_def)
  with assms(2) show ?thesis by (auto dest: in_update_rows)
next
  case False
  then have new: "\<forall>r \<in> set (t_rules d). fr_Source r \<noteq> fr_Source rule" by blast
  show ?thesis using assms(2) upsert_rule_new(1) [OF new assms(1)] by auto
qed

lemma rules_inv_upsert:
  assumes "rules_inv d" and "rule_key_ok rule d" and "upsert_rule rule d = Inr (u, d')"
  shows "rules_inv d'"
proof (cases "\<exists>r \<in> set (t_rules d). fr_Source r = fr_Source rule")
  case True
  then have "d' = d\<lparr>t_rules := update_rows (\<lambda>r. fr_Source r = fr_Source rule) (update_rule_columns rule) (t_rules d),
      seq_rules := (if fr_ID rule = 0 then seq_rules d + 1 else seq_rules d)\<rparr>"
    using assms(3) by (simp add: upsert_rule_def)
  then show ?thesis using rules_inv_update [OF assms(1), of "update_rule_columns rule"] by simp
next
  case False
  let ?key = "if fr_ID rule = 0 then seq_rules d + 1 else fr_ID rule"
  have new: "\<forall>r \<in> set (t_rules d). fr_Source r \<noteq> fr_Source rule" using False by blast
  note up = upsert_rule_new [OF new assms(3)]
  have seq: "0 \<le> seq_rules d" "0 < ?key" "?key \<le> (if fr_ID rule = 0 then seq_rules d + 1 else seq_rules d)"
    using assms(1,2) by (auto simp: rules_inv_def keys_ok_def rule_key_ok_def)
  show ?thesis using assms(1) up(2) new seq unfolding up(1) rules_inv_def keys_ok_def by force
qed

lemma db_inv_SaveForwardingRule [inv_intros]:
  assumes "db_inv d" and "rule_key_ok rule d" and "SaveForwardingRule f rule d = (r, d')"
  shows "db_inv d'"
  using assms(3) unfolding SaveForwardingRule_def
proof (rule transaction_inv)
  fix a e assume "(if fails f 0 then Inl ErrDatabase else upsert_rule rule d) = Inr (a, e)"
  then have u: "upsert_rule rule d = Inr (a, e)" by (simp split: if_splits)
  show "db_inv e"
    by (rule db_inv_rules_part [OF assms(1) rules_inv_upsert [OF db_invD(2) [OF assms(1)] assms(2) u]])
      (use u in \<open>auto simp: upsert_rule_def split: if_splits sum.splits prod.splits\<close>)
qed (rule assms(1))

lemma SetForwardingPaused_cases:
  assumes "SetForwardingPaused f source paused d = (r, d')"
  shows "d' = d \<or> d' = d\<lparr>t_rules := update_rows (\<lambda>r. fr_Source r = source) (\<lambda>r. r\<lparr>fr_Paused := paused\<rparr>) (t_rules d)\<rparr>"
  using assms by (auto simp: SetForwardingPaused_def transaction_def exec_def
      split: if_splits sum.splits prod.splits commit_outcome.splits)

lemma db_inv_SetForwardingPaused [inv_intros]:
  assumes "db_inv d" and "SetForwardingPaused f source paused d = (r, d')"
  shows "db_inv d'"
proof -
  let ?rows = "update_rows (\<lambda>r. fr_Source r = source) (\<lambda>r. r\<lparr>fr_Paused := paused\<rparr>) (t_rules d)"
  have "rules_inv (d\<lparr>t_rules := ?rows, seq_rules := seq_rules d\<rparr>)"
    by (rule rules_inv_update [OF db_invD(2) [OF assms(1)]]) simp_all
  then have "db_inv (d\<lparr>t_rules := ?rows\<rparr>)" by (intro db_inv_rules_part [OF assms(1)]) simp_all
  then show ?thesis using SetForwardingPaused_cases [OF assms(2)] assms(1) by auto
qed

section \<open>What saving a rule does\<close>

lemma find_rule_append:
  "find_rule s (d\<lparr>t_rules := t_rules d @ [r], seq_rules := n\<rparr>) =
     (case find_rule s d of Some q \<Rightarrow> Some q | None \<Rightarrow> if fr_Source r = s then Some r else None)"
  by (simp add: find_rule_def find_snoc)

lemma find_rule_update:
  assumes "\<And>r. fr_Source (g r) = fr_Source r"
  shows "find_rule s (d\<lparr>t_rules := update_rows (\<lambda>r. fr_Source r = k) g (t_rules d), seq_rules := n\<rparr>) =
     map_option (\<lambda>r. if fr_Source r = k then g r else r) (find_rule s d)"
  unfolding find_rule_def update_rows_def using assms by (simp add: find_map)

lemma find_rule_Some: "find_rule s d = Some r \<Longrightarrow> r \<in> set (t_rules d) \<and> fr_Source r = s"
  by (auto simp: find_rule_def dest: find_Some_in)

text \<open>
  Editing a rule cannot resume a paused source. Saving a rule stores its settings under its
  source and leaves every other source's rule alone; when the source already has a rule, its id
  and its pause flag are kept whatever the saved value says, so only \<open>SetForwardingPaused\<close>
  changes which existing sources are paused.
\<close>

theorem save_rule_effect:
  assumes "SaveForwardingRule f rule d = (Inr (), d')"
  shows "(\<exists>r. find_rule (fr_Source rule) d' = Some r \<and> r = rule\<lparr>fr_ID := fr_ID r, fr_Paused := fr_Paused r\<rparr> \<and>
       (case find_rule (fr_Source rule) d of
          None \<Rightarrow> fr_Paused r = fr_Paused rule
        | Some old \<Rightarrow> fr_Paused r = fr_Paused old \<and> fr_ID r = fr_ID old)) \<and>
    (\<forall>s. s \<noteq> fr_Source rule \<longrightarrow> find_rule s d' = find_rule s d) \<and>
    t_webhooks d' = t_webhooks d \<and> t_attempts d' = t_attempts d"
proof -
  have up: "upsert_rule rule d = Inr ((), d')"
    using assms by (simp add: SaveForwardingRule_def transaction_ok split: if_splits)
  show ?thesis
  proof (cases "find_rule (fr_Source rule) d")
    case (Some old)
    note old = find_rule_Some [OF Some]
    then have d': "d' = d\<lparr>t_rules := update_rows (\<lambda>r. fr_Source r = fr_Source rule) (update_rule_columns rule) (t_rules d),
        seq_rules := (if fr_ID rule = 0 then seq_rules d + 1 else seq_rules d)\<rparr>"
      using up unfolding upsert_rule_def by (simp split: if_splits)
    have find: "find_rule s d' = map_option (\<lambda>r. if fr_Source r = fr_Source rule then update_rule_columns rule r else r)
        (find_rule s d)" for s
      unfolding d' by (rule find_rule_update) simp
    have "find_rule s d' = find_rule s d" if "s \<noteq> fr_Source rule" for s
      using that find_rule_Some [of s d] by (cases "find_rule s d") (auto simp: find)
    moreover have "find_rule (fr_Source rule) d' = Some (update_rule_columns rule old)"
      using old Some by (simp add: find)
    moreover have "update_rule_columns rule old = rule\<lparr>fr_ID := fr_ID old, fr_Paused := fr_Paused old\<rparr>"
      using old by (simp add: update_rule_columns_def)
    ultimately show ?thesis using Some by (simp add: d')
  next
    case None
    then have new: "\<forall>r \<in> set (t_rules d). fr_Source r \<noteq> fr_Source rule"
      by (simp add: find_rule_def find_None_iff)
    note d' = upsert_rule_new(1) [OF new up]
    have find: "find_rule s d' = (case find_rule s d of Some q \<Rightarrow> Some q
        | None \<Rightarrow> if fr_Source rule = s
                  then Some (rule\<lparr>fr_ID := (if fr_ID rule = 0 then seq_rules d + 1 else fr_ID rule)\<rparr>) else None)" for s
      unfolding d' by (simp only: find_rule_append forwarding_rule.simps) (simp split: option.splits)
    then show ?thesis using None by (auto simp: d' split: option.splits)
  qed
qed

definition demo_rule :: forwarding_rule where
  "demo_rule = empty_rule\<lparr>fr_Source := ''s'', fr_Target := ''t''\<rparr>"

definition demo_paused :: db where
  "demo_paused = demo_db\<lparr>t_rules := [demo_rule\<lparr>fr_ID := 1, fr_Paused := True\<rparr>], seq_rules := 1\<rparr>"

definition demo_saved :: db where
  "demo_saved = demo_db\<lparr>t_rules := [demo_rule\<lparr>fr_ID := 1, fr_Target := ''u'', fr_Paused := True\<rparr>], seq_rules := 2\<rparr>"

lemma demo_paused_inv: "db_inv demo_paused"
  by (rule db_inv_rules_part [OF demo_inv(1)])
    (simp_all add: demo_paused_def demo_rule_def empty_rule_def rules_inv_def keys_ok_def)

lemma demo_saved_step:
  "SaveForwardingRule no_faults (demo_rule\<lparr>fr_Target := ''u''\<rparr>) demo_paused = (Inr (), demo_saved)"
  by (simp add: SaveForwardingRule_def transaction_def upsert_rule_def demo_paused_def demo_saved_def
      demo_rule_def empty_rule_def update_rows_def update_rule_columns_def)

theorem save_rule_effect_witness:
  "(\<exists>r. find_rule ''s'' demo_saved = Some r \<and> fr_Target r = ''u'' \<and> fr_Paused r) \<and>
   t_webhooks demo_saved = t_webhooks demo_paused"
proof -
  have "find_rule ''s'' demo_paused = Some (demo_rule\<lparr>fr_ID := 1, fr_Paused := True\<rparr>)"
    by (simp add: find_rule_def demo_paused_def demo_rule_def)
  with save_rule_effect [OF demo_saved_step] show ?thesis
    by (auto simp: demo_rule_def empty_rule_def)
qed

section \<open>Pausing\<close>

text \<open>
  Pausing a source changes its flag and nothing else, and reports \<open>ErrNotFound\<close> exactly
  when the source has no rule. While a source is paused no claim returns one of its webhooks.
\<close>

theorem pause_effect:
  assumes "db_inv d" and "SetForwardingPaused no_faults source paused d = (res, d')"
  shows "res = (if find_rule source d = None then Inl ErrNotFound else Inr ()) \<and>
    find_rule source d' = map_option (\<lambda>r. r\<lparr>fr_Paused := paused\<rparr>) (find_rule source d) \<and>
    (\<forall>s. s \<noteq> source \<longrightarrow> find_rule s d' = find_rule s d) \<and> t_webhooks d' = t_webhooks d \<and>
    (\<forall>locked f limit now leaseUntil claims d''. paused \<longrightarrow> find_rule source d \<noteq> None \<longrightarrow>
       ClaimDeliverableWebhooks locked f limit now leaseUntil d' = (Inr claims, d'') \<longrightarrow>
       (\<forall>c \<in> set claims. wh_Source c \<noteq> source))"
proof -
  have d': "d' = d\<lparr>t_rules := update_rows (\<lambda>r. fr_Source r = source) (\<lambda>r. r\<lparr>fr_Paused := paused\<rparr>) (t_rules d),
      seq_rules := seq_rules d\<rparr>"
    and res: "res = (if rows_affected (\<lambda>r. fr_Source r = source) (t_rules d) = 0 then Inl ErrNotFound else Inr ())"
    using assms(2) by (auto simp: SetForwardingPaused_def transaction_def split: if_splits)
  have none: "rows_affected (\<lambda>r. fr_Source r = source) (t_rules d) = 0 \<longleftrightarrow> find_rule source d = None"
    by (simp add: rows_affected_def find_rule_def find_None_filter)
  have find: "find_rule s d' = map_option (\<lambda>r. if fr_Source r = source then r\<lparr>fr_Paused := paused\<rparr> else r)
      (find_rule s d)" for s
    unfolding d' by (rule find_rule_update) simp
  have same: "find_rule source d' = map_option (\<lambda>r. r\<lparr>fr_Paused := paused\<rparr>) (find_rule source d)"
    using find_rule_Some [of source d] by (cases "find_rule source d") (simp_all add: find)
  have other: "find_rule s d' = find_rule s d" if "s \<noteq> source" for s
    using that find_rule_Some [of s d] by (cases "find_rule s d") (auto simp: find)
  have paused: "wh_Source c \<noteq> source"
    if p: "paused" "find_rule source d \<noteq> None"
      and claim: "ClaimDeliverableWebhooks locked f limit now leaseUntil d' = (Inr claims, d'')"
      and c: "c \<in> set claims" for locked f limit now leaseUntil claims d'' c
  proof -
    from p same obtain r where r: "find_rule source d' = Some (r\<lparr>fr_Paused := True\<rparr>)" by auto
    from find_rule_Some [OF r] have "source_paused d' source"
      unfolding source_paused_iff by (intro bexI [of _ "r\<lparr>fr_Paused := True\<rparr>"]) auto
    moreover have "0 < limit" using claim c by (auto simp: ClaimDeliverableWebhooks_def split: if_splits)
    with Claim_Inr(1) [OF claim] c obtain w where "w \<in> set (claim_select locked limit now d')"
      "wh_Source c = wh_Source w" by auto
    ultimately show ?thesis using claim_select_in [of w locked limit now d'] by (auto simp: claimable_def)
  qed
  show ?thesis using res none same other paused by (auto simp: d')
qed

theorem pause_effect_witness:
  "find_rule ''s'' (snd (SetForwardingPaused no_faults ''s'' False demo_paused)) =
     Some (demo_rule\<lparr>fr_ID := 1, fr_Paused := False\<rparr>) \<and>
   fst (SetForwardingPaused no_faults ''x'' True demo_paused) = Inl ErrNotFound"
  using pause_effect [OF demo_paused_inv prod.collapse [symmetric], of "''s''" False]
    pause_effect [OF demo_paused_inv prod.collapse [symmetric], of "''x''" True]
  by (simp add: find_rule_def demo_paused_def demo_rule_def)

section \<open>Queue counts\<close>

lemma foldl_upd_map:
  "distinct ks \<Longrightarrow> foldl (\<lambda>m (k, v). m(k \<mapsto> v)) m (map (\<lambda>k. (k, f k)) ks) x =
     (if x \<in> set ks then Some (f x) else m x)"
  by (induction ks arbitrary: m) auto

text \<open>
  The queue counts on the forwarding page are exact: a source is listed when it has a
  webhook waiting for delivery, with the number of them, and absent otherwise; and every webhook
  that a claim would take is counted.
\<close>

theorem queued_counts_correct:
  "\<exists>m. QueuedWebhookCounts False now d = Inr m \<and>
    (\<forall>source. m source =
       (let n = length (filter (\<lambda>w. queued now w \<and> wh_Source w = source) (t_webhooks d))
        in if n = 0 then None else Some (int n))) \<and>
    (\<forall>locked. {w. claimable locked now d w} \<subseteq> {w. queued now w})"
proof -
  let ?ws = "filter (queued now) (t_webhooks d)"
  let ?m = "foldl (\<lambda>m (source, n). m(source \<mapsto> n)) Map.empty (group_counts wh_Source ?ws)"
  have "?m source = (let n = length (filter (\<lambda>w. queued now w \<and> wh_Source w = source) (t_webhooks d))
        in if n = 0 then None else Some (int n))" for source
  proof -
    have "?m source = (if source \<in> set (map wh_Source ?ws)
        then Some (int (length (filter (\<lambda>w. wh_Source w = source) ?ws))) else None)"
      unfolding group_counts_def by (subst foldl_upd_map) auto
    moreover have "source \<in> set (map wh_Source ?ws) \<longleftrightarrow> filter (\<lambda>w. wh_Source w = source) ?ws \<noteq> []"
      by (auto simp: filter_empty_conv)
    ultimately show ?thesis by (simp add: Let_def conj_commute)
  qed
  moreover have "queued now w" if "claimable locked now d w" for w locked
    using that by (auto simp: claimable_def deliverable_def queued_def)
  ultimately show ?thesis by (auto simp: QueuedWebhookCounts_def)
qed

end
