(* ===== verification/Users.thy ===== *)
theory Users
  imports DbInv
begin

text \<open>
  What \<open>EnsureAdmin\<close> and \<open>FindUserByEmail\<close> (theory Store) guarantee: after a successful start the
  configured administrator exists and can log in with the configured password, and the table
  of users stays well formed. \<open>hash\<close> and \<open>matches\<close> stand for \<open>bcrypt\<close>; the one fact relied on is
  that a generated hash matches the password it was generated from.
\<close>

lemma FindUserByEmail_Inr:
  assumes "FindUserByEmail failed email d = Inr u"
  shows "u \<in> set (t_users d)" and "us_Email u = email"
  using assms by (auto simp: FindUserByEmail_def dest: find_Some_in split: if_splits option.splits)

lemma FindUserByEmail_NotFound:
  "FindUserByEmail failed email d = Inl ErrNotFound \<Longrightarrow> u \<in> set (t_users d) \<Longrightarrow> us_Email u \<noteq> email"
  by (auto simp: FindUserByEmail_def find_None_iff split: if_splits option.splits)

lemma FindUserByEmail_found:
  assumes "users_inv d" and "u \<in> set (t_users d)"
  shows "FindUserByEmail False (us_Email u) d = Inr u"
proof -
  have "distinct (map us_Email (sort_key us_ID (t_users d)))"
    using assms(1) by (intro distinct_map_sort_key) (simp add: users_inv_def)
  then have "find (\<lambda>v. us_Email v = us_Email u) (sort_key us_ID (t_users d)) = Some u"
    using assms(2) by (intro find_distinct_key) simp_all
  then show ?thesis by (simp add: FindUserByEmail_def)
qed

text \<open>The row of one user with a new email and password, as an administrator.\<close>

definition adopted :: "string \<Rightarrow> string \<Rightarrow> user \<Rightarrow> user" where
  "adopted email hashed u = u\<lparr>us_Email := email, us_Password := hashed, us_IsAdmin := True\<rparr>"

lemma adopted_simps [simp]:
  "us_ID (adopted e h u) = us_ID u" "us_Email (adopted e h u) = e" "us_Password (adopted e h u) = h"
  "us_IsAdmin (adopted e h u)"
  by (simp_all add: adopted_def)

text \<open>
  \<open>admin_ready\<close>: the user of this email is an administrator whose password matches, and the
  users are those of \<open>d\<close> with at most the row of \<open>u\<close> changed.
\<close>

definition admin_ready :: "(string \<Rightarrow> string \<Rightarrow> bool) \<Rightarrow> string \<Rightarrow> string \<Rightarrow> db \<Rightarrow> bool" where
  "admin_ready matches email password d \<longleftrightarrow>
     (\<exists>u \<in> set (t_users d). us_Email u = email \<and> us_IsAdmin u \<and> matches (us_Password u) password)"

lemma adopt_admin_Inr:
  assumes "adopt_admin matches failed email password hashed u d = Inr (x, d')"
  obtains (kept) "d' = d" "us_IsAdmin u" "matches (us_Password u) password"
  | (updated) "d' = d\<lparr>t_users := update_rows (\<lambda>x. us_ID x = us_ID u) (adopted email hashed) (t_users d)\<rparr>"
  using assms by (auto simp: adopt_admin_def adopted_def [abs_def] split: if_splits)

text \<open>
  \<open>stale_admin\<close>: the one user is an administrator under another email, and the configured
  password is already theirs. \<open>EnsureAdmin\<close> then returns before it writes the email.
\<close>

definition stale_admin :: "(string \<Rightarrow> string \<Rightarrow> bool) \<Rightarrow> string \<Rightarrow> string \<Rightarrow> db \<Rightarrow> bool" where
  "stale_admin matches email password d \<longleftrightarrow>
     (\<exists>u. t_users d = [u] \<and> us_Email u \<noteq> email \<and> us_IsAdmin u \<and> matches (us_Password u) password)"

lemma map_email_update:
  assumes "\<And>x. x \<in> set rows \<Longrightarrow> us_ID x = us_ID u \<Longrightarrow> us_Email x = email"
  shows "map us_Email (update_rows (\<lambda>x. us_ID x = us_ID u) (adopted email hashed) rows) = map us_Email rows"
  using assms by (auto simp: update_rows_def)

lemma adopt_admin_ready:
  assumes "users_inv d" and "u \<in> set (t_users d)" and one: "us_Email u = email \<or> t_users d = [u]"
    and "matches hashed password"
    and "adopt_admin matches failed email password hashed u d = Inr (x, d')"
  shows "users_inv d'" and "admin_ready matches email password d' \<or> stale_admin matches email password d \<and> d' = d"
proof -
  have uniq: "v = u" if "v \<in> set (t_users d)" "us_ID v = us_ID u" for v
    using assms(1,2) that distinct_map_eqD unfolding users_inv_def keys_ok_def by metis
  show "admin_ready matches email password d' \<or> stale_admin matches email password d \<and> d' = d"
    using assms(5)
  proof (cases rule: adopt_admin_Inr)
    case kept
    then show ?thesis using assms(2) one by (auto simp: admin_ready_def stale_admin_def)
  next
    case updated
    have "adopted email hashed u \<in> set (t_users d')"
      using assms(2) by (auto simp: updated set_update_rows)
    then have "admin_ready matches email password d'"
      using assms(4) unfolding admin_ready_def by (intro bexI) auto
    then show ?thesis ..
  qed
  show "users_inv d'"
    using assms(5)
  proof (cases rule: adopt_admin_Inr)
    case kept
    then show ?thesis using assms(1) by simp
  next
    case updated
    have keys: "keys_ok us_ID (seq_users d) (t_users d')"
      using assms(1) by (simp add: updated users_inv_def keys_ok_update)
    have "distinct (map us_Email (t_users d'))"
    proof (cases "us_Email u = email")
      case True
      then have "map us_Email (t_users d') = map us_Email (t_users d)"
        using map_email_update [of "t_users d" u email hashed] uniq by (auto simp: updated)
      then show ?thesis using assms(1) by (simp add: users_inv_def)
    next
      case False
      then show ?thesis using one by (simp add: updated update_rows_def)
    qed
    then show ?thesis using keys by (simp add: updated users_inv_def)
  qed
qed

definition new_admin :: "string \<Rightarrow> string \<Rightarrow> user" where
  "new_admin email hashed = \<lparr>us_ID = 0, us_Email = email, us_Password = hashed, us_IsAdmin = True\<rparr>"

lemma insert_admin_ready:
  assumes "users_inv d" and "t_users d = []" and "matches hashed password"
    and "insert_user (new_admin email hashed) d = Inr (x, d')"
  shows "users_inv d'" and "admin_ready matches email password d'"
proof -
  have "insert_row us_ID set_us_ID (new_admin email hashed) (seq_users d) (t_users d) =
      Inr (set_us_ID (seq_users d + 1) (new_admin email hashed), seq_users d + 1,
           t_users d @ [set_us_ID (seq_users d + 1) (new_admin email hashed)])"
    by (rule us_table.insert_fresh) (simp_all add: new_admin_def assms(2))
  then have d': "t_users d' = [adopted email hashed (set_us_ID (seq_users d + 1) (new_admin email hashed))]"
    "seq_users d' = seq_users d + 1"
    using assms(2,4) by (auto simp: insert_user_def adopted_def set_us_ID_def new_admin_def)
  show "admin_ready matches email password d'" using assms(3) by (simp add: admin_ready_def d')
  show "users_inv d'" using assms(1) by (simp add: users_inv_def keys_ok_def d' set_us_ID_def)
qed

lemma ensure_admin_body_Inr:
  assumes "users_inv d" and "matches hashed password"
    and body: "ensure_admin_body matches f email password hashed d = Inr (x, d')"
  shows "users_inv d' \<and> (admin_ready matches email password d' \<or> stale_admin matches email password d \<and> d' = d)"
proof (cases "FindUserByEmail (fails f 0) email d")
  case (Inr u)
  then show ?thesis
    using adopt_admin_ready [of d u email matches hashed password "fails f 1" x d'] assms
      FindUserByEmail_Inr [OF Inr] Inr by (simp add: ensure_admin_body_def)
next
  case (Inl e)
  show ?thesis
  proof (cases "t_users d")
    case Nil
    then have "insert_user (new_admin email hashed) d = Inr (x, d')"
      using body Inl by (simp add: ensure_admin_body_def new_admin_def split: if_splits)
    from insert_admin_ready [OF assms(1) Nil _ this] assms(2) show ?thesis by blast
  next
    case (Cons u us)
    have len: "length (sort_key us_ID (t_users d)) = Suc (length us)" using Cons by simp
    show ?thesis
    proof (cases us)
      case Nil
      then have "adopt_admin matches (fails f 2) email password hashed u d = Inr (x, d')"
        using body Inl Cons by (simp add: ensure_admin_body_def split: if_splits)
      with adopt_admin_ready [of d u email matches hashed password "fails f 2" x d'] assms Cons Nil
      show ?thesis by simp
    next
      case (Cons v vs)
      then obtain a b rest where "sort_key us_ID (t_users d) = a # b # rest"
        using len by (metis length_Suc_conv)
      then show ?thesis using body Inl by (simp add: ensure_admin_body_def split: if_splits)
    qed
  qed
qed

lemma ensure_admin_body_frame:
  assumes "ensure_admin_body matches f email password hashed d = Inr (x, d')"
  shows "d' = d\<lparr>t_users := t_users d', seq_users := seq_users d'\<rparr>"
  using assms unfolding ensure_admin_body_def adopt_admin_def insert_user_def
  by (auto split: sum.splits if_splits list.splits prod.splits)

lemma EnsureAdmin_cases:
  assumes "EnsureAdmin hash matches f email password d = (r, d')"
  obtains (unchanged) e where "r = Inl e" "d' = d"
  | (body) hashed x where "hash password = Inr hashed"
      "ensure_admin_body matches f email password hashed d = Inr (x, d')"
proof (cases "hash password")
  case (Inl e)
  then show thesis using assms by (intro unchanged) (auto simp: EnsureAdmin_def)
next
  case (Inr hashed)
  then have "transaction f (ensure_admin_body matches f email password hashed) d = (r, d')"
    using assms by (simp add: EnsureAdmin_def)
  then show thesis using Inr body unchanged by (cases rule: transaction_cases) blast+
qed

lemma db_inv_EnsureAdmin [inv_intros]:
  assumes "db_inv d" and bcrypt: "\<And>h. hash password = Inr h \<Longrightarrow> matches h password"
    and "EnsureAdmin hash matches f email password d = (r, d')"
  shows "db_inv d'"
  using assms(3)
proof (cases rule: EnsureAdmin_cases)
  case (body hashed x)
  have u: "users_inv d'"
    using ensure_admin_body_Inr [OF db_invD(3) [OF assms(1)] bcrypt [OF body(1)] body(2)] ..
  show ?thesis by (rule db_inv_users_part [OF assms(1) u ensure_admin_body_frame [OF body(2)]])
qed (use assms(1) in simp)

text \<open>
  After a start that reports no error, the configured email belongs to an administrator
  whose password matches the configured one, unless the database held a single administrator
  under another email who already had that password: then the start leaves it as it was.
\<close>

theorem ensure_admin_effect:
  assumes "db_inv d" and bcrypt: "\<And>h. hash password = Inr h \<Longrightarrow> matches h password"
    and "EnsureAdmin hash matches f email password d = (Inr (), d')"
  shows "admin_ready matches email password d' \<or> (stale_admin matches email password d \<and> d' = d)"
  using assms(3)
proof (cases rule: EnsureAdmin_cases)
  case (body hashed x)
  show ?thesis
    using ensure_admin_body_Inr [OF db_invD(3) [OF assms(1)] bcrypt [OF body(1)] body(2)] by blast
qed simp

text \<open>
  A stand-in for \<open>bcrypt\<close> that satisfies the fact relied on: the hash is the marked password.
\<close>

definition demo_hash :: "string \<Rightarrow> go_error + string" where "demo_hash p = Inr (CHR ''#'' # p)"
definition demo_matches :: "string \<Rightarrow> string \<Rightarrow> bool" where "demo_matches h p \<longleftrightarrow> h = CHR ''#'' # p"

definition demo_admin :: "string \<Rightarrow> string \<Rightarrow> db" where
  "demo_admin email password = empty_db\<lparr>t_users :=
     [\<lparr>us_ID = 1, us_Email = email, us_Password = CHR ''#'' # password, us_IsAdmin = True\<rparr>], seq_users := 1\<rparr>"

lemma demo_ensure_first:
  "EnsureAdmin demo_hash demo_matches no_faults ''a'' ''p'' empty_db = (Inr (), demo_admin ''a'' ''p'')"
  by (simp add: EnsureAdmin_def ensure_admin_body_def demo_hash_def transaction_def FindUserByEmail_def
      empty_db_def insert_user_def insert_row_def set_us_ID_def demo_admin_def)

theorem ensure_admin_effect_witness:
  "admin_ready demo_matches ''a'' ''p'' (demo_admin ''a'' ''p'')"
proof -
  have "admin_ready demo_matches ''a'' ''p'' (demo_admin ''a'' ''p'') \<or>
      (stale_admin demo_matches ''a'' ''p'' empty_db \<and> demo_admin ''a'' ''p'' = empty_db)"
    by (rule ensure_admin_effect [OF db_inv_empty _ demo_ensure_first])
      (simp add: demo_hash_def demo_matches_def)
  then show ?thesis by (simp add: stale_admin_def empty_db_def)
qed

text \<open>
  An email change alone is not applied. When the single administrator's password is the
  configured one, \<open>EnsureAdmin\<close> reports success, but no user has the configured email
  afterwards, so the configured credentials cannot log in.
\<close>

theorem ensure_admin_ignores_new_email:
  assumes "stale_admin matches email password d" and "hash password = Inr hashed"
  shows "EnsureAdmin hash matches no_faults email password d = (Inr (), d) \<and>
    FindUserByEmail False email d = Inl ErrNotFound"
proof -
  from assms(1) obtain u where u: "t_users d = [u]" "us_Email u \<noteq> email" "us_IsAdmin u"
    "matches (us_Password u) password"
    by (auto simp: stale_admin_def)
  have "FindUserByEmail False email d = Inl ErrNotFound" by (simp add: FindUserByEmail_def u)
  then show ?thesis using assms(2) u
    by (simp add: EnsureAdmin_def transaction_def ensure_admin_body_def adopt_admin_def)
qed

theorem ensure_admin_ignores_new_email_witness:
  "EnsureAdmin demo_hash demo_matches no_faults ''b'' ''p'' (demo_admin ''a'' ''p'') =
     (Inr (), demo_admin ''a'' ''p'') \<and>
   FindUserByEmail False ''b'' (demo_admin ''a'' ''p'') = Inl ErrNotFound"
  by (rule ensure_admin_ignores_new_email)
    (simp_all add: stale_admin_def demo_admin_def demo_matches_def demo_hash_def)

end
