(* ===== verification/Lifecycle.thy ===== *)
theory Lifecycle
  imports Leases BulkReplay Retention Rules Users
begin

text \<open>
  The life of one webhook row under all the operations of the storage package. \<open>row_step\<close> says
  how a row may change at all; \<open>db_step\<close> that every row of a database changed that way and
  that new rows have new keys. Each operation is shown to be a \<open>db_step\<close>, which is what the
  exclusivity of leases and the abstract lifecycle in theory System rest on.
\<close>

definition finish_statuses :: "string set" where
  "finish_statuses = {st_success, st_failed, st_cancelled, st_skipped}"

inductive row_step :: "webhook option \<Rightarrow> webhook option \<Rightarrow> bool" where
  row_same: "row_step x x"
| row_receive: "wh_Status h = st_pending \<Longrightarrow> row_step None (Some h)"
| row_claim: "deliverable now w \<Longrightarrow> row_step (Some w) (Some (claim_copy leaseUntil w))"
| row_finish: "wh_Status w = st_processing \<Longrightarrow> res_Status result \<in> finish_statuses \<Longrightarrow>
    row_step (Some w) (Some (finish_updates result t w))"
| row_replay: "wh_Status w \<noteq> st_processing \<Longrightarrow> row_step (Some w) (Some (replayUpdates w))"
| row_remove: "wh_Status w \<noteq> st_processing \<Longrightarrow> row_step (Some w) None"

inductive_cases row_step_fromE: "row_step (Some w) y"
inductive_cases row_step_newE: "row_step None (Some h)"

definition db_step :: "db \<Rightarrow> db \<Rightarrow> bool" where
  "db_step d d' \<longleftrightarrow> seq_webhooks d \<le> seq_webhooks d' \<and>
     (\<forall>k. row_step (find_webhook k d) (find_webhook k d') \<and>
          (find_webhook k d = None \<longrightarrow> find_webhook k d' \<noteq> None \<longrightarrow> seq_webhooks d < k))"

lemma db_stepI:
  assumes "seq_webhooks d \<le> seq_webhooks d'"
    and "\<And>k. row_step (find_webhook k d) (find_webhook k d')"
    and "\<And>k. find_webhook k d = None \<Longrightarrow> find_webhook k d' \<noteq> None \<Longrightarrow> seq_webhooks d < k"
  shows "db_step d d'"
  using assms by (simp add: db_step_def)

lemma db_stepD:
  assumes "db_step d d'"
  shows "seq_webhooks d \<le> seq_webhooks d'" and "row_step (find_webhook k d) (find_webhook k d')"
    and "find_webhook k d = None \<Longrightarrow> find_webhook k d' \<noteq> None \<Longrightarrow> seq_webhooks d < k"
  using assms by (simp_all add: db_step_def)

lemma db_step_same_webhooks:
  "t_webhooks d' = t_webhooks d \<Longrightarrow> seq_webhooks d' = seq_webhooks d \<Longrightarrow> db_step d d'"
  by (simp add: db_step_def find_webhook_def row_same)

lemma db_step_refl [simp]: "db_step d d"
  by (rule db_step_same_webhooks) simp_all

lemma db_step_transaction:
  assumes "transaction f body d = (r, d')" and "\<And>a e. body d = Inr (a, e) \<Longrightarrow> db_step d e"
  shows "db_step d d'"
  using assms by (rule transaction_inv [where I = "db_step d", OF _ db_step_refl])

text \<open>An update of rows by their key is a step when each touched row makes one.\<close>

lemma db_step_update:
  assumes "\<And>w. wh_ID (g w) = wh_ID w"
    and "\<And>w. w \<in> set (t_webhooks d) \<Longrightarrow> P w \<Longrightarrow> row_step (Some w) (Some (g w))"
    and "t_webhooks d' = update_rows P g (t_webhooks d)" and "seq_webhooks d' = seq_webhooks d"
  shows "db_step d d'"
proof (rule db_stepI)
  fix k
  have find: "find_webhook k d' = map_option (\<lambda>w. if P w then g w else w) (find_webhook k d)"
    unfolding find_webhook_def assms(3) by (rule wh_table.find_update) (rule assms(1))
  show "row_step (find_webhook k d) (find_webhook k d')"
  proof (cases "find_webhook k d")
    case (Some w)
    then show ?thesis using assms(2) [of w] find_webhook_Some(1) [OF Some] by (simp add: find row_same)
  qed (simp add: find row_same)
  show "seq_webhooks d < k" if "find_webhook k d = None" "find_webhook k d' \<noteq> None"
    using that by (simp add: find)
qed (simp add: assms(4))

lemma find_webhook_filter:
  assumes "delivery_inv d" and "t_webhooks d' = filter P (t_webhooks d)"
  shows "find_webhook k d' = (case find_webhook k d of None \<Rightarrow> None | Some w \<Rightarrow> if P w then Some w else None)"
  unfolding find_webhook_def assms(2)
  by (rule find_filter_key) (use delivery_invD(1) [OF assms(1)] in \<open>simp add: keys_ok_def\<close>)

lemma db_step_delete:
  assumes "delivery_inv d" and "t_webhooks d' = filter P (t_webhooks d)" and "seq_webhooks d' = seq_webhooks d"
    and "\<And>w. w \<in> set (t_webhooks d) \<Longrightarrow> \<not> P w \<Longrightarrow> wh_Status w \<noteq> st_processing"
  shows "db_step d d'"
proof (rule db_stepI)
  fix k
  note find = find_webhook_filter [OF assms(1,2), of k]
  show "row_step (find_webhook k d) (find_webhook k d')"
  proof (cases "find_webhook k d")
    case (Some w)
    then show ?thesis using assms(4) [of w] find_webhook_Some(1) [OF Some] by (simp add: find row_same row_remove)
  qed (simp add: find row_same)
  show "seq_webhooks d < k" if "find_webhook k d = None" "find_webhook k d' \<noteq> None"
    using that by (simp add: find)
qed (simp add: assms(3))

section \<open>Every operation is a step\<close>

lemma db_step_Save:
  assumes "db_inv d" and "wh_ID h = 0" and "webhook_ok h" and "wh_Status h = st_pending" and "Save f h d = (r, d')"
  shows "db_step d d'"
  using assms(5) unfolding Save_def
proof (rule db_step_transaction)
  fix a e assume "(if fails f 0 then Inl ErrDatabase else insert_webhook h d) = Inr (a, e)"
  then have ins: "insert_webhook h d = Inr (a, e)" by (simp split: if_splits)
  note i = delivery_inv_insert_webhook [OF db_invD(1) [OF assms(1)] assms(3,2) ins]
  have find: "find_webhook k e =
      (case find_webhook k d of Some w \<Rightarrow> Some w | None \<Rightarrow> if k = seq_webhooks d + 1 then Some a else None)" for k
    using i(2) by (simp add: find_webhook_def i(3) find_snoc split: option.splits)
  show "db_step d e"
  proof (rule db_stepI)
    show "row_step (find_webhook k d) (find_webhook k e)" for k
      using assms(4) by (auto simp: find i(2) intro: row_step.intros split: option.splits)
    show "seq_webhooks d < k" if "find_webhook k d = None" "find_webhook k e \<noteq> None" for k
      using that by (simp add: find split: if_splits)
  qed (simp add: i(3))
qed

lemma db_step_Claim:
  assumes "ClaimDeliverableWebhooks locked f limit now leaseUntil d = (r, d')" and "db_inv d"
  shows "db_step d d'"
proof (cases "limit \<le> 0")
  case True
  then show ?thesis using assms by (simp add: ClaimDeliverableWebhooks_def)
next
  case False
  then obtain r' where "transaction f (claim_body locked f limit now leaseUntil) d = (r', d')"
    using assms(1) by (auto simp: ClaimDeliverableWebhooks_def split: prod.splits sum.splits)
  then show ?thesis
  proof (rule db_step_transaction)
    fix hooks e assume body: "claim_body locked f limit now leaseUntil d = Inr (hooks, e)"
    note b = claim_body_Inr [OF body]
    show "db_step d e"
    proof (rule db_step_update)
      show "t_webhooks e = update_rows (\<lambda>w. wh_ID w \<in> wh_ID ` set hooks) (claim_update leaseUntil) (t_webhooks d)"
        using b(2) by simp
      fix w assume w: "w \<in> set (t_webhooks d)" "wh_ID w \<in> wh_ID ` set hooks"
      from w(2) obtain h where h: "h \<in> set hooks" "wh_ID h = wh_ID w" by auto
      have c: "h \<in> set (t_webhooks d)" "deliverable now h"
        using h(1) b(1) claim_select_in by (auto simp: claimable_def)
      with webhook_unique [OF db_invD(1) [OF assms(2)] _ w(1) h(2)] have "deliverable now w" by simp
      then show "row_step (Some w) (Some (claim_update leaseUntil w))"
        by (simp add: claim_update_eq_copy row_claim)
    qed (use b(2) in simp_all)
  qed
qed

lemma db_step_Create:
  assumes "CreateDeliveryAttempt f clk claim target d = (r, d')"
  shows "db_step d d'"
  using Create_transaction [OF assms]
proof (elim disjE exE)
  fix r' assume "transaction f (create_body f clk claim target) d = (r', d')"
  then show ?thesis
  proof (rule db_step_transaction)
    fix a e assume "create_body f clk claim target d = Inr (a, e)"
    then obtain w where "insert_attempt (new_pending_attempt w target (clk 2)) d = Inr (a, e)"
      by (rule create_body_Inr)
    then show "db_step d e"
      by (intro db_step_same_webhooks) (auto simp: insert_attempt_def split: sum.splits prod.splits)
  qed
qed simp

lemma db_step_Finish:
  assumes "FinishDelivery f clk claim attemptID result d = (r, d')" and "db_inv d"
  shows "db_step d d'"
proof (cases "d' = d")
  case False
  then have t: "transaction f (finish_body f clk claim attemptID result) d = (r, d')"
    and st: "res_Status result \<in> finish_statuses"
    using assms(1) by (auto simp: FinishDelivery_def finish_statuses_def split: if_splits)
  from t show ?thesis
  proof (rule db_step_transaction)
    fix u e assume "finish_body f clk claim attemptID result d = Inr (u, e)"
    then obtain w P where w: "lockDeliveryLease (fails f 0) (clk 1) claim d = Inr w"
      and e: "e = update_webhooks (\<lambda>x. wh_ID x = wh_ID w) (finish_updates result (clk 2))
            (update_attempts P (complete_attempt result (clk 2)) d)"
      by (rule finish_body_Inr)
    note wl = lockDeliveryLease_Inr [OF w]
    show "db_step d e"
    proof (rule db_step_update)
      fix x assume "x \<in> set (t_webhooks d)" "wh_ID x = wh_ID w"
      with webhook_unique [OF db_invD(1) [OF assms(2)] _ wl(2)] wl(6) have "wh_Status x = st_processing" by metis
      with st show "row_step (Some x) (Some (finish_updates result (clk 2) x))" by (simp add: row_finish)
    qed (simp_all add: e)
  qed
qed simp

lemma db_step_Reset:
  assumes "ResetWebhookDeliveryState f k d = (r, d')" and "db_inv d"
  shows "db_step d d'"
  using assms(1) unfolding ResetWebhookDeliveryState_def
proof (rule db_step_transaction)
  fix a e
  assume "(case lockWebhook (fails f 0) k d of Inl e \<Rightarrow> Inl e
     | Inr w \<Rightarrow> if wh_Status w = st_processing then Inl ErrWebhookProcessing
         else exec (fails f 1) ((), update_webhooks (\<lambda>x. wh_ID x = wh_ID w) replayUpdates d)) = Inr (a, e)"
  then obtain w where w: "lockWebhook (fails f 0) k d = Inr w" "wh_Status w \<noteq> st_processing"
    and e: "e = update_webhooks (\<lambda>x. wh_ID x = wh_ID w) replayUpdates d"
    by (auto split: sum.splits if_splits)
  show "db_step d e"
  proof (rule db_step_update)
    fix x assume "x \<in> set (t_webhooks d)" "wh_ID x = wh_ID w"
    with webhook_unique [OF db_invD(1) [OF assms(2)] _ lockWebhook_Inr(1) [OF w(1)]] w(2)
    show "row_step (Some x) (Some (replayUpdates x))" by (metis row_replay)
  qed (simp_all add: e)
qed

lemma db_step_DeleteWebhook:
  assumes "DeleteWebhook f k d = (r, d')" and "db_inv d"
  shows "db_step d d'"
  using assms(1) unfolding DeleteWebhook_def
proof (rule db_step_transaction)
  fix a e
  assume "(case lockWebhook (fails f 0) k d of Inl e \<Rightarrow> Inl e
     | Inr w \<Rightarrow> if wh_Status w = st_processing then Inl ErrWebhookProcessing
         else if fails f 1 then Inl ErrDatabase
         else exec (fails f 2) ((), delete_webhooks (\<lambda>x. wh_ID x = wh_ID w)
            (delete_attempts (\<lambda>a. da_WebhookID a = k) d))) = Inr (a, e)"
  then obtain w where w: "lockWebhook (fails f 0) k d = Inr w" "wh_Status w \<noteq> st_processing"
    and e: "e = delete_webhooks (\<lambda>x. wh_ID x = wh_ID w) (delete_attempts (\<lambda>a. da_WebhookID a = k) d)"
    by (auto split: sum.splits if_splits)
  show "db_step d e"
  proof (rule db_step_delete [OF db_invD(1) [OF assms(2)]])
    show "t_webhooks e = filter (\<lambda>x. wh_ID x \<noteq> wh_ID w) (t_webhooks d)" by (simp add: e delete_rows_def)
    fix x assume "x \<in> set (t_webhooks d)" "\<not> wh_ID x \<noteq> wh_ID w"
    with webhook_unique [OF db_invD(1) [OF assms(2)] _ lockWebhook_Inr(1) [OF w(1)]] w(2)
    show "wh_Status x \<noteq> st_processing" by metis
  qed (simp add: e delete_webhooks_def delete_attempts_def)
qed

lemma db_step_Bulk:
  assumes "BulkReplayDeadLetters f ids d = (r, d')" and "db_inv d"
  shows "db_step d d'"
proof (cases "d' = d")
  case False
  then obtain unique where "transaction f (bulk_body f unique) d = (r, d')"
    using assms(1) by (auto simp: BulkReplayDeadLetters_def split: sum.splits if_splits)
  then show ?thesis
  proof (rule db_step_transaction)
    fix a e assume "bulk_body f unique d = Inr (a, e)"
    then have e: "e = update_webhooks (\<lambda>w. wh_ID w \<in> set (eligible_ids unique d)) replayUpdates d"
      by (rule bulk_body_Inr(3))
    show "db_step d e"
    proof (rule db_step_update)
      fix w assume "w \<in> set (t_webhooks d)" "wh_ID w \<in> set (eligible_ids unique d)"
      then have "wh_Status w = st_dead_lettered" by (simp add: eligible_rows [OF db_invD(1) [OF assms(2)]])
      then show "row_step (Some w) (Some (replayUpdates w))" by (simp add: row_replay)
    qed (simp_all add: e)
  qed
qed simp

lemma db_step_cleanup:
  assumes "cleanup_batch env before n d = (r, d')" and "db_inv d"
  shows "db_step d d'"
proof -
  from cleanup_batch_cleaned [OF assms(1)] obtain K where K: "K \<subseteq> expired_ids before d" "d' = cleaned K d" by blast
  show ?thesis
  proof (rule db_step_delete [OF db_invD(1) [OF assms(2)]])
    show "t_webhooks d' = filter (\<lambda>w. wh_ID w \<notin> K) (t_webhooks d)" by (simp add: K(2) cleaned_rows)
    fix w assume w: "w \<in> set (t_webhooks d)" "\<not> wh_ID w \<notin> K"
    then obtain v where v: "v \<in> set (t_webhooks d)" "wh_ID v = wh_ID w" "expired_finished before v"
      using K(1) unfolding expired_ids_def by fastforce
    from webhook_unique [OF db_invD(1) [OF assms(2)] v(1) w(1) v(2)] v(3)
    show "wh_Status w \<noteq> st_processing" by (simp add: expired_finished_def)
  qed (simp add: K(2) cleaned_def delete_webhooks_def delete_attempts_def)
qed

lemma db_step_SaveForwardingRule: "SaveForwardingRule f rule d = (r, d') \<Longrightarrow> db_step d d'"
  unfolding SaveForwardingRule_def
proof (erule db_step_transaction)
  fix a e assume "(if fails f 0 then Inl ErrDatabase else upsert_rule rule d) = Inr (a, e)"
  then show "db_step d e"
    by (intro db_step_same_webhooks) (auto simp: upsert_rule_def split: if_splits sum.splits prod.splits)
qed

lemma db_step_SetForwardingPaused: "SetForwardingPaused f source paused d = (r, d') \<Longrightarrow> db_step d d'"
  by (rule db_step_same_webhooks)
    (auto simp: SetForwardingPaused_def transaction_def exec_def
      split: if_splits sum.splits prod.splits commit_outcome.splits)

lemma db_step_DeleteForwardingRule: "DeleteForwardingRule f source d = (r, d') \<Longrightarrow> db_step d d'"
  by (rule db_step_same_webhooks)
    (auto simp: DeleteForwardingRule_def transaction_def exec_def split: if_splits commit_outcome.splits)

lemma db_step_EnsureAdmin: "EnsureAdmin hash matches f email password d = (r, d') \<Longrightarrow> db_step d d'"
proof (erule EnsureAdmin_cases)
  fix hashed x assume "ensure_admin_body matches f email password hashed d = Inr (x, d')"
  from ensure_admin_body_frame [OF this] show "db_step d d'"
    by (intro db_step_same_webhooks) (metis db.select_convs db.update_convs db.surjective)+
qed simp

lemmas db_step_intros =
  db_step_Save db_step_Claim db_step_Create db_step_Finish db_step_Reset db_step_DeleteWebhook
  db_step_Bulk db_step_cleanup db_step_SaveForwardingRule db_step_SetForwardingPaused
  db_step_DeleteForwardingRule db_step_EnsureAdmin

end
