(* ===== verification/System.thy ===== *)
theory System
  imports Lifecycle
begin

text \<open>
  The whole program as a transition system: any number of delivery workers, the HTTP handlers,
  the retention worker and the start-up code, interleaved at the granularity of their database
  transactions, with a clock that only advances. \<open>sys_claims\<close> records every claim that a worker
  ever received (workers keep these copies while they deliver); a worker may use any of them
  at any later time, however late.

  Shown are the invariant of the database, that a lease has at most one holder, that a lease
  once lost never comes back, and that every webhook follows the lifecycle of the
  documentation.
\<close>

record sys =
  sys_db :: db
  sys_now :: time
  sys_claims :: "webhook list"

definition init_sys :: "time \<Rightarrow> sys" where
  "init_sys t = \<lparr>sys_db = empty_db, sys_now = t, sys_claims = []\<rparr>"

inductive sys_step :: "sys \<Rightarrow> sys \<Rightarrow> bool" where
  tick: "sys_now s \<le> t \<Longrightarrow> sys_step s (s\<lparr>sys_now := t\<rparr>)"
| receive: "webhook_ok h \<Longrightarrow> wh_ID h = 0 \<Longrightarrow> wh_Status h = st_pending \<Longrightarrow>
    Save f h (sys_db s) = (r, d') \<Longrightarrow> sys_step s (s\<lparr>sys_db := d'\<rparr>)"
| claim: "ClaimDeliverableWebhooks locked f limit now leaseUntil (sys_db s) = (Inr claims, d') \<Longrightarrow>
    sys_step s (s\<lparr>sys_db := d', sys_claims := sys_claims s @ claims\<rparr>)"
| claim_error: "ClaimDeliverableWebhooks locked f limit now leaseUntil (sys_db s) = (Inl e, d') \<Longrightarrow>
    sys_step s (s\<lparr>sys_db := d'\<rparr>)"
| create: "c \<in> set (sys_claims s) \<Longrightarrow> CreateDeliveryAttempt f clk c target (sys_db s) = (ra, d') \<Longrightarrow>
    sys_step s (s\<lparr>sys_db := d'\<rparr>)"
| finish: "c \<in> set (sys_claims s) \<Longrightarrow> FinishDelivery f clk c k result (sys_db s) = (ru, d') \<Longrightarrow>
    sys_step s (s\<lparr>sys_db := d'\<rparr>)"
| reset: "ResetWebhookDeliveryState f k (sys_db s) = (ru, d') \<Longrightarrow> sys_step s (s\<lparr>sys_db := d'\<rparr>)"
| delete: "DeleteWebhook f k (sys_db s) = (ru, d') \<Longrightarrow> sys_step s (s\<lparr>sys_db := d'\<rparr>)"
| bulk: "BulkReplayDeadLetters f ids (sys_db s) = (rb, d') \<Longrightarrow> sys_step s (s\<lparr>sys_db := d'\<rparr>)"
| cleanup: "cleanup_batch env before n (sys_db s) = (rc, d') \<Longrightarrow> sys_step s (s\<lparr>sys_db := d'\<rparr>)"
| save_rule: "rule_key_ok rule (sys_db s) \<Longrightarrow> SaveForwardingRule f rule (sys_db s) = (ru, d') \<Longrightarrow>
    sys_step s (s\<lparr>sys_db := d'\<rparr>)"
| pause: "SetForwardingPaused f source paused (sys_db s) = (ru, d') \<Longrightarrow> sys_step s (s\<lparr>sys_db := d'\<rparr>)"
| delete_rule: "DeleteForwardingRule f source (sys_db s) = (ru, d') \<Longrightarrow> sys_step s (s\<lparr>sys_db := d'\<rparr>)"
| ensure_admin: "(\<And>h. hash password = Inr h \<Longrightarrow> matches h password) \<Longrightarrow>
    EnsureAdmin hash matches f email password (sys_db s) = (ru, d') \<Longrightarrow> sys_step s (s\<lparr>sys_db := d'\<rparr>)"

inductive sys_steps :: "sys \<Rightarrow> sys \<Rightarrow> bool" where
  no_step: "sys_steps s s"
| more_step: "sys_steps s s' \<Longrightarrow> sys_step s' s'' \<Longrightarrow> sys_steps s s''"

definition sys_reachable :: "sys \<Rightarrow> bool" where
  "sys_reachable s \<longleftrightarrow> (\<exists>t. sys_steps (init_sys t) s)"

lemma sys_db_upd:
  "sys_db (s\<lparr>sys_db := d\<rparr>) = d" "sys_db (s\<lparr>sys_db := d, sys_claims := c\<rparr>) = d"
  "sys_db (s\<lparr>sys_now := t\<rparr>) = sys_db s"
  by simp_all

lemma db_inv_step:
  assumes "sys_step s s'" and "db_inv (sys_db s)" shows "db_inv (sys_db s')"
  using assms
proof (induction rule: sys_step.induct)
  case (receive h f s r d')
  then show ?case using db_inv_Save [of "sys_db s" h f r d'] by simp
next
  case (ensure_admin hash password matches f email s ru d')
  then show ?case using db_inv_EnsureAdmin [of "sys_db s" hash password matches f email ru d'] by simp
qed (simp_all only: sys_db_upd, (rule inv_intros, assumption+)+)

lemma db_step_step:
  assumes "sys_step s s'" and "db_inv (sys_db s)" shows "db_step (sys_db s) (sys_db s')"
  using assms
proof (induction rule: sys_step.induct)
  case (receive h f s r d')
  then show ?case using db_step_Save [of "sys_db s" h f r d'] by simp
next
  case (ensure_admin hash password matches f email s ru d')
  then show ?case using db_step_EnsureAdmin by simp
qed (simp_all only: sys_db_upd db_step_refl, (rule db_step_intros, assumption+)+)

lemma now_step: "sys_step s s' \<Longrightarrow> sys_now s \<le> sys_now s'"
  by (induction rule: sys_step.induct) simp_all

section \<open>Claims\<close>

text \<open>
  What stays true of an issued claim: its webhook's version never falls behind it, and a row
  that is \<open>processing\<close> under the claim's own version still is the row the worker was given.
\<close>

definition claim_ok :: "db \<Rightarrow> webhook \<Rightarrow> bool" where
  "claim_ok d c \<longleftrightarrow> wh_ID c \<le> seq_webhooks d \<and>
     (\<forall>w. find_webhook (wh_ID c) d = Some w \<longrightarrow>
        wh_DeliveryLeaseVersion c \<le> wh_DeliveryLeaseVersion w \<and>
        (wh_DeliveryLeaseVersion w = wh_DeliveryLeaseVersion c \<longrightarrow> wh_Status w = st_processing \<longrightarrow> w = c))"

lemma finish_not_processing:
  "res_Status r \<in> finish_statuses \<Longrightarrow> wh_Status (finish_updates r t w) \<noteq> st_processing"
  by (cases "res_NextRetryAt r") (auto simp: finish_statuses_def finish_updates_def Let_def)

lemma replay_version [simp]:
  "wh_DeliveryLeaseVersion (replayUpdates w) = wh_DeliveryLeaseVersion w" "wh_Status (replayUpdates w) = st_pending"
  by (simp_all add: replayUpdates_def)

lemma row_step_version:
  assumes "row_step (Some w) (Some w')"
  shows "w' = w \<or> wh_DeliveryLeaseVersion w' = wh_DeliveryLeaseVersion w + 1 \<or>
    wh_DeliveryLeaseVersion w' = wh_DeliveryLeaseVersion w \<and> wh_Status w' \<noteq> st_processing"
  using assms by (cases rule: row_step.cases) (simp_all add: finish_not_processing)

lemma claim_ok_step:
  assumes "claim_ok d c" and "db_step d d'" shows "claim_ok d' c"
  unfolding claim_ok_def
proof (intro conjI allI impI)
  show "wh_ID c \<le> seq_webhooks d'" using assms db_stepD(1) by (force simp: claim_ok_def)
  fix w' assume w': "find_webhook (wh_ID c) d' = Some w'"
  obtain w where w: "find_webhook (wh_ID c) d = Some w"
    using db_stepD(3) [OF assms(2), of "wh_ID c"] w' assms(1) by (cases "find_webhook (wh_ID c) d") (auto simp: claim_ok_def)
  have le: "wh_DeliveryLeaseVersion c \<le> wh_DeliveryLeaseVersion w"
    and eq: "wh_DeliveryLeaseVersion w = wh_DeliveryLeaseVersion c \<Longrightarrow> wh_Status w = st_processing \<Longrightarrow> w = c"
    using assms(1) w by (simp_all add: claim_ok_def)
  have step: "row_step (Some w) (Some w')" using db_stepD(2) [OF assms(2), of "wh_ID c"] w w' by simp
  show "wh_DeliveryLeaseVersion c \<le> wh_DeliveryLeaseVersion w'" using row_step_version [OF step] le by auto
  show "w' = c" if "wh_DeliveryLeaseVersion w' = wh_DeliveryLeaseVersion c" "wh_Status w' = st_processing"
    using row_step_version [OF step] le eq that by auto
qed

definition lease_key :: "webhook \<Rightarrow> int \<times> int" where
  "lease_key c = (wh_ID c, wh_DeliveryLeaseVersion c)"

definition claims_inv :: "sys \<Rightarrow> bool" where
  "claims_inv s \<longleftrightarrow> distinct (map lease_key (sys_claims s)) \<and> (\<forall>c \<in> set (sys_claims s). claim_ok (sys_db s) c)"

lemma claims_inv_db:
  assumes "claims_inv s" and "db_step (sys_db s) d'" shows "claims_inv (s\<lparr>sys_db := d'\<rparr>)"
  using assms claim_ok_step by (auto simp: claims_inv_def)

lemma claims_inv_claim:
  assumes inv: "db_inv (sys_db s)" and c: "claims_inv s"
    and claim: "ClaimDeliverableWebhooks locked f limit now leaseUntil (sys_db s) = (Inr claims, d')"
  shows "claims_inv (s\<lparr>sys_db := d', sys_claims := sys_claims s @ claims\<rparr>)"
proof (cases "0 < limit")
  case False
  then have "claims = []" "d' = sys_db s" using claim by (simp_all add: ClaimDeliverableWebhooks_def)
  then show ?thesis using c by (simp add: claims_inv_def)
next
  case True
  note correct = claim_facts [OF inv True claim]
  have inv': "db_inv d'" by (rule db_inv_Claim [OF inv claim])
  have step: "db_step (sys_db s) d'" by (rule db_step_Claim [OF claim inv])
  have new: "claim_ok d' x" if "x \<in> set claims" for x
  proof -
    have find: "find_webhook (wh_ID x) d' = Some x" by (rule correct(3) [OF that])
    then have "wh_ID x \<le> seq_webhooks d'"
      using find_webhook_Some(1) [OF find] delivery_invD(1) [OF db_invD(1) [OF inv']] by (simp add: keys_ok_def)
    then show ?thesis using find by (simp add: claim_ok_def)
  qed
  have fresh: "lease_key x \<noteq> lease_key y" if x: "x \<in> set (sys_claims s)" and y: "y \<in> set claims" for x y
  proof
    assume same: "lease_key x = lease_key y"
    from correct(4) [OF y] obtain w where w: "find_webhook (wh_ID y) (sys_db s) = Some w" "y = claim_copy leaseUntil w"
      by blast
    with same have "find_webhook (wh_ID x) (sys_db s) = Some w" by (simp add: lease_key_def)
    then have "wh_DeliveryLeaseVersion x \<le> wh_DeliveryLeaseVersion w"
      using c x by (simp add: claims_inv_def claim_ok_def)
    then show False using same w(2) by (simp add: lease_key_def)
  qed
  have "distinct (map wh_ID claims)" by (rule correct(2))
  then have "distinct (map lease_key claims)" by (auto simp: distinct_map inj_on_def lease_key_def)
  moreover have "set (map lease_key (sys_claims s)) \<inter> set (map lease_key claims) = {}"
    using fresh by (fastforce simp: image_iff)
  ultimately have "distinct (map lease_key (sys_claims s @ claims))"
    using c by (simp add: claims_inv_def)
  then show ?thesis using new c claim_ok_step [OF _ step] by (auto simp: claims_inv_def)
qed

lemma claims_inv_step:
  assumes "sys_step s s'" and "db_inv (sys_db s)" and "claims_inv s" shows "claims_inv s'"
  using assms(1)
proof (cases rule: sys_step.cases)
  case (tick t)
  then show ?thesis using assms(3) by (simp add: claims_inv_def)
next
  case (claim locked f limit now leaseUntil claims d')
  then show ?thesis using claims_inv_claim [OF assms(2,3)] by simp
qed (use claims_inv_db [OF assms(3)] db_step_step [OF assms(1,2)] in \<open>simp_all only: sys_db_upd\<close>)

lemma reachable_inv:
  "sys_reachable s \<Longrightarrow> db_inv (sys_db s) \<and> claims_inv s"
proof -
  have "sys_steps s0 s \<Longrightarrow> db_inv (sys_db s0) \<Longrightarrow> claims_inv s0 \<Longrightarrow> db_inv (sys_db s) \<and> claims_inv s" for s0
    by (induction rule: sys_steps.induct) (auto intro: db_inv_step claims_inv_step)
  moreover have "db_inv (sys_db (init_sys t)) \<and> claims_inv (init_sys t)" for t
    by (simp add: init_sys_def claims_inv_def)
  ultimately show "sys_reachable s \<Longrightarrow> db_inv (sys_db s) \<and> claims_inv s"
    unfolding sys_reachable_def by blast
qed

section \<open>Properties of the running system\<close>

text \<open>
  C1: integrity. In every reachable state of the program, whatever faults the database had: keys
  are unique, every webhook's status agrees with its lease, retry time, dead-letter time and
  failure counter, each attempt belongs to a stored webhook, a webhook has at most one pending
  attempt and only while it is \<open>processing\<close>, a source has at most one rule, an email one user.
\<close>

theorem reachable_db_inv:
  assumes "sys_reachable s" shows "db_inv (sys_db s)"
  using reachable_inv [OF assms] ..

lemma holds_lease_same:
  assumes "claim_ok d c" and "holds_lease d t c" shows "find_webhook (wh_ID c) d = Some c"
  using assms by (auto simp: holds_lease_def claim_ok_def)

text \<open>
  C2: exclusivity. At any moment at most one of all the claims ever handed out holds the lease
  of a given webhook, even when workers act on claims they received long ago; the holder's copy
  is the stored row.
\<close>

theorem lease_exclusive:
  assumes "sys_reachable s" and "i < length (sys_claims s)" "j < length (sys_claims s)"
    and "holds_lease (sys_db s) t (sys_claims s ! i)" "holds_lease (sys_db s) t' (sys_claims s ! j)"
    and "wh_ID (sys_claims s ! i) = wh_ID (sys_claims s ! j)"
  shows "i = j \<and> find_webhook (wh_ID (sys_claims s ! i)) (sys_db s) = Some (sys_claims s ! i)"
proof -
  have inv: "claims_inv s" using reachable_inv [OF assms(1)] ..
  have ok: "claim_ok (sys_db s) (sys_claims s ! i)" "claim_ok (sys_db s) (sys_claims s ! j)"
    using inv assms(2,3) by (simp_all add: claims_inv_def)
  note row = holds_lease_same [OF ok(1) assms(4)] holds_lease_same [OF ok(2) assms(5)]
  have "Some (sys_claims s ! i) = Some (sys_claims s ! j)"
    by (rule trans [OF row(1) [symmetric] row(2) [folded assms(6)]])
  then have "sys_claims s ! i = sys_claims s ! j" by (rule option.inject [THEN iffD1])
  moreover have "distinct (sys_claims s)" using inv by (simp add: claims_inv_def distinct_map)
  ultimately have "i = j" using assms(2,3) nth_eq_iff_index_eq by blast
  then show ?thesis using row(1) by blast
qed

lemma lease_over_mono: "lease_over l t \<Longrightarrow> t \<le> t' \<Longrightarrow> lease_over l t'"
  by (cases l) (auto simp: lease_over_def)

lemma lease_lost_step:
  assumes ok: "claim_ok d c" and step: "db_step d d'" and lost: "\<not> holds_lease d t c"
  shows "\<not> holds_lease d' t c"
proof
  assume h: "holds_lease d' t c"
  have c': "find_webhook (wh_ID c) d' = Some c"
    by (rule holds_lease_same [OF claim_ok_step [OF ok step] h])
  obtain w where w: "find_webhook (wh_ID c) d = Some w"
    using db_stepD(3) [OF step, of "wh_ID c"] c' ok by (cases "find_webhook (wh_ID c) d") (auto simp: claim_ok_def)
  have "wh_Status c = st_processing" using h c' by (auto simp: holds_lease_def)
  moreover have "row_step (Some w) (Some c)" using db_stepD(2) [OF step, of "wh_ID c"] w c' by simp
  moreover have "wh_DeliveryLeaseVersion c \<le> wh_DeliveryLeaseVersion w" using ok w by (simp add: claim_ok_def)
  ultimately have "w = c" using row_step_version [of w c] by auto
  then show False using lost h w c' by (simp add: holds_lease_def)
qed

lemma lease_lost_steps:
  assumes "sys_steps s s'" and "db_inv (sys_db s)" "claims_inv s" and "c \<in> set (sys_claims s)"
    and "\<not> holds_lease (sys_db s) t c"
  shows "db_inv (sys_db s') \<and> claims_inv s' \<and> c \<in> set (sys_claims s') \<and> \<not> holds_lease (sys_db s') t c"
  using assms
proof (induction rule: sys_steps.induct)
  case (more_step s s' s'')
  then have ih: "db_inv (sys_db s')" "claims_inv s'" "c \<in> set (sys_claims s')" "\<not> holds_lease (sys_db s') t c"
    by simp_all
  have "c \<in> set (sys_claims s'')" using more_step.hyps(2) ih(3) by (cases rule: sys_step.cases) simp_all
  moreover have "claim_ok (sys_db s') c" using ih(2,3) by (simp add: claims_inv_def)
  ultimately show ?case
    using db_inv_step [OF more_step.hyps(2) ih(1)] claims_inv_step [OF more_step.hyps(2) ih(1,2)]
      lease_lost_step [OF _ db_step_step [OF more_step.hyps(2) ih(1)] ih(4)] by blast
qed simp

text \<open>
  A lost lease never comes back. Once a claim does not hold its webhook's lease at some
  instant (it expired, was taken over, finished, or the row was requeued or deleted), then in
  every later state and for every later clock reading it still does not, so by the fencing
  property whatever that worker still attempts is refused.
\<close>

theorem lost_lease_stays_lost:
  assumes "sys_reachable s" and "sys_steps s s'" and "c \<in> set (sys_claims s)"
    and "\<not> holds_lease (sys_db s) t c" and "t \<le> clk 1"
  shows "\<not> holds_lease (sys_db s') (clk 1) c \<and>
    (\<exists>e. FinishDelivery f clk c k result (sys_db s') = (Inl e, sys_db s')) \<and>
    (\<exists>e. CreateDeliveryAttempt f clk c target (sys_db s') = (Inl e, sys_db s'))"
proof -
  have mono: "\<not> holds_lease (sys_db s) (clk 1) c"
    using assms(4,5) lease_over_mono by (auto simp: holds_lease_def)
  then have lost: "\<not> holds_lease (sys_db s') (clk 1) c"
    using lease_lost_steps [OF assms(2) _ _ assms(3)] reachable_inv [OF assms(1)] by blast
  obtain e1 where "lockDeliveryLease (fails f 0) (clk 1) c (sys_db s') = Inl e1"
    using lockDeliveryLease_lost [OF lost] by blast
  then have "transaction f (finish_body f clk c k result) (sys_db s') = (Inl e1, sys_db s')"
    "transaction f (create_body f clk c target) (sys_db s') = (Inl e1, sys_db s')"
    by (simp_all add: transaction_body_error finish_body_def create_body_def)
  then show ?thesis using lost by (auto simp: FinishDelivery_def CreateDeliveryAttempt_def)
qed

section \<open>The lifecycle of a webhook\<close>

text \<open>
  The abstract specification: the phases of a webhook and the moves between them, without
  rows, tables or transactions. \<open>phase\<close> abstracts a stored row.
\<close>

datatype phase = Absent | Queued | Leased | Waiting time | Delivered | PassedOver | DeadLettered

definition phase :: "webhook option \<Rightarrow> phase" where
  "phase x =
     (case x of
        None \<Rightarrow> Absent
      | Some w \<Rightarrow>
          if wh_Status w = st_pending then Queued
          else if wh_Status w = st_processing then Leased
          else if wh_Status w = st_retrying then
            (case wh_NextRetryAt w of Some t \<Rightarrow> Waiting t | None \<Rightarrow> Queued)
          else if wh_Status w = st_success then Delivered
          else if wh_Status w = st_skipped then PassedOver
          else DeadLettered)"

inductive lifecycle :: "phase \<Rightarrow> phase \<Rightarrow> bool" where
  stay: "lifecycle p p"
| arrive: "lifecycle Absent Queued"
| lease_queued: "lifecycle Queued Leased"
| lease_due: "lifecycle (Waiting t) Leased"
| succeed: "lifecycle Leased Delivered"
| pass_over: "lifecycle Leased PassedOver"
| retry_later: "lifecycle Leased (Waiting t)"
| give_up: "lifecycle Leased DeadLettered"
| release: "lifecycle Leased Queued"
| requeue: "p \<noteq> Leased \<Longrightarrow> p \<noteq> Absent \<Longrightarrow> lifecycle p Queued"
| remove: "p \<noteq> Leased \<Longrightarrow> p \<noteq> Absent \<Longrightarrow> lifecycle p Absent"

lemma phase_Leased: "phase (Some w) = Leased \<longleftrightarrow> wh_Status w = st_processing"
  by (auto simp: phase_def split: option.splits)

lemma phase_Absent [simp]: "phase None = Absent" "phase (Some w) \<noteq> Absent"
  by (auto simp: phase_def split: option.splits)

lemma phase_claimed [simp]: "phase (Some (claim_copy t w)) = Leased"
  by (simp add: phase_Leased)

lemma phase_deliverable:
  assumes "deliverable now w" shows "phase (Some w) \<in> {Queued, Leased} \<union> range Waiting"
  using assms by (cases "wh_NextRetryAt w") (auto simp: deliverable_def phase_def)

lemma phase_finished:
  assumes "res_Status r \<in> finish_statuses"
  shows "phase (Some (finish_updates r t w)) \<in> {Delivered, PassedOver, DeadLettered, Queued} \<union> range Waiting"
  using assms by (cases "res_NextRetryAt r") (auto simp: finish_statuses_def finish_updates_def Let_def phase_def)

lemma phase_replayed: "phase (Some (replayUpdates w)) = Queued"
  by (simp add: phase_def)

lemma row_step_lifecycle:
  assumes "row_step x y" shows "lifecycle (phase x) (phase y)"
  using assms
proof (cases rule: row_step.cases)
  case row_same
  then show ?thesis by (simp add: stay)
next
  case (row_receive h)
  then show ?thesis by (simp add: phase_def arrive)
next
  case (row_claim now w leaseUntil)
  then show ?thesis using phase_deliverable [OF row_claim(3)] lifecycle.intros by auto
next
  case (row_finish w result t)
  then have "phase x = Leased" by (simp add: phase_Leased)
  then show ?thesis using phase_finished [OF row_finish(4), of t w] row_finish(2) lifecycle.intros by auto
next
  case (row_replay w)
  then have "phase x \<noteq> Leased" "phase x \<noteq> Absent" by (simp_all add: phase_Leased)
  then show ?thesis using row_replay(2) by (simp add: phase_replayed requeue)
next
  case (row_remove w)
  then have "phase x \<noteq> Leased" "phase x \<noteq> Absent" by (simp_all add: phase_Leased)
  then show ?thesis using row_remove(2) by (simp add: remove)
qed

text \<open>
  C3: refinement of the lifecycle. Each transaction of the program moves each webhook along an
  edge of the abstract state machine or not at all. In particular only a leased webhook can be
  delivered, retried or dead-lettered, a leased webhook can be neither replayed nor deleted,
  and a delivered or dead-lettered one is delivered again only after an explicit replay.
\<close>

theorem webhook_lifecycle:
  assumes "sys_reachable s" and "sys_step s s'"
  shows "lifecycle (phase (find_webhook k (sys_db s))) (phase (find_webhook k (sys_db s')))"
  using reachable_inv [OF assms(1)] db_step_step [OF assms(2)] db_stepD(2) row_step_lifecycle by blast

section \<open>A concrete run\<close>

definition demo_received :: webhook where "demo_received = demo_webhook\<lparr>wh_ID := 0\<rparr>"

definition demo_sys :: sys where
  "demo_sys = \<lparr>sys_db = demo_claimed, sys_now = 0, sys_claims = [demo_claim]\<rparr>"

lemma demo_save: "Save no_faults demo_received empty_db = (Inr demo_webhook, demo_db)"
  by (simp add: Save_def transaction_def insert_webhook_def insert_row_def demo_received_def demo_defs set_wh_ID_def)

lemma demo_received_ok: "webhook_ok demo_received" "wh_ID demo_received = 0" "wh_Status demo_received = st_pending"
  by (simp_all add: demo_received_def demo_defs webhook_ok_def webhook_statuses_def)

lemma demo_queued_reachable: "sys_steps (init_sys 0) ((init_sys 0)\<lparr>sys_db := demo_db\<rparr>)"
proof (rule more_step [OF no_step])
  have "Save no_faults demo_received (sys_db (init_sys 0)) = (Inr demo_webhook, demo_db)"
    by (simp add: init_sys_def demo_save)
  then show "sys_step (init_sys 0) ((init_sys 0)\<lparr>sys_db := demo_db\<rparr>)" by (rule receive [OF demo_received_ok])
qed

lemma demo_sys_step: "sys_step ((init_sys 0)\<lparr>sys_db := demo_db\<rparr>) demo_sys"
proof -
  have "sys_step ((init_sys 0)\<lparr>sys_db := demo_db\<rparr>)
    ((init_sys 0)\<lparr>sys_db := demo_db\<rparr>\<lparr>sys_db := demo_claimed,
       sys_claims := sys_claims ((init_sys 0)\<lparr>sys_db := demo_db\<rparr>) @ [demo_claim]\<rparr>)"
    by (rule claim) (simp only: sys_db_upd, rule demo_claim_step)
  then show ?thesis by (simp add: init_sys_def demo_sys_def)
qed

lemma demo_reachable: "sys_reachable demo_sys" "sys_reachable ((init_sys 0)\<lparr>sys_db := demo_db\<rparr>)"
  unfolding sys_reachable_def
  using demo_queued_reachable more_step [OF demo_queued_reachable demo_sys_step] by blast+

theorem reachable_db_inv_witness: "db_inv (sys_db demo_sys)"
  by (rule reachable_db_inv [OF demo_reachable(1)])

theorem lease_exclusive_witness:
  "0 = (0::nat) \<and> find_webhook (wh_ID (sys_claims demo_sys ! 0)) (sys_db demo_sys) = Some (sys_claims demo_sys ! 0)"
  by (rule lease_exclusive [OF demo_reachable(1), of 0 0 50 50])
    (simp_all add: demo_sys_def holds_lease_def find_webhook_def demo_facts lease_over_def)

theorem lost_lease_stays_lost_witness:
  "\<not> holds_lease (sys_db demo_sys) 200 demo_claim \<and>
    (\<exists>e. FinishDelivery no_faults (\<lambda>_. 200) demo_claim 1 demo_result (sys_db demo_sys) = (Inl e, sys_db demo_sys)) \<and>
    (\<exists>e. CreateDeliveryAttempt no_faults (\<lambda>_. 200) demo_claim ''t'' (sys_db demo_sys) = (Inl e, sys_db demo_sys))"
  by (rule lost_lease_stays_lost [OF demo_reachable(1) no_step, of demo_claim 150])
    (simp_all add: demo_sys_def holds_lease_def find_webhook_def demo_facts lease_over_def)

theorem webhook_lifecycle_witness:
  "lifecycle (phase (find_webhook 1 (sys_db ((init_sys 0)\<lparr>sys_db := demo_db\<rparr>)))) (phase (find_webhook 1 (sys_db demo_sys)))"
  by (rule webhook_lifecycle [OF demo_reachable(2) demo_sys_step])

end
