(* ===== verification/Sha256.thy ===== *)
theory Sha256
  imports GoLib "HOL-Library.Word"
begin

text \<open>
  \<open>crypto/sha256\<close> and \<open>crypto/hmac\<close> as \<open>internal/hmacsig\<close> uses them: SHA-256 of FIPS 180-4
  on byte lists and HMAC of RFC 2104 over it, both executable (the published test vectors
  for \<open>''abc''\<close> and for the RFC's quick brown fox come out of them). The components rely on
  the length of a tag only.
\<close>

unbundle bit_operations_syntax

type_synonym u32 = "32 word"

definition sha_k :: "u32 list" where
  "sha_k =
    [0x428a2f98, 0x71374491, 0xb5c0fbcf, 0xe9b5dba5, 0x3956c25b, 0x59f111f1, 0x923f82a4, 0xab1c5ed5,
     0xd807aa98, 0x12835b01, 0x243185be, 0x550c7dc3, 0x72be5d74, 0x80deb1fe, 0x9bdc06a7, 0xc19bf174,
     0xe49b69c1, 0xefbe4786, 0x0fc19dc6, 0x240ca1cc, 0x2de92c6f, 0x4a7484aa, 0x5cb0a9dc, 0x76f988da,
     0x983e5152, 0xa831c66d, 0xb00327c8, 0xbf597fc7, 0xc6e00bf3, 0xd5a79147, 0x06ca6351, 0x14292967,
     0x27b70a85, 0x2e1b2138, 0x4d2c6dfc, 0x53380d13, 0x650a7354, 0x766a0abb, 0x81c2c92e, 0x92722c85,
     0xa2bfe8a1, 0xa81a664b, 0xc24b8b70, 0xc76c51a3, 0xd192e819, 0xd6990624, 0xf40e3585, 0x106aa070,
     0x19a4c116, 0x1e376c08, 0x2748774c, 0x34b0bcb5, 0x391c0cb3, 0x4ed8aa4a, 0x5b9cca4f, 0x682e6ff3,
     0x748f82ee, 0x78a5636f, 0x84c87814, 0x8cc70208, 0x90befffa, 0xa4506ceb, 0xbef9a3f7, 0xc67178f2]"

definition rotr :: "nat \<Rightarrow> u32 \<Rightarrow> u32" where
  "rotr n x = drop_bit n x OR push_bit (32 - n) x"

definition big_sigma0 :: "u32 \<Rightarrow> u32" where
  "big_sigma0 x = rotr 2 x XOR rotr 13 x XOR rotr 22 x"
definition big_sigma1 :: "u32 \<Rightarrow> u32" where
  "big_sigma1 x = rotr 6 x XOR rotr 11 x XOR rotr 25 x"
definition small_sigma0 :: "u32 \<Rightarrow> u32" where
  "small_sigma0 x = rotr 7 x XOR rotr 18 x XOR drop_bit 3 x"
definition small_sigma1 :: "u32 \<Rightarrow> u32" where
  "small_sigma1 x = rotr 17 x XOR rotr 19 x XOR drop_bit 10 x"

definition sha_ch :: "u32 \<Rightarrow> u32 \<Rightarrow> u32 \<Rightarrow> u32" where
  "sha_ch x y z = (x AND y) XOR (NOT x AND z)"
definition sha_maj :: "u32 \<Rightarrow> u32 \<Rightarrow> u32 \<Rightarrow> u32" where
  "sha_maj x y z = (x AND y) XOR (x AND z) XOR (y AND z)"

text \<open>The message schedule: \<open>n\<close> more words appended to the last sixteen or more.\<close>

primrec schedule :: "nat \<Rightarrow> u32 list \<Rightarrow> u32 list" where
  "schedule 0 w = w"
| "schedule (Suc n) w =
     (let t = length w
      in schedule n (w @ [small_sigma1 (w ! (t - 2)) + w ! (t - 7)
                          + small_sigma0 (w ! (t - 15)) + w ! (t - 16)]))"

type_synonym sha_state = "u32 \<times> u32 \<times> u32 \<times> u32 \<times> u32 \<times> u32 \<times> u32 \<times> u32"

fun sha_round :: "u32 \<times> u32 \<Rightarrow> sha_state \<Rightarrow> sha_state" where
  "sha_round (k, w) (a, b, c, d, e, f, g, h) =
     (let t1 = h + big_sigma1 e + sha_ch e f g + k + w;
          t2 = big_sigma0 a + sha_maj a b c
      in (t1 + t2, a, b, c, d + t1, e, f, g))"

fun add_state :: "sha_state \<Rightarrow> sha_state \<Rightarrow> sha_state" where
  "add_state (a, b, c, d, e, f, g, h) (a', b', c', d', e', f', g', h') =
     (a + a', b + b', c + c', d + d', e + e', f + f', g + g', h + h')"

definition compress :: "sha_state \<Rightarrow> u32 list \<Rightarrow> sha_state" where
  "compress s block = add_state s (fold sha_round (zip sha_k (schedule 48 block)) s)"

definition sha_init :: sha_state where
  "sha_init = (0x6a09e667, 0xbb67ae85, 0x3c6ef372, 0xa54ff53a,
               0x510e527f, 0x9b05688c, 0x1f83d9ab, 0x5be0cd19)"

text \<open>Padding to whole 64-byte blocks, words big endian.\<close>

definition be_bytes :: "nat \<Rightarrow> int \<Rightarrow> bytes" where
  "be_bytes k n = map (\<lambda>i. char_of (n div 256 ^ i)) (rev [0..<k])"

definition sha_pad :: "bytes \<Rightarrow> bytes" where
  "sha_pad m =
     m @ CHR 0x80 # replicate ((119 - length m mod 64) mod 64) (CHR 0x00) @ be_bytes 8 (8 * int (length m))"

fun be_words :: "bytes \<Rightarrow> u32 list" where
  "be_words (a # b # c # d # r) =
     word_of_int (of_char a * 16777216 + of_char b * 65536 + of_char c * 256 + of_char d) # be_words r"
| "be_words _ = []"

function sha_blocks :: "sha_state \<Rightarrow> u32 list \<Rightarrow> sha_state" where
  "sha_blocks s ws = (if length ws < 16 then s else sha_blocks (compress s (take 16 ws)) (drop 16 ws))"
  by pat_completeness auto
termination
  by (relation "measure (\<lambda>(s, ws). length ws)") auto

declare sha_blocks.simps [simp del]

fun sha_output :: "sha_state \<Rightarrow> bytes" where
  "sha_output (a, b, c, d, e, f, g, h) =
     concat (map (\<lambda>w. be_bytes 4 (uint w)) [a, b, c, d, e, f, g, h])"

definition sha256 :: "bytes \<Rightarrow> bytes" where
  "sha256 m = sha_output (sha_blocks sha_init (be_words (sha_pad m)))"

lemma length_be_bytes [simp]: "length (be_bytes k n) = k"
  by (simp add: be_bytes_def)

lemma length_sha_output [simp]: "length (sha_output s) = 32"
  by (cases s rule: sha_output.cases) simp

lemma length_sha256 [simp]: "length (sha256 m) = 32"
  by (simp add: sha256_def)

text \<open>\<open>hmac.New(sha256.New, key)\<close>, \<open>Write\<close> and \<open>Sum(nil)\<close>.\<close>

definition hmac_pad :: "int \<Rightarrow> bytes \<Rightarrow> bytes" where
  "hmac_pad v key = map (\<lambda>c. char_of (of_char c XOR v :: int)) key"

definition hmac_key :: "bytes \<Rightarrow> bytes" where
  "hmac_key key =
     (let k = (if length key > 64 then sha256 key else key)
      in k @ replicate (64 - length k) (CHR 0x00))"

definition hmac_sha256 :: "bytes \<Rightarrow> bytes \<Rightarrow> bytes" where
  "hmac_sha256 key msg =
     sha256 (hmac_pad 0x5c (hmac_key key) @ sha256 (hmac_pad 0x36 (hmac_key key) @ msg))"

lemma length_hmac_sha256 [simp]: "length (hmac_sha256 key msg) = 32"
  by (simp add: hmac_sha256_def)

end
