(* ===== verification/HmacSig.thy ===== *)
theory HmacSig
  imports Sha256
begin

text \<open>
  \<open>internal/hmacsig/hmacsig.go\<close>: the Stripe-style signature header
  \<open>t=<unix seconds>, v1=<hex hmac>\<close>, its parser and its verification. The timestamp
  arithmetic of \<open>VerifyHeader\<close> is kept at 64 bits, where it can wrap around.

  The lemmas show that the verdict on a header is that of its fields, read independently of the
  parser (a \<open>v1\<close> value that is the MAC of timestamp and payload, a timestamp within the
  tolerance of the clock), that a header the program signs verifies, and how the tolerance check
  behaves when the 64-bit product overflows.
\<close>

definition DefaultIncomingHeader :: string where
  "DefaultIncomingHeader = ''Stripe-Signature''"
definition DefaultToleranceSeconds :: int where
  "DefaultToleranceSeconds = 300"
definition OutgoingHeader :: string where
  "OutgoingHeader = ''X-WebhookHub-Signature''"

datatype sig_error =
    ErrMissingTimestamp
  | ErrMissingSignature
  | ErrInvalidSignature
  | ErrTimestampExpired
  | ErrHexDecode

text \<open>\<open>time.Time.Unix\<close>: whole seconds since the epoch, rounded down.\<close>

definition Unix :: "time \<Rightarrow> int" where
  "Unix t = t div second"

definition signed_message :: "int \<Rightarrow> bytes \<Rightarrow> bytes" where
  "signed_message timestamp payload = FormatInt timestamp @ ''.'' @ payload"

definition signature :: "string \<Rightarrow> int \<Rightarrow> bytes \<Rightarrow> string" where
  "signature secret timestamp payload =
     hex_encode (hmac_sha256 secret (signed_message timestamp payload))"

definition SignHeader :: "string \<Rightarrow> bytes \<Rightarrow> time \<Rightarrow> string" where
  "SignHeader secret payload now =
     (let timestamp = Unix now
      in ''t='' @ FormatInt timestamp @ '', v1='' @ signature secret timestamp payload)"

text \<open>The loop of \<open>parseHeader\<close> over the comma-separated parts, then its final checks.\<close>

fun parse_parts :: "string list \<Rightarrow> int \<Rightarrow> bool \<Rightarrow> string list \<Rightarrow> sig_error + int \<times> string list" where
  "parse_parts [] timestamp foundTime values =
     (if \<not> foundTime then Inl ErrMissingTimestamp
      else if values = [] then Inl ErrMissingSignature
      else Inr (timestamp, values))"
| "parse_parts (part # parts) timestamp foundTime values =
     (case cut_at (CHR ''='') (TrimSpace part) of
        None \<Rightarrow> parse_parts parts timestamp foundTime values
      | Some (key, value) \<Rightarrow>
          if TrimSpace key = ''t'' then
            (case ParseInt (TrimSpace value) of
               None \<Rightarrow> Inl ErrMissingTimestamp
             | Some parsed \<Rightarrow> parse_parts parts parsed True values)
          else if TrimSpace key = ''v1'' then
            (let value = TrimSpace value
             in parse_parts parts timestamp foundTime
                  (if value \<noteq> [] then values @ [value] else values))
          else parse_parts parts timestamp foundTime values)"

definition parseHeader :: "string \<Rightarrow> sig_error + int \<times> string list" where
  "parseHeader header = parse_parts (split_on (CHR '','') header) 0 False []"

text \<open>\<open>time.Duration(delta)*time.Second\<close> after the two's complement \<open>delta = -delta\<close>.\<close>

definition timestamp_age :: "time \<Rightarrow> int \<Rightarrow> duration" where
  "timestamp_age now timestamp =
     (let delta = wrap64 (Unix now - timestamp);
          delta = (if delta < 0 then wrap64 (- delta) else delta)
      in wrap64 (delta * second))"

fun any_candidate :: "bytes \<Rightarrow> string list \<Rightarrow> bool" where
  "any_candidate expected [] = False"
| "any_candidate expected (candidate # rest) =
     (case hex_decode candidate of
        None \<Rightarrow> any_candidate expected rest
      | Some decoded \<Rightarrow> if decoded = expected then True else any_candidate expected rest)"

text \<open>\<open>None\<close> is the nil error.\<close>

definition VerifyHeader ::
    "string \<Rightarrow> string \<Rightarrow> bytes \<Rightarrow> time \<Rightarrow> duration \<Rightarrow> sig_error option" where
  "VerifyHeader secret header payload now tolerance =
     (case parseHeader header of
        Inl e \<Rightarrow> Some e
      | Inr (timestamp, candidates) \<Rightarrow>
          if tolerance > 0 \<and> timestamp_age now timestamp > tolerance
          then Some ErrTimestampExpired
          else
            (case hex_decode (signature secret timestamp payload) of
               None \<Rightarrow> Some ErrHexDecode
             | Some expected \<Rightarrow>
                 if any_candidate expected candidates then None else Some ErrInvalidSignature))"

subsection \<open>The parser\<close>

lemma any_candidate_iff:
  "any_candidate expected cs \<longleftrightarrow> (\<exists>c \<in> set cs. hex_decode c = Some expected)"
  by (induction cs) (auto split: option.splits)

lemma signature_chars:
  "c \<in> set (signature secret t payload) \<Longrightarrow> solid c \<and> c \<noteq> CHR '','' \<and> c \<noteq> CHR ''=''"
  by (simp add: signature_def hex_encode_chars)

lemma signature_nonempty: "signature secret t payload \<noteq> []"
proof -
  have "length (signature secret t payload) = 64"
    by (simp add: signature_def length_hex_encode)
  then show ?thesis by auto
qed

lemma hex_decode_signature:
  "hex_decode (signature secret t payload) = Some (hmac_sha256 secret (signed_message t payload))"
  by (simp add: signature_def hex_decode_encode)

lemma solid_letters: "solid (CHR ''t'')" "solid (CHR ''v'')" "solid (CHR ''1'')" "solid (CHR ''='')"
  by (simp_all add: solid_def)

lemma parse_part_t:
  assumes "in_int64 t"
  shows "parse_parts ((''t='' @ FormatInt t) # ps) t0 f vs = parse_parts ps t True vs"
proof -
  have "TrimSpace (''t='' @ FormatInt t) = ''t='' @ FormatInt t"
    by (rule TrimSpace_all_solid) (auto simp: solid_letters dest: FormatInt_solid)
  moreover have "cut_at (CHR ''='') (''t='' @ FormatInt t) = Some (''t'', FormatInt t)"
    by simp
  moreover have "TrimSpace ''t'' = ''t''"
    by (rule TrimSpace_all_solid) (simp add: solid_letters)
  moreover have "TrimSpace (FormatInt t) = FormatInt t"
    by (rule TrimSpace_all_solid) (simp add: FormatInt_solid)
  ultimately show ?thesis using assms by (simp add: ParseInt_FormatInt del: append.simps)
qed

lemma parse_part_v1:
  assumes "s \<noteq> []" and "\<And>c. c \<in> set s \<Longrightarrow> solid c"
  shows "parse_parts (('' v1='' @ s) # ps) t f vs = parse_parts ps t f (vs @ [s])"
proof -
  have "TrimSpace (''v1='' @ s) = ''v1='' @ s"
    by (rule TrimSpace_all_solid) (use assms in \<open>auto simp: solid_letters\<close>)
  then have "TrimSpace ('' v1='' @ s) = ''v1='' @ s"
    by (simp add: TrimSpace_leading_space)
  moreover have "cut_at (CHR ''='') (''v1='' @ s) = Some (''v1'', s)"
    by simp
  moreover have "TrimSpace ''v1'' = ''v1''"
    by (rule TrimSpace_all_solid) (auto simp: solid_letters)
  moreover have "TrimSpace s = s"
    by (rule TrimSpace_all_solid) (rule assms(2))
  ultimately show ?thesis using assms(1) by (simp del: append.simps)
qed

lemma SignHeader_split:
  "split_on (CHR '','') (SignHeader secret payload now) =
     [''t='' @ FormatInt (Unix now), '' v1='' @ signature secret (Unix now) payload]"
proof -
  let ?a = "''t='' @ FormatInt (Unix now)"
  let ?b = "'' v1='' @ signature secret (Unix now) payload"
  have a: "CHR '','' \<notin> set ?a" using FormatInt_solid by auto
  have b: "CHR '','' \<notin> set ?b" using signature_chars by auto
  have "SignHeader secret payload now = ?a @ CHR '','' # ?b"
    by (simp add: SignHeader_def Let_def)
  then show ?thesis using split_on_append [OF a, of ?b] split_on_absent [OF b] by simp
qed

lemma parseHeader_SignHeader:
  assumes "in_int64 (Unix now)"
  shows "parseHeader (SignHeader secret payload now) =
           Inr (Unix now, [signature secret (Unix now) payload])"
  unfolding parseHeader_def SignHeader_split parse_part_t [OF assms]
  by (subst parse_part_v1) (auto simp: signature_nonempty dest: signature_chars)

subsection \<open>The tolerance check\<close>

text \<open>
  Up to 9223372036 seconds (about 292 years) the product fits in 64 bits and the age is the
  distance of the two timestamps; beyond, it is that product reduced to 64 bits.
\<close>

lemma timestamp_age_exact:
  assumes "\<bar>Unix now - timestamp\<bar> \<le> 9223372036"
  shows "timestamp_age now timestamp = \<bar>Unix now - timestamp\<bar> * second"
proof -
  have "in_int64 d \<and> in_int64 (- d) \<and> in_int64 (d * second)"
    if "- 9223372036 \<le> d" "d \<le> 9223372036" for d :: int
    using that by (simp add: int64_defs second_def)
  from this [of "Unix now - timestamp"] this [of "\<bar>Unix now - timestamp\<bar>"]
  have "in_int64 (Unix now - timestamp)" and "in_int64 (- (Unix now - timestamp))"
    and "in_int64 (\<bar>Unix now - timestamp\<bar> * second)"
    using assms by linarith+
  from this [THEN wrap64_id] show ?thesis by (auto simp: timestamp_age_def Let_def abs_if)
qed

lemma timestamp_age_wraps:
  "timestamp_age now (Unix now + 36028797018963968) = 0"
  by (simp add: timestamp_age_def wrap64_def second_def)

lemma VerifyHeader_iff:
  "VerifyHeader secret header payload now tolerance = None \<longleftrightarrow>
     (\<exists>timestamp candidates.
        parseHeader header = Inr (timestamp, candidates) \<and>
        (tolerance > 0 \<longrightarrow> timestamp_age now timestamp \<le> tolerance) \<and>
        (\<exists>c \<in> set candidates.
           hex_decode c = Some (hmac_sha256 secret (signed_message timestamp payload))))"
  by (auto simp: VerifyHeader_def hex_decode_signature any_candidate_iff not_less
      split: sum.splits prod.splits if_splits)

lemma VerifyHeader_SignHeader:
  assumes "in_int64 (Unix issued)"
    and "tolerance \<le> 0 \<or>
           (\<bar>Unix now - Unix issued\<bar> \<le> 9223372036 \<and> \<bar>Unix now - Unix issued\<bar> * second \<le> tolerance)"
  shows "VerifyHeader secret (SignHeader secret payload issued) payload now tolerance = None"
  using assms by (auto simp: VerifyHeader_iff parseHeader_SignHeader hex_decode_signature timestamp_age_exact)

subsection \<open>The header as a list of fields\<close>

text \<open>
  An independent reading of the header, as the comma-separated \<open>name=value\<close> list it is: all
  the values a name is given, in order.
\<close>

definition field_value :: "string \<Rightarrow> string \<Rightarrow> string option" where
  "field_value name part =
     (case cut_at (CHR ''='') (TrimSpace part) of
        Some (key, value) \<Rightarrow> if TrimSpace key = name then Some (TrimSpace value) else None
      | None \<Rightarrow> None)"

definition header_values :: "string \<Rightarrow> string \<Rightarrow> string list" where
  "header_values name header = List.map_filter (field_value name) (split_on (CHR '','') header)"

lemma parse_parts_fields:
  "parse_parts parts timestamp found candidates =
     (let ts = map ParseInt (List.map_filter (field_value ''t'') parts);
          vs = candidates @ filter (\<lambda>v. v \<noteq> []) (List.map_filter (field_value ''v1'') parts)
      in if None \<in> set ts \<or> (ts = [] \<and> \<not> found) then Inl ErrMissingTimestamp
         else if vs = [] then Inl ErrMissingSignature
         else Inr (if ts = [] then timestamp else the (last ts), vs))"
proof (induction parts arbitrary: timestamp found candidates)
  case Nil
  then show ?case by (simp add: List.map_filter_simps)
next
  case (Cons part parts)
  show ?case
  proof (cases "cut_at (CHR ''='') (TrimSpace part)")
    case None
    then have "field_value name part = None" for name by (simp add: field_value_def)
    then show ?thesis using None by (simp add: Cons.IH map_filter_simps)
  next
    case (Some kv)
    obtain key v where kv: "kv = (key, v)" by force
    have f: "field_value name part = (if TrimSpace key = name then Some (TrimSpace v) else None)" for name
      using Some kv by (simp add: field_value_def)
    consider "TrimSpace key = ''t''" | "TrimSpace key = ''v1''" | "TrimSpace key \<noteq> ''t''" "TrimSpace key \<noteq> ''v1''"
      by blast
    then show ?thesis
      by cases (auto simp add: Some kv f Cons.IH map_filter_simps Let_def split: option.split)
  qed
qed

lemma parseHeader_fields:
  "parseHeader header =
     (if header_values ''t'' header = [] \<or> (\<exists>t \<in> set (header_values ''t'' header). ParseInt t = None)
      then Inl ErrMissingTimestamp
      else if \<forall>v1 \<in> set (header_values ''v1'' header). v1 = [] then Inl ErrMissingSignature
      else Inr (the (ParseInt (last (header_values ''t'' header))),
                filter (\<lambda>v. v \<noteq> []) (header_values ''v1'' header)))"
proof -
  have n: "None \<in> set (map ParseInt ts) \<longleftrightarrow> (\<exists>t \<in> set ts. ParseInt t = None)" for ts
    by (auto simp: image_iff intro: sym)
  show ?thesis
    unfolding parseHeader_def header_values_def parse_parts_fields Let_def n
    by (simp add: last_map filter_empty_conv)
qed

lemma header_values_SignHeader:
  assumes "in_int64 (Unix now)"
  shows "header_values ''t'' (SignHeader secret payload now) = [FormatInt (Unix now)]"
    and "header_values ''v1'' (SignHeader secret payload now) = [signature secret (Unix now) payload]"
proof -
  let ?a = "''t='' @ FormatInt (Unix now)"
  let ?s = "signature secret (Unix now) payload"
  have trim: "TrimSpace ?a = ?a" "TrimSpace ''t'' = ''t''" "TrimSpace ''v1'' = ''v1''"
      "TrimSpace (FormatInt (Unix now)) = FormatInt (Unix now)" "TrimSpace ?s = ?s"
      "TrimSpace (''v1='' @ ?s) = ''v1='' @ ?s"
    by (rule TrimSpace_all_solid; auto simp: solid_letters dest: FormatInt_solid signature_chars)+
  then have "TrimSpace ('' v1='' @ ?s) = ''v1='' @ ?s" by (simp add: TrimSpace_leading_space)
  moreover have "cut_at (CHR ''='') ?a = Some (''t'', FormatInt (Unix now))"
    "cut_at (CHR ''='') (''v1='' @ ?s) = Some (''v1'', ?s)" by simp_all
  ultimately have "field_value name ?a = (if ''t'' = name then Some (FormatInt (Unix now)) else None)"
    "field_value name ('' v1='' @ ?s) = (if ''v1'' = name then Some ?s else None)" for name
    unfolding field_value_def using trim by (simp_all del: append.simps)
  then show "header_values ''t'' (SignHeader secret payload now) = [FormatInt (Unix now)]"
    and "header_values ''v1'' (SignHeader secret payload now) = [?s]"
    unfolding header_values_def SignHeader_split by (simp_all add: map_filter_simps del: append.simps)
qed

lemma VerifyHeader_fields:
  "VerifyHeader secret header payload now tolerance =
      (if header_values ''t'' header = [] \<or> (\<exists>t \<in> set (header_values ''t'' header). ParseInt t = None)
       then Some ErrMissingTimestamp
       else if \<forall>v1 \<in> set (header_values ''v1'' header). v1 = [] then Some ErrMissingSignature
       else (let timestamp = the (ParseInt (last (header_values ''t'' header)))
             in if 0 < tolerance \<and> timestamp_age now timestamp > tolerance
                then Some ErrTimestampExpired
                else if \<exists>v1 \<in> set (header_values ''v1'' header).
                          hex_decode v1 = Some (hmac_sha256 secret (FormatInt timestamp @ ''.'' @ payload))
                then None
                else Some ErrInvalidSignature))"
proof -
  have nonempty: "hex_decode v \<noteq> Some (hmac_sha256 secret m)" if "v = []" for v m
    using that by (metis hex_decode.simps(1) length_hmac_sha256 list.size(3) option.inject zero_neq_numeral)
  then have any: "any_candidate (hmac_sha256 secret m) (filter (\<lambda>v. v \<noteq> []) vs) \<longleftrightarrow>
      (\<exists>v \<in> set vs. hex_decode v = Some (hmac_sha256 secret m))" for m vs
    by (auto simp: any_candidate_iff)
  then show ?thesis
    by (simp add: VerifyHeader_def parseHeader_fields hex_decode_signature signed_message_def Let_def)
qed

lemma last_field_parses:
  assumes "ts \<noteq> []" "\<not> (\<exists>t \<in> set ts. ParseInt t = None)"
  shows "ParseInt (last ts) \<noteq> None"
  using assms(2) last_in_set [OF assms(1)] by metis

lemma VerifyHeader_accepts:
  assumes "VerifyHeader secret header payload now tolerance = None"
  shows "header_values ''t'' header \<noteq> [] \<and> (\<forall>t \<in> set (header_values ''t'' header). ParseInt t \<noteq> None) \<and>
    (\<exists>timestamp. ParseInt (last (header_values ''t'' header)) = Some timestamp \<and>
       (\<exists>v1 \<in> set (header_values ''v1'' header).
          hex_decode v1 = Some (hmac_sha256 secret (FormatInt timestamp @ ''.'' @ payload))))"
  using assms unfolding VerifyHeader_fields using last_field_parses [of "header_values ''t'' header"]
  by (cases "ParseInt (last (header_values ''t'' header))") (simp_all add: Let_def split: if_splits)

lemma VerifyHeader_within:
  assumes "VerifyHeader secret header payload now tolerance = None"
    and "ParseInt (last (header_values ''t'' header)) = Some timestamp"
    and "\<bar>Unix now - timestamp\<bar> \<le> 9223372036" and "0 < tolerance"
  shows "\<bar>Unix now - timestamp\<bar> * second \<le> tolerance"
  using assms unfolding VerifyHeader_fields
  by (simp add: Let_def timestamp_age_exact not_less split: if_splits)

subsection \<open>Properties\<close>

text \<open>
  C16: \<open>VerifyHeader\<close> against an independent reading of the header as a list of fields. A
  header it accepts always carries, at any clock, a \<open>v1\<close> value that is the hexadecimal
  HMAC-SHA256 under the secret of its timestamp, a dot and the payload, and its timestamp is
  the last of well-formed \<open>t\<close> values. When that timestamp is within 9223372036 seconds (292
  years) of the clock the verdict is exactly this: missing or malformed \<open>t\<close> and missing \<open>v1\<close>
  are refused as such; a timestamp further from the clock than a positive tolerance, in the
  past or in the future, is expired; otherwise the header is accepted if and only if one of its
  \<open>v1\<close> values is that MAC. Beyond 292 years the 64-bit product of the age can wrap around and
  the tolerance check says nothing.
\<close>

theorem verify_header_sound_complete:
  "(VerifyHeader secret header payload now tolerance = None \<longrightarrow>
      header_values ''t'' header \<noteq> [] \<and>
      (\<forall>t \<in> set (header_values ''t'' header). ParseInt t \<noteq> None) \<and>
      (\<exists>timestamp. ParseInt (last (header_values ''t'' header)) = Some timestamp \<and>
         (\<exists>v1 \<in> set (header_values ''v1'' header).
            hex_decode v1 = Some (hmac_sha256 secret (FormatInt timestamp @ ''.'' @ payload))))) \<and>
   ((\<forall>timestamp. ParseInt (last (header_values ''t'' header)) = Some timestamp \<longrightarrow>
       \<bar>Unix now - timestamp\<bar> \<le> 9223372036) \<longrightarrow>
    VerifyHeader secret header payload now tolerance =
      (if header_values ''t'' header = [] \<or>
          (\<exists>t \<in> set (header_values ''t'' header). ParseInt t = None)
       then Some ErrMissingTimestamp
       else if \<forall>v1 \<in> set (header_values ''v1'' header). v1 = [] then Some ErrMissingSignature
       else (let timestamp = the (ParseInt (last (header_values ''t'' header)))
             in if 0 < tolerance \<and> \<bar>Unix now - timestamp\<bar> * second > tolerance
                then Some ErrTimestampExpired
                else if \<exists>v1 \<in> set (header_values ''v1'' header).
                          hex_decode v1 = Some (hmac_sha256 secret (FormatInt timestamp @ ''.'' @ payload))
                then None
                else Some ErrInvalidSignature)))"
  (is "?accepted \<and> (?near \<longrightarrow> ?verdict)")
proof (rule conjI)
  show ?accepted using VerifyHeader_accepts by blast
  show "?near \<longrightarrow> ?verdict"
  proof (intro impI, cases "ParseInt (last (header_values ''t'' header))")
    case None
    then show ?verdict unfolding VerifyHeader_fields using last_field_parses [of "header_values ''t'' header"] by auto
  next
    case (Some timestamp)
    assume near: ?near
    have "timestamp_age now timestamp = \<bar>Unix now - timestamp\<bar> * second"
      using near Some by (intro timestamp_age_exact) simp
    then show ?verdict unfolding VerifyHeader_fields by (simp add: Some Let_def)
  qed
qed

theorem verify_header_sound_complete_witness:
  "VerifyHeader ''k'' (SignHeader ''k'' ''{}'' (600 * second)) ''{}'' 0 (300 * second)
     = Some ErrTimestampExpired"
  using verify_header_sound_complete
      [of "''k''" "SignHeader ''k'' ''{}'' (600 * second)" "''{}''" 0 "300 * second"]
  by (simp add: header_values_SignHeader ParseInt_FormatInt signature_nonempty Unix_def second_def int64_defs)

text \<open>
  Round trip of the signature: a header made by \<open>SignHeader\<close> is accepted by
  \<open>VerifyHeader\<close> under the same secret and payload, whenever the check is disabled or the
  clock moved by no more than the tolerance in between.
\<close>

theorem sign_verify_roundtrip:
  assumes "in_int64 (Unix issued)"
    and "tolerance \<le> 0 \<or>
           (\<bar>Unix now - Unix issued\<bar> \<le> 9223372036 \<and> \<bar>Unix now - Unix issued\<bar> * second \<le> tolerance)"
  shows "VerifyHeader secret (SignHeader secret payload issued) payload now tolerance = None"
  using assms by (rule VerifyHeader_SignHeader)

theorem sign_verify_roundtrip_witness:
  "VerifyHeader ''whsec_test'' (SignHeader ''whsec_test'' ''{}'' (1710000000 * second)) ''{}''
     (1710000010 * second) (300 * second) = None"
  by (rule sign_verify_roundtrip) (simp_all add: Unix_def second_def int64_defs)

text \<open>
  A header the program signed is rejected as expired when the clock is further away than
  the tolerance (up to 292 years, where the 64-bit arithmetic is exact), and as an invalid
  signature under another secret or payload with a different tag.
\<close>

theorem verify_rejects:
  assumes "in_int64 (Unix issued)" and "\<bar>Unix now - Unix issued\<bar> \<le> 9223372036"
  shows "VerifyHeader secret' (SignHeader secret payload issued) payload' now tolerance =
     (if tolerance > 0 \<and> \<bar>Unix now - Unix issued\<bar> * second > tolerance
      then Some ErrTimestampExpired
      else if hmac_sha256 secret' (signed_message (Unix issued) payload') =
                hmac_sha256 secret (signed_message (Unix issued) payload)
      then None else Some ErrInvalidSignature)"
  using assms
  by (auto simp: VerifyHeader_def parseHeader_SignHeader hex_decode_signature timestamp_age_exact)

theorem verify_rejects_witness:
  "VerifyHeader ''k'' (SignHeader ''k'' ''{}'' 0) ''{}'' (600 * second) (300 * second)
     = Some ErrTimestampExpired"
  using verify_rejects [of 0 "600 * second" "''k''" "''k''" "''{}''" "''{}''" "300 * second"]
  by (simp add: Unix_def second_def int64_defs)

text \<open>
  The tolerance check is not exact for far timestamps: a header signed for a time 2^55
  seconds ahead of the clock passes every tolerance, because
  \<open>time.Duration(delta)*time.Second\<close> wraps around to zero.
\<close>

theorem tolerance_overflow_accepts:
  assumes "in_int64 (Unix now + 36028797018963968)"
  shows "VerifyHeader secret
           (SignHeader secret payload (now + 36028797018963968 * second)) payload now tolerance = None"
proof -
  have u: "Unix (now + 36028797018963968 * second) = Unix now + 36028797018963968"
    by (simp add: Unix_def second_def)
  show ?thesis
    using assms by (auto simp: VerifyHeader_iff u parseHeader_SignHeader hex_decode_signature
        timestamp_age_wraps)
qed

theorem tolerance_overflow_accepts_witness:
  "VerifyHeader ''k'' (SignHeader ''k'' ''{}'' (36028797018963968 * second)) ''{}'' 0 (300 * second)
     = None"
  using tolerance_overflow_accepts [of 0 "''k''" "''{}''" "300 * second"]
  by (simp add: Unix_def int64_defs)

end
