(* ===== verification/Forwarder.thy ===== *)
theory Forwarder
  imports Rules HmacSig Json
begin

text \<open>
  \<open>internal/forwarder/forwarder.go\<close>: one delivery of a claimed webhook (\<open>Forward\<close>), the HTTP
  exchange in it, the retry policy and the worker loop.

  What the program cannot control comes in as an environment: clock readings, the behaviour of
  the database during each call, what other transactions do between this worker's calls
  (\<open>fe_others\<close>), and the targets' answers: \<open>http_do\<close> is the transport, which gets a request and
  gives an error or the response, \<open>he_redirect\<close> the request a response asks to send next, and
  \<open>newRequest\<close> the URL parser's verdict.
\<close>

definition DefaultDeliveryTimeout :: duration where "DefaultDeliveryTimeout = 5 * second"
definition DeliveryFinalizationReserve :: duration where "DeliveryFinalizationReserve = 5 * second"
definition maxBody :: nat where "maxBody = 1048576"
definition DefaultMaxAttempts :: int where "DefaultMaxAttempts = 3"
definition DefaultBackoffSeconds :: int where "DefaultBackoffSeconds = 2"
definition maxBackoffDelay :: duration where "maxBackoffDelay = 30 * second"

section \<open>The retry policy\<close>

definition normalizeMaxAttempts :: "int \<Rightarrow> int" where
  "normalizeMaxAttempts value = (if value \<le> 0 then DefaultMaxAttempts else value)"

definition normalizeBackoffSeconds :: "int \<Rightarrow> int" where
  "normalizeBackoffSeconds value = (if value \<le> 0 then DefaultBackoffSeconds else value)"

fun retry_loop :: "nat \<Rightarrow> duration \<Rightarrow> duration" where
  "retry_loop 0 delay = (if delay > maxBackoffDelay then maxBackoffDelay else delay)"
| "retry_loop (Suc steps) delay =
     (let delay = wrap64 (delay * 2)
      in if delay \<ge> maxBackoffDelay then maxBackoffDelay else retry_loop steps delay)"

definition retryDelay :: "int \<Rightarrow> int \<Rightarrow> duration" where
  "retryDelay baseSeconds attemptNumber =
     (let attemptNumber = (if attemptNumber < 1 then 1 else attemptNumber)
      in retry_loop (nat (attemptNumber - 1)) (wrap64 (baseSeconds * second)))"

section \<open>The HTTP exchange\<close>

record http_request =
  rq_target :: string
  rq_content_type :: "string list option"
  rq_signature :: "string option"
  rq_body :: bytes

text \<open>
  A response: its body as the bytes that arrive and the error that ends them, if any. A reader
  limited to \<open>n\<close> bytes stops after \<open>n\<close> without meeting a later error.
\<close>

record http_response =
  rs_status :: int
  rs_header :: header
  rs_body :: bytes
  rs_read_error :: "string option"

definition read_limited :: "nat \<Rightarrow> http_response \<Rightarrow> bytes \<times> string option" where
  "read_limited n resp =
     (take n (rs_body resp), if n \<le> length (rs_body resp) then None else rs_read_error resp)"

text \<open>\<open>he_hops\<close> is the number of redirects that fit in before the deadline.\<close>

record http_env =
  he_now :: time
  he_deadline_check :: time
  he_signed_at :: time
  newRequest :: "string \<Rightarrow> string option"
  http_do :: "http_request \<Rightarrow> string + http_response"
  he_redirect :: "http_request \<Rightarrow> http_response \<Rightarrow> http_request option"
  he_hops :: nat

text \<open>
  An \<open>http.Client\<close> is its \<open>CheckRedirect\<close>, which is asked with the next request and those already
  sent; \<open>UseLastResponse\<close> is \<open>http.ErrUseLastResponse\<close>.
\<close>

datatype redirect_verdict = Follow | UseLastResponse | Refuse string

type_synonym http_client = "http_request \<Rightarrow> http_request list \<Rightarrow> redirect_verdict"

definition deliveryClient :: http_client where
  "deliveryClient req via = UseLastResponse"

text \<open>\<open>client.Do\<close>: the requests sent in their order, and the answer.\<close>

fun client_Do ::
    "http_client \<Rightarrow> http_env \<Rightarrow> nat \<Rightarrow> http_request list \<Rightarrow> http_request \<Rightarrow> http_request list \<times> (string + http_response)" where
  "client_Do client env hops via req =
     (case http_do env req of
        Inl e \<Rightarrow> (via @ [req], Inl e)
      | Inr resp \<Rightarrow>
          (case he_redirect env req resp of
             None \<Rightarrow> (via @ [req], Inr resp)
           | Some req' \<Rightarrow>
               (case client req' (via @ [req]) of
                  UseLastResponse \<Rightarrow> (via @ [req], Inr resp)
                | Refuse e \<Rightarrow> (via @ [req], Inl e)
                | Follow \<Rightarrow>
                    (case hops of
                       0 \<Rightarrow> (via @ [req], Inl (error_text DeadlineExceeded))
                     | Suc n \<Rightarrow> client_Do client env n (via @ [req]) req'))))"

declare client_Do.simps [simp del]

definition exchange :: "http_client \<Rightarrow> http_env \<Rightarrow> http_request \<Rightarrow> http_request list \<times> (string + http_response)" where
  "exchange client env req = client_Do client env (he_hops env) [] req"

text \<open>A delivery never follows a redirect: one request is sent, and its answer is the answer.\<close>

lemma exchange_once [simp]: "exchange deliveryClient env req = ([req], http_do env req)"
  by (simp add: exchange_def client_Do.simps deliveryClient_def split: sum.split option.split)

definition status_text :: "int \<Rightarrow> string" where
  "status_text code = ''target responded with status '' @ FormatInt code"

text \<open>The deadline of one attempt: the timeout, cut short by the lease less the reserve.\<close>

definition attempt_deadline :: "webhook \<Rightarrow> duration \<Rightarrow> time \<Rightarrow> time" where
  "attempt_deadline h timeout now =
     (let deadline = now + timeout
      in case wh_DeliveryLeaseUntil h of
           None \<Rightarrow> deadline
         | Some lease \<Rightarrow>
             let leaseDeadline = lease - DeliveryFinalizationReserve
             in if leaseDeadline < deadline then leaseDeadline else deadline)"

text \<open>The \<open>Content-Type\<close> of the outgoing request: the stored one, or JSON for a row without headers.\<close>

definition outgoing_content_type :: "webhook \<Rightarrow> string + string list option" where
  "outgoing_content_type h =
     (if wh_Headers h = [] then Inr (Some [''application/json''])
      else
        (case unmarshal_header (wh_Headers h) of
           None \<Rightarrow> Inl ''failed to decode stored request headers''
         | Some headers \<Rightarrow> Inr (headers ''Content-Type'')))"

definition build_request :: "forwarding_rule \<Rightarrow> webhook \<Rightarrow> string list option \<Rightarrow> time \<Rightarrow> http_request" where
  "build_request rule h content_type now =
     \<lparr>rq_target = fr_Target rule, rq_content_type = content_type,
      rq_signature = (if fr_OutgoingSecret rule \<noteq> []
        then Some (SignHeader (fr_OutgoingSecret rule) (wh_Payload h) now) else None),
      rq_body = wh_Payload h\<rparr>"

definition read_response :: "http_response \<Rightarrow> delivery_response \<times> string \<times> bool" where
  "read_response resp =
     (let (body, err) = read_limited (maxBody + 1) resp;
          response = \<lparr>dr_HTTPStatus = rs_status resp, dr_Body = take (min (length body) maxBody) body,
                      dr_Headers = marshal_header (rs_header resp), dr_Captured = True,
                      dr_Truncated = length body > maxBody\<rparr>
      in case err of
           Some e \<Rightarrow> (response, ''failed to read response body: '' @ e, False)
         | None \<Rightarrow>
             if rs_status resp < 200 \<or> rs_status resp \<ge> 300
             then (response, status_text (rs_status resp), False)
             else (response, [], True))"

definition performDeliveryAttemptWithClient ::
    "go_context \<Rightarrow> http_client \<Rightarrow> http_env \<Rightarrow> forwarding_rule \<Rightarrow> webhook \<Rightarrow> duration \<Rightarrow> delivery_response \<times> string \<times> bool" where
  "performDeliveryAttemptWithClient parent client env rule h timeout =
     (let timeout = (if timeout \<le> 0 then DefaultDeliveryTimeout else timeout);
          ctx = WithDeadline parent (attempt_deadline h timeout (he_now env))
      in case ctx_err ctx (he_deadline_check env) of
           Some e \<Rightarrow> (empty_response, error_text e, False)
         | None \<Rightarrow>
             (case newRequest env (fr_Target rule) of
                Some e \<Rightarrow> (empty_response, ''failed to create forwarding request: '' @ e, False)
              | None \<Rightarrow>
                  (case outgoing_content_type h of
                     Inl e \<Rightarrow> (empty_response, e, False)
                   | Inr content_type \<Rightarrow>
                       (case snd (exchange client env (build_request rule h content_type (he_signed_at env))) of
                          Inl e \<Rightarrow> (empty_response, e, False)
                        | Inr resp \<Rightarrow> read_response resp))))"

definition performDeliveryAttempt ::
    "go_context \<Rightarrow> http_env \<Rightarrow> forwarding_rule \<Rightarrow> webhook \<Rightarrow> duration \<Rightarrow> delivery_response \<times> string \<times> bool" where
  "performDeliveryAttempt parent env rule h timeout = performDeliveryAttemptWithClient parent deliveryClient env rule h timeout"

lemmas attempt_defs = performDeliveryAttempt_def performDeliveryAttemptWithClient_def

section \<open>A delivery\<close>

record forward_env =
  fe_prepared :: time
  fe_rule_fails :: bool
  fe_started :: time
  fe_create :: "faults \<times> (nat \<Rightarrow> time)"
  fe_http :: http_env
  fe_retry_from :: time
  fe_ctx_check :: time
  fe_ended :: time
  fe_finish :: "faults \<times> (nat \<Rightarrow> time)"
  fe_returned :: time
  fe_others :: "nat \<Rightarrow> db \<Rightarrow> db"

text \<open>The rule a source without one is served by: Go's zero value, which has no target.\<close>

definition load_rule :: "bool \<Rightarrow> string \<Rightarrow> db \<Rightarrow> go_error + forwarding_rule" where
  "load_rule failed source d =
     (case GetForwardingRule failed source d of
        Inl e \<Rightarrow> if e = ErrNotFound then Inr empty_rule else Inl e
      | Inr r \<Rightarrow> Inr r)"

definition attempt_result ::
    "go_context \<Rightarrow> forward_env \<Rightarrow> forwarding_rule \<Rightarrow> webhook \<Rightarrow> duration \<Rightarrow> delivery_result" where
  "attempt_result preparationCtx env rule h timeout =
     (if fr_Target rule = [] then
        \<lparr>res_Status = st_skipped, res_Response = empty_response,
         res_ErrorMessage = ''no forwarding target configured'', res_DurationMS = 0, res_NextRetryAt = None\<rparr>
      else
        (let (response, errorMessage, success) = performDeliveryAttempt preparationCtx (fe_http env) rule h timeout;
             result = \<lparr>res_Status = st_failed, res_Response = response, res_ErrorMessage = errorMessage,
                       res_DurationMS = 0, res_NextRetryAt = None\<rparr>
         in if success then result\<lparr>res_Status := st_success\<rparr>
            else if wh_FailureCount h + 1 < normalizeMaxAttempts (fr_RetryMaxAttempts rule)
            then result\<lparr>res_NextRetryAt := Some (fe_retry_from env +
                   retryDelay (normalizeBackoffSeconds (fr_RetryBackoffSeconds rule)) (wh_FailureCount h + 1))\<rparr>
            else result))"

definition final_result :: "go_context \<Rightarrow> forward_env \<Rightarrow> delivery_result \<Rightarrow> delivery_result" where
  "final_result ctx env result =
     (let result = (case ctx_err ctx (fe_ctx_check env) of
                      Some e \<Rightarrow> result\<lparr>res_Status := st_cancelled, res_ErrorMessage := error_text e,
                                     res_NextRetryAt := None\<rparr>
                    | None \<Rightarrow> result)
      in result\<lparr>res_DurationMS := (fe_ended env - fe_started env) div millisecond\<rparr>)"

text \<open>
  \<open>Forward\<close> returns its error, \<open>None\<close> for nil. Errors wrapped with \<open>%w\<close> keep their identity;
  the prefixes of their messages are left out.
\<close>

definition Forward ::
    "go_context \<Rightarrow> forward_env \<Rightarrow> webhook \<Rightarrow> duration \<Rightarrow> db \<Rightarrow> go_error option \<times> db" where
  "Forward ctx env h timeout d =
     (let timeout = (if timeout \<le> 0 then DefaultDeliveryTimeout else timeout)
      in case wh_DeliveryLeaseUntil h of
           None \<Rightarrow> (Some ErrLeaseLost, d)
         | Some lease \<Rightarrow>
             let preparationCtx = WithDeadline ctx (lease - DeliveryFinalizationReserve)
             in case ctx_err preparationCtx (fe_prepared env) of
                  Some e \<Rightarrow> (Some e, d)
                | None \<Rightarrow>
                    (case load_rule (fe_rule_fails env) (wh_Source h) d of
                       Inl e \<Rightarrow> (Some e, d)
                     | Inr rule \<Rightarrow>
                         (case CreateDeliveryAttempt (fst (fe_create env)) (snd (fe_create env)) h (fr_Target rule)
                                 (fe_others env 0 d) of
                            (Inl e, d1) \<Rightarrow> (Some e, d1)
                          | (Inr attemptID, d1) \<Rightarrow>
                              let result = final_result ctx env (attempt_result preparationCtx env rule h timeout)
                              in case FinishDelivery (fst (fe_finish env)) (snd (fe_finish env)) h attemptID result
                                        (fe_others env 1 d1) of
                                   (Inl e, d2) \<Rightarrow> (Some e, d2)
                                 | (Inr _, d2) \<Rightarrow> (ctx_err ctx (fe_returned env), d2))))"

section \<open>The worker\<close>

record worker_config =
  wc_Count :: int
  wc_PollInterval :: duration
  wc_LeaseDuration :: duration
  wc_Timeout :: duration

definition worker_defaults :: "worker_config \<Rightarrow> worker_config" where
  "worker_defaults config =
     \<lparr>wc_Count = (if wc_Count config \<le> 0 then 4 else wc_Count config),
      wc_PollInterval = (if wc_PollInterval config \<le> 0 then second else wc_PollInterval config),
      wc_LeaseDuration = (if wc_LeaseDuration config \<le> 0 then 30 * second else wc_LeaseDuration config),
      wc_Timeout = (if wc_Timeout config \<le> 0 then DefaultDeliveryTimeout else wc_Timeout config)\<rparr>"

text \<open>
  One pass of the worker's loop: the context check, the claim, the delivery of what was
  claimed, and the wait, which ends when the timer fires (\<open>we_timer\<close>) or the context does. The
  pass says whether the loop goes on.
\<close>

record worker_env =
  we_check :: time
  we_now :: time
  we_locked :: "int \<Rightarrow> bool"
  we_claim :: faults
  we_forward :: forward_env
  we_wait_from :: time
  we_others :: "db \<Rightarrow> db"

definition worker_pass :: "go_context \<Rightarrow> worker_config \<Rightarrow> worker_env \<Rightarrow> db \<Rightarrow> bool \<times> db" where
  "worker_pass ctx config env d =
     (if ctx_err ctx (we_check env) \<noteq> None then (False, d)
      else
        (case ClaimDeliverableWebhooks (we_locked env) (we_claim env) 1 (we_now env)
                (we_now env + wc_LeaseDuration config) d of
           (Inr (h # _), d1) \<Rightarrow> (True, snd (Forward ctx (we_forward env) h (wc_Timeout config) (we_others env d1)))
         | (_, d1) \<Rightarrow> (ctx_err ctx (we_wait_from env + wc_PollInterval config) = None, d1)))"

text \<open>The loop over the environments of its passes: it ends when a pass says so.\<close>

fun runWorker :: "go_context \<Rightarrow> worker_config \<Rightarrow> worker_env list \<Rightarrow> db \<Rightarrow> db" where
  "runWorker ctx config [] d = d"
| "runWorker ctx config (env # envs) d =
     (case worker_pass ctx config env d of
        (True, d') \<Rightarrow> runWorker ctx config envs d'
      | (False, d') \<Rightarrow> d')"

text \<open>
  The pool: one worker per number, each a function on the database that its passes share with
  the others; what the others do in between is in the environments of its passes.
\<close>

definition StartWorkerPool :: "go_context \<Rightarrow> worker_config \<Rightarrow> (nat \<Rightarrow> worker_env list) \<Rightarrow> (db \<Rightarrow> db) list" where
  "StartWorkerPool ctx config envs =
     (let config = worker_defaults config
      in map (\<lambda>workerID. runWorker ctx config (envs workerID)) [1..<nat (wc_Count config) + 1])"

section \<open>The retry delay\<close>

lemma retry_loop_le: "retry_loop n delay \<le> maxBackoffDelay"
  by (induction n arbitrary: delay) (simp_all add: Let_def)

lemma retry_loop_exact:
  assumes "0 < delay" and "2 * delay \<le> max_int64"
  shows "retry_loop n delay = min (delay * 2 ^ n) maxBackoffDelay"
  using assms
proof (induction n arbitrary: delay)
  case (Suc n)
  have wrap: "wrap64 (delay * 2) = delay * 2"
    using Suc.prems by (intro wrap64_id) (simp add: int64_defs)
  show ?case
  proof (cases "delay * 2 \<ge> maxBackoffDelay")
    case True
    have "delay * 2 * 1 \<le> delay * 2 * 2 ^ n" using Suc.prems(1) by (intro mult_left_mono) simp_all
    then have "maxBackoffDelay \<le> delay * 2 ^ Suc n" using True by simp
    then show ?thesis using True by (simp add: wrap Let_def)
  next
    case False
    then have "2 * (delay * 2) \<le> max_int64" by (simp add: maxBackoffDelay_def second_def max_int64_def)
    with Suc.IH [of "delay * 2"] Suc.prems(1) False show ?thesis by (simp add: wrap Let_def ac_simps)
  qed
qed simp

text \<open>
  The retry delay is exponential backoff with a cap: for a backoff of up to 4611686018
  seconds (146 years) the wait before retry \<open>n\<close> is the backoff doubled \<open>n - 1\<close> times, at most 30
  seconds; whatever the backoff, it never exceeds the cap.
\<close>

theorem retry_delay_backoff:
  assumes "0 < baseSeconds" and "baseSeconds \<le> 4611686018" and "1 \<le> n"
  shows "retryDelay baseSeconds n = min (baseSeconds * second * 2 ^ nat (n - 1)) (30 * second)"
proof -
  have "wrap64 (baseSeconds * second) = baseSeconds * second"
    using assms by (intro wrap64_id) (simp add: int64_defs second_def)
  moreover have "retry_loop (nat (n - 1)) (baseSeconds * second) =
      min (baseSeconds * second * 2 ^ nat (n - 1)) maxBackoffDelay"
    using assms by (intro retry_loop_exact) (simp_all add: int64_defs second_def)
  ultimately show ?thesis using assms(3) by (simp add: retryDelay_def maxBackoffDelay_def)
qed

theorem retry_delay_backoff_witness:
  "retryDelay 2 3 = min (2 * second * 2 ^ nat (3 - 1)) (30 * second)"
  by (rule retry_delay_backoff) simp_all

text \<open>
  A very large backoff has no delay at all: the product with \<open>time.Second\<close> leaves the 64-bit
  range, so the delay is negative and the retry is due at once.
\<close>

theorem retry_delay_overflow:
  "retryDelay 9223372037 1 = - 9223372036709551616 \<and> retryDelay (normalizeBackoffSeconds 5000000000) 2 < 0"
  by (simp add: retryDelay_def normalizeBackoffSeconds_def wrap64_def second_def maxBackoffDelay_def
      Let_def numeral_2_eq_2 eval_nat_numeral)

section \<open>An attempt\<close>

text \<open>The conditions under which the target's answer \<open>resp\<close> is received.\<close>

definition answered ::
    "go_context \<Rightarrow> http_env \<Rightarrow> forwarding_rule \<Rightarrow> webhook \<Rightarrow> duration \<Rightarrow> http_response \<Rightarrow> bool" where
  "answered parent env rule h timeout resp \<longleftrightarrow>
     ctx_err parent (he_deadline_check env) = None \<and>
     he_deadline_check env < attempt_deadline h (if timeout \<le> 0 then DefaultDeliveryTimeout else timeout) (he_now env) \<and>
     newRequest env (fr_Target rule) = None \<and>
     (\<exists>ct. outgoing_content_type h = Inr ct \<and> http_do env (build_request rule h ct (he_signed_at env)) = Inr resp)"

lemma answered_ctx:
  "answered parent env rule h timeout resp \<longleftrightarrow>
     ctx_err (WithDeadline parent (attempt_deadline h (if timeout \<le> 0 then DefaultDeliveryTimeout else timeout)
        (he_now env))) (he_deadline_check env) = None \<and>
     newRequest env (fr_Target rule) = None \<and>
     (\<exists>ct. outgoing_content_type h = Inr ct \<and> http_do env (build_request rule h ct (he_signed_at env)) = Inr resp)"
  by (auto simp: answered_def ctx_err_WithDeadline)

lemma perform_cases:
  "performDeliveryAttempt parent env rule h timeout = (response, msg, ok) \<Longrightarrow>
   (\<exists>resp. answered parent env rule h timeout resp \<and> (response, msg, ok) = read_response resp) \<or>
   (response = empty_response \<and> \<not> ok \<and> (\<nexists>resp. answered parent env rule h timeout resp))"
  unfolding attempt_defs exchange_once snd_conv answered_ctx Let_def
  by (auto split: option.splits sum.splits simp del: split_paired_All)

text \<open>
  What an attempt reports. It succeeds exactly when the target answered in time with a 2xx
  status and its body could be read (up to one byte more than the limit). Whenever the target
  answered, the recorded response has its status, its headers and the first MiB of its body,
  marked truncated exactly when the body is longer; when it did not, the record is empty.
\<close>

theorem attempt_outcome:
  assumes "performDeliveryAttempt parent env rule h timeout = (response, msg, ok)"
  shows "ok = (\<exists>resp. answered parent env rule h timeout resp \<and> 200 \<le> rs_status resp \<and> rs_status resp < 300 \<and>
      snd (read_limited (maxBody + 1) resp) = None) \<and>
    (\<forall>resp. answered parent env rule h timeout resp \<longrightarrow>
       dr_Captured response \<and> dr_HTTPStatus response = rs_status resp \<and>
       dr_Headers response = marshal_header (rs_header resp) \<and>
       dr_Body response = take maxBody (rs_body resp) \<and>
       dr_Truncated response = (maxBody < length (rs_body resp))) \<and>
    ((\<nexists>resp. answered parent env rule h timeout resp) \<longrightarrow> response = empty_response)"
proof -
  have uniq: "resp = resp'" if "answered parent env rule h timeout resp" "answered parent env rule h timeout resp'"
    for resp resp' using that by (auto simp: answered_def)
  have read: "dr_Captured r \<and> dr_HTTPStatus r = rs_status resp \<and> dr_Headers r = marshal_header (rs_header resp) \<and>
       dr_Body r = take maxBody (rs_body resp) \<and> dr_Truncated r = (maxBody < length (rs_body resp)) \<and>
       b = (200 \<le> rs_status resp \<and> rs_status resp < 300 \<and> snd (read_limited (maxBody + 1) resp) = None)"
    if "(r, m, b) = read_response resp" for r m b resp
    using that by (auto simp: read_response_def read_limited_def Let_def min_def split: option.splits if_splits)
  from perform_cases [OF assms] show ?thesis
  proof (elim disjE conjE exE)
    fix resp assume a: "answered parent env rule h timeout resp" and r: "(response, msg, ok) = read_response resp"
    show ?thesis using read [OF r] uniq [OF a] a by blast
  qed blast
qed

definition demo_exchange :: http_env where
  "demo_exchange = \<lparr>he_now = 10, he_deadline_check = 11, he_signed_at = 11, newRequest = (\<lambda>_. None),
     http_do = (\<lambda>_. Inr \<lparr>rs_status = 204, rs_header = [], rs_body = ''ok'', rs_read_error = None\<rparr>),
     he_redirect = (\<lambda>_ _. None), he_hops = 0\<rparr>"

definition demo_target :: forwarding_rule where
  "demo_target = empty_rule\<lparr>fr_Source := ''s'', fr_Target := ''http://t''\<rparr>"

definition demo_answer :: delivery_response where
  "demo_answer = \<lparr>dr_HTTPStatus = 204, dr_Body = ''ok'', dr_Headers = marshal_header [], dr_Captured = True, dr_Truncated = False\<rparr>"

lemma demo_attempt_step:
  "performDeliveryAttempt background demo_exchange demo_target demo_webhook second = (demo_answer, [], True)"
  by (simp add: attempt_defs demo_exchange_def demo_target_def demo_answer_def read_response_def
      read_limited_def outgoing_content_type_def attempt_deadline_def demo_webhook_def empty_webhook_def
      ctx_err_def WithDeadline_def background_def maxBody_def second_def Let_def)

theorem attempt_outcome_witness:
  "True = (\<exists>resp. answered background demo_exchange demo_target demo_webhook second resp \<and>
      200 \<le> rs_status resp \<and> rs_status resp < 300 \<and> snd (read_limited (maxBody + 1) resp) = None)"
  using attempt_outcome [OF demo_attempt_step] by blast

text \<open>
  C39: what is forwarded is what was received. For a webhook stored with the headers \<open>hs\<close> of its
  request, the outgoing request has the payload byte for byte, the original \<open>Content-Type\<close>
  values (or none), the rule's target, and, when the rule has an outgoing secret, a signature
  that the receiver's check accepts under that secret. It is the only request that leaves: a
  redirect is not followed, so payload and signature reach no other target.
\<close>

theorem outgoing_request_faithful:
  assumes "wh_Headers h = marshal_header hs" and "header_utf8 hs" "distinct (map fst hs)"
    and "in_int64 (Unix now)" and "0 < tolerance"
  shows "outgoing_content_type h = Inr (map_of hs ''Content-Type'') \<and>
    (let rq = build_request rule h (map_of hs ''Content-Type'') now
     in rq_body rq = wh_Payload h \<and> rq_target rq = fr_Target rule \<and>
        rq_content_type rq = map_of hs ''Content-Type'' \<and>
        (case rq_signature rq of
           None \<Rightarrow> fr_OutgoingSecret rule = []
         | Some sig \<Rightarrow> VerifyHeader (fr_OutgoingSecret rule) sig (wh_Payload h) now tolerance = None) \<and>
        fst (exchange deliveryClient env rq) = [rq])"
proof -
  have "wh_Headers h \<noteq> []" by (simp add: assms(1) marshal_header_def)
  then have "outgoing_content_type h = Inr (map_of hs ''Content-Type'')"
    by (simp add: outgoing_content_type_def assms(1) unmarshal_marshal [OF assms(2,3)])
  then show ?thesis using VerifyHeader_SignHeader [of now tolerance now] assms(4,5)
    by (simp add: build_request_def Let_def)
qed

theorem outgoing_request_faithful_witness:
  "outgoing_content_type (demo_webhook\<lparr>wh_Headers := marshal_header demo_header\<rparr>) = Inr (Some [''text/plain'', ''a''])"
  using outgoing_request_faithful [of "demo_webhook\<lparr>wh_Headers := marshal_header demo_header\<rparr>" demo_header 0 1]
  by (simp add: demo_header_utf8 demo_header_distinct int64_defs Unix_def demo_header_lookup)

end
