(* ===== verification/Workers.thy ===== *)
theory Workers
  imports System Forwarder
begin

text \<open>
  Deliveries inside the system: a delivery by \<open>Forward\<close> and a whole run of a worker are
  executions of the transition system of theory System, whatever other workers and handlers do
  between their calls, so its invariants hold of them. Then what one delivery does to its
  webhook and its attempt when the database works, decided by the target's answer and the rule's
  retry limit, and how many failing deliveries there can be.
\<close>

text \<open>What other transactions do between two calls: some steps of the system.\<close>

definition others_ok :: "(db \<Rightarrow> db) \<Rightarrow> bool" where
  "others_ok g \<longleftrightarrow> (\<forall>s. \<exists>s'. sys_steps s s' \<and> sys_db s' = g (sys_db s))"

lemma others_ok_id: "others_ok (\<lambda>d. d)"
  unfolding others_ok_def using no_step by blast

lemma sys_steps_trans: "sys_steps s s' \<Longrightarrow> sys_steps r s \<Longrightarrow> sys_steps r s'"
  by (induction rule: sys_steps.induct) (auto intro: more_step)

lemma sys_steps_claims: "sys_steps s s' \<Longrightarrow> set (sys_claims s) \<subseteq> set (sys_claims s')"
proof (induction rule: sys_steps.induct)
  case (more_step s s' s'')
  from more_step.hyps(2) have "set (sys_claims s') \<subseteq> set (sys_claims s'')"
    by (cases rule: sys_step.cases) auto
  then show ?case using more_step.IH by blast
qed simp

lemma others_step:
  assumes "others_ok g" and "sys_steps r s" "c \<in> set (sys_claims s)"
  obtains s' where "sys_steps r s'" "c \<in> set (sys_claims s')" "sys_db s' = g (sys_db s)"
  using assms sys_steps_trans sys_steps_claims unfolding others_ok_def by (metis subsetD)

lemma Forward_steps:
  assumes "sys_steps r s" and h: "h \<in> set (sys_claims s)" and "\<And>n. others_ok (fe_others env n)"
  shows "\<exists>s'. sys_steps r s' \<and> sys_db s' = snd (Forward ctx env h timeout (sys_db s))"
proof -
  let ?d = "sys_db s"
  have stop: ?thesis if "snd (Forward ctx env h timeout ?d) = ?d" using that assms(1) by auto
  show ?thesis
  proof (cases "wh_DeliveryLeaseUntil h")
    case None
    then show ?thesis by (intro stop) (simp add: Forward_def)
  next
    case (Some lease)
    let ?prep = "WithDeadline ctx (lease - DeliveryFinalizationReserve)"
    show ?thesis
    proof (cases "ctx_err ?prep (fe_prepared env)")
      case e: (Some e)
      then show ?thesis by (intro stop) (simp add: Forward_def Some Let_def)
    next
      case ok: None
      show ?thesis
      proof (cases "load_rule (fe_rule_fails env) (wh_Source h) ?d")
        case (Inl e)
        then show ?thesis by (intro stop) (simp add: Forward_def Some ok Let_def)
      next
        case (Inr rule)
        obtain s1 where s1: "sys_steps r s1" "h \<in> set (sys_claims s1)" "sys_db s1 = fe_others env 0 ?d"
          using others_step [OF assms(3) assms(1) h] by blast
        obtain ra d1 where c: "CreateDeliveryAttempt (fst (fe_create env)) (snd (fe_create env)) h (fr_Target rule)
            (sys_db s1) = (ra, d1)" by (meson surj_pair)
        let ?s2 = "s1\<lparr>sys_db := d1\<rparr>"
        have s2: "sys_steps r ?s2" "h \<in> set (sys_claims ?s2)"
          using more_step [OF s1(1) create [OF s1(2) c]] s1(2) by simp_all
        show ?thesis
        proof (cases ra)
          case ra: (Inl e)
          then have "snd (Forward ctx env h timeout ?d) = d1"
            using c by (simp add: Forward_def Some ok Inr Let_def s1(3))
          then show ?thesis using s2(1) by force
        next
          case ra: (Inr k)
          obtain s3 where s3: "sys_steps r s3" "h \<in> set (sys_claims s3)" "sys_db s3 = fe_others env 1 d1"
            using others_step [OF assms(3) s2, of 1] by auto
          let ?t = "if timeout \<le> 0 then DefaultDeliveryTimeout else timeout"
          let ?res = "final_result ctx env (attempt_result ?prep env rule h ?t)"
          obtain ru d2 where f: "FinishDelivery (fst (fe_finish env)) (snd (fe_finish env)) h k ?res (sys_db s3) = (ru, d2)"
            by (meson surj_pair)
          have "sys_steps r (s3\<lparr>sys_db := d2\<rparr>)" using more_step [OF s3(1) finish [OF s3(2) f]] .
          moreover have "snd (Forward ctx env h timeout ?d) = d2"
            using c f by (simp add: Forward_def Some ok Inr ra Let_def s1(3) s3(3) split: sum.splits)
          ultimately show ?thesis by force
        qed
      qed
    qed
  qed
qed

definition env_ok :: "worker_env \<Rightarrow> bool" where
  "env_ok env \<longleftrightarrow> others_ok (we_others env) \<and> (\<forall>n. others_ok (fe_others (we_forward env) n))"

lemma worker_pass_steps:
  assumes "sys_steps r s" and "env_ok env"
  shows "\<exists>s'. sys_steps r s' \<and> sys_db s' = snd (worker_pass ctx config env (sys_db s))"
proof (cases "ctx_err ctx (we_check env)")
  case (Some e)
  then show ?thesis using assms(1) by (auto simp: worker_pass_def)
next
  case None
  obtain res d1 where c: "ClaimDeliverableWebhooks (we_locked env) (we_claim env) 1 (we_now env)
      (we_now env + wc_LeaseDuration config) (sys_db s) = (res, d1)" by (meson surj_pair)
  show ?thesis
  proof (cases res)
    case (Inl e)
    then have "sys_steps r (s\<lparr>sys_db := d1\<rparr>)" using more_step [OF assms(1) claim_error] c by blast
    then show ?thesis using c Inl None by (force simp: worker_pass_def)
  next
    case (Inr claims)
    let ?s1 = "s\<lparr>sys_db := d1, sys_claims := sys_claims s @ claims\<rparr>"
    have s1: "sys_steps r ?s1" using more_step [OF assms(1) claim] c Inr by blast
    show ?thesis
    proof (cases claims)
      case Nil
      then show ?thesis using c Inr None s1 by (force simp: worker_pass_def)
    next
      case (Cons h rest)
      obtain s2 where s2: "sys_steps r s2" "h \<in> set (sys_claims s2)" "sys_db s2 = we_others env d1"
        using others_step [of "we_others env" r ?s1 h] s1 assms(2) Cons by (auto simp: env_ok_def)
      from Forward_steps [OF s2(1,2), of "we_forward env" ctx "wc_Timeout config"] assms(2)
      show ?thesis using c Inr Cons None s2(3) by (simp add: worker_pass_def env_ok_def)
    qed
  qed
qed

lemma runWorker_steps:
  assumes "sys_steps r s" and "\<And>env. env \<in> set envs \<Longrightarrow> env_ok env"
  shows "\<exists>s'. sys_steps r s' \<and> sys_db s' = runWorker ctx config envs (sys_db s)"
  using assms
proof (induction envs arbitrary: s)
  case (Cons env envs)
  obtain s1 where s1: "sys_steps r s1" "sys_db s1 = snd (worker_pass ctx config env (sys_db s))"
    using worker_pass_steps [OF Cons.prems(1) Cons.prems(2) [of env]] by auto
  show ?case
  proof (cases "fst (worker_pass ctx config env (sys_db s))")
    case True
    then have "runWorker ctx config (env # envs) (sys_db s) = runWorker ctx config envs (sys_db s1)"
      using s1(2) by (auto split: prod.splits bool.splits)
    then show ?thesis using Cons.IH [OF s1(1)] Cons.prems(2) by simp
  next
    case False
    then show ?thesis using s1 by (intro exI [of _ s1]) (auto split: prod.splits bool.splits)
  qed
qed auto

lemma runWorker_reachable:
  assumes "sys_reachable s" and "\<And>env. env \<in> set envs \<Longrightarrow> env_ok env"
  shows "\<exists>s'. sys_steps s s' \<and> sys_db s' = runWorker ctx config envs (sys_db s) \<and> sys_reachable s' \<and> db_inv (sys_db s')"
proof -
  obtain s' where s': "sys_steps s s'" "sys_db s' = runWorker ctx config envs (sys_db s)"
    using runWorker_steps [OF no_step assms(2)] by blast
  moreover obtain t where "sys_steps (init_sys t) s" using assms(1) by (auto simp: sys_reachable_def)
  then have "sys_reachable s'" using sys_steps_trans [OF s'(1)] by (auto simp: sys_reachable_def)
  ultimately show ?thesis using reachable_inv by blast
qed


definition demo_forward :: forward_env where
  "demo_forward = \<lparr>fe_prepared = 10, fe_rule_fails = False, fe_started = 10, fe_create = (no_faults, \<lambda>_. 10),
     fe_http = demo_exchange, fe_retry_from = 12, fe_ctx_check = 12, fe_ended = 12, fe_finish = (no_faults, \<lambda>_. 12),
     fe_returned = 12, fe_others = (\<lambda>_ d. d)\<rparr>"

definition demo_pass :: worker_env where
  "demo_pass = \<lparr>we_check = 0, we_now = 0, we_locked = free_rows, we_claim = no_faults, we_forward = demo_forward,
     we_wait_from = 0, we_others = (\<lambda>d. d)\<rparr>"

lemma demo_pass_ok: "env_ok demo_pass"
  by (simp add: env_ok_def demo_pass_def demo_forward_def others_ok_id)


section \<open>The outcome of a delivery\<close>

definition rule_for :: "string \<Rightarrow> db \<Rightarrow> forwarding_rule" where
  "rule_for source d = (case find_rule source d of None \<Rightarrow> empty_rule | Some r \<Rightarrow> r)"

lemma load_rule_for: "rules_inv d \<Longrightarrow> load_rule False source d = Inr (rule_for source d)"
  by (simp add: load_rule_def GetForwardingRule_find rule_for_def split: option.splits)

text \<open>A delivery with a working database, undisturbed, that records its result before the lease ends.\<close>

definition undisturbed :: "forward_env \<Rightarrow> time \<Rightarrow> bool" where
  "undisturbed env lease \<longleftrightarrow>
     \<not> fe_rule_fails env \<and> fst (fe_create env) = no_faults \<and> fst (fe_finish env) = no_faults \<and>
     fe_others env = (\<lambda>_ d. d) \<and>
     snd (fe_create env) 0 < lease \<and> snd (fe_create env) 1 < lease \<and>
     snd (fe_finish env) 0 < lease \<and> snd (fe_finish env) 1 < lease"

definition verdict_phase :: "go_context \<Rightarrow> forward_env \<Rightarrow> forwarding_rule \<Rightarrow> webhook \<Rightarrow> bool \<Rightarrow> phase" where
  "verdict_phase ctx env rule h ok =
     (if ctx_err ctx (fe_ctx_check env) \<noteq> None then Queued
      else if fr_Target rule = [] then PassedOver
      else if ok then Delivered
      else if wh_FailureCount h + 1 < normalizeMaxAttempts (fr_RetryMaxAttempts rule)
      then Waiting (fe_retry_from env +
             retryDelay (normalizeBackoffSeconds (fr_RetryBackoffSeconds rule)) (wh_FailureCount h + 1))
      else DeadLettered)"

lemma surjective3: "x = (fst x, fst (snd x), snd (snd x))" by simp

text \<open>The status and retry time of the recorded result, case by case.\<close>

lemma finish_phases:
  "res_Status r = st_cancelled \<Longrightarrow> phase (Some (finish_updates r t w)) = Queued"
  "res_Status r = st_skipped \<Longrightarrow> phase (Some (finish_updates r t w)) = PassedOver"
  "res_Status r = st_success \<Longrightarrow> phase (Some (finish_updates r t w)) = Delivered"
  "res_Status r = st_failed \<Longrightarrow> res_NextRetryAt r = Some u \<Longrightarrow> phase (Some (finish_updates r t w)) = Waiting u"
  "res_Status r = st_failed \<Longrightarrow> res_NextRetryAt r = None \<Longrightarrow> phase (Some (finish_updates r t w)) = DeadLettered"
  by (simp_all add: finish_updates_def phase_def Let_def)

definition verdict_result :: "go_context \<Rightarrow> forward_env \<Rightarrow> forwarding_rule \<Rightarrow> webhook \<Rightarrow> bool \<Rightarrow> string \<times> time option" where
  "verdict_result ctx env rule h ok =
     (if ctx_err ctx (fe_ctx_check env) \<noteq> None then (st_cancelled, None)
      else if fr_Target rule = [] then (st_skipped, None)
      else if ok then (st_success, None)
      else if wh_FailureCount h + 1 < normalizeMaxAttempts (fr_RetryMaxAttempts rule)
      then (st_failed, Some (fe_retry_from env +
             retryDelay (normalizeBackoffSeconds (fr_RetryBackoffSeconds rule)) (wh_FailureCount h + 1)))
      else (st_failed, None))"

lemma final_result_verdict:
  fixes ctx :: go_context
  assumes "performDeliveryAttempt prep (fe_http env) rule h timeout = (resp, msg, ok)"
  defines "r \<equiv> final_result ctx env (attempt_result prep env rule h timeout)"
  shows "(res_Status r, res_NextRetryAt r) = verdict_result ctx env rule h ok"
proof (cases "ctx_err ctx (fe_ctx_check env)")
  case None
  show ?thesis
  proof (cases "fr_Target rule = []")
    case True
    then show ?thesis by (simp add: r_def final_result_def None attempt_result_def verdict_result_def)
  next
    case False
    then show ?thesis
      by (cases ok) (simp_all add: r_def final_result_def None attempt_result_def assms(1) verdict_result_def)
  qed
qed (simp add: r_def final_result_def verdict_result_def)

lemma final_result_phase:
  fixes ctx :: go_context
  assumes "performDeliveryAttempt prep (fe_http env) rule h timeout = (resp, msg, ok)"
  defines "r \<equiv> final_result ctx env (attempt_result prep env rule h timeout)"
  shows "phase (Some (finish_updates r t w)) = verdict_phase ctx env rule h ok"
    and "res_Status r \<in> {st_success, st_failed, st_cancelled, st_skipped}"
  using final_result_verdict [OF assms(1), of ctx, folded r_def] finish_phases [where r = r and t = t and w = w]
  by (auto simp: verdict_result_def verdict_phase_def split: if_splits)

lemma Forward_undisturbed:
  assumes inv: "db_inv d" and h: "find_webhook (wh_ID h) d = Some h" "wh_Status h = st_processing"
      "wh_DeliveryLeaseUntil h = Some lease"
    and free: "\<And>a. a \<in> set (t_attempts d) \<Longrightarrow> da_WebhookID a = wh_ID h \<Longrightarrow> da_Status a \<noteq> st_pending"
    and env: "undisturbed env lease"
    and prep: "ctx_err (WithDeadline ctx (lease - DeliveryFinalizationReserve)) (fe_prepared env) = None"
    and t: "t = (if timeout \<le> 0 then DefaultDeliveryTimeout else timeout)"
    and result: "result = final_result ctx env
      (attempt_result (WithDeadline ctx (lease - DeliveryFinalizationReserve)) env (rule_for (wh_Source h) d) h t)"
  shows "fst (Forward ctx env h timeout d) = ctx_err ctx (fe_returned env) \<and>
    find_webhook (wh_ID h) (snd (Forward ctx env h timeout d)) =
      Some (finish_updates result (snd (fe_finish env) 2) h) \<and>
    (\<forall>k. k \<noteq> wh_ID h \<longrightarrow> find_webhook k (snd (Forward ctx env h timeout d)) = find_webhook k d) \<and>
    (\<exists>k. t_attempts (snd (Forward ctx env h timeout d)) = t_attempts d @
       [complete_attempt result (snd (fe_finish env) 2)
          ((new_pending_attempt h (fr_Target (rule_for (wh_Source h) d)) (snd (fe_create env) 2))\<lparr>da_ID := k\<rparr>)])"
proof -
  let ?c = "snd (fe_create env)" and ?f = "snd (fe_finish env)"
  have ok: "webhook_ok h" using delivery_invD(3) [OF db_invD(1) [OF inv]] find_webhook_Some(1) [OF h(1)] .
  then have version: "0 < wh_DeliveryLeaseVersion h" using h(2) by (simp add: webhook_ok_def)
  have clocks: "?c 0 < lease" "?c 1 < lease" "?f 0 < lease" "?f 1 < lease"
    using env by (simp_all add: undisturbed_def)
  have hold: "holds_lease d (?c 1) h"
    using h version clocks by (simp add: holds_lease_def lease_over_def)
  have lease: "\<not> lease_over (wh_DeliveryLeaseUntil h) (?c 0)" "\<not> lease_over (wh_DeliveryLeaseUntil h) (?f 0)"
    using h(3) clocks by (simp_all add: lease_over_def)
  obtain k d1 where c: "CreateDeliveryAttempt no_faults ?c h (fr_Target (rule_for (wh_Source h) d)) d = (Inr k, d1)"
    using create_succeeds [OF inv hold lease(1) free] by blast
  note cf = create_facts [OF inv c]
  define a where "a = (new_pending_attempt h (fr_Target (rule_for (wh_Source h) d)) (?c 2))\<lparr>da_ID := k\<rparr>"
  have a: "find_attempt k d1 = Some a" "da_WebhookID a = wh_ID h" "da_Status a = st_pending"
      and rows: "t_attempts d1 = t_attempts d @ [a]"
    using cf h(1) by (auto simp: a_def new_pending_attempt_def)
  have inv1: "db_inv d1" by (rule db_inv_Create [OF inv c])
  have h1: "find_webhook (wh_ID h) d1 = Some h" using cf h(1) by (simp add: find_webhook_def)
  have hold1: "holds_lease d1 (?f 1) h"
    using h1 h(2,3) version clocks by (simp add: holds_lease_def lease_over_def)
  have "res_Status result \<in> {st_success, st_failed, st_cancelled, st_skipped}"
    unfolding result by (rule final_result_phase(2) [OF surjective3])
  then obtain d2 where f: "FinishDelivery no_faults ?f h (da_ID a) result d1 = (Inr (), d2)"
    using finish_succeeds [OF inv1 hold1 lease(2) find_attempt_Some(1) [OF a(1)] a(2,3)] by blast
  have "find_webhook (wh_ID h) d2 = Some (finish_updates result (?f 2) h)"
      and others: "\<And>j. j \<noteq> wh_ID h \<Longrightarrow> find_webhook j d2 = find_webhook j d"
    using finish_facts [OF inv1 f] h1 cf by (auto simp: find_webhook_def)
  moreover have "da_ID b \<noteq> k" if "b \<in> set (t_attempts d)" for b
    using find_attempt_in [OF db_invD(1) [OF inv] that] cf by auto
  then have "map (\<lambda>b. if da_ID b = k then complete_attempt result (?f 2) b else b) (t_attempts d) = t_attempts d"
    by (intro map_idI) simp
  then have "t_attempts d2 = t_attempts d @ [complete_attempt result (?f 2) a]"
    using finish_rows [OF inv1 f] find_attempt_Some(2) [OF a(1)] rows by simp
  moreover have "Forward ctx env h timeout d = (ctx_err ctx (fe_returned env), d2)"
    using env c f find_attempt_Some(2) [OF a(1)] load_rule_for [OF db_invD(2) [OF inv]]
    by (simp add: Forward_def h(3) prep undisturbed_def Let_def t [symmetric] result [symmetric])
  ultimately show ?thesis by (auto simp: a_def)
qed

text \<open>What the result of a delivery records, on the attempt and on the webhook.\<close>

lemma final_result_fields:
  fixes ctx :: go_context
  assumes "performDeliveryAttempt prep (fe_http env) rule h timeout = (response, message, ok)"
  defines "r \<equiv> final_result ctx env (attempt_result prep env rule h timeout)"
  shows "res_Response r = (if fr_Target rule = [] then empty_response else response)"
    and "res_DurationMS r = (fe_ended env - fe_started env) div millisecond"
    and "res_ErrorMessage r = (case ctx_err ctx (fe_ctx_check env) of Some e \<Rightarrow> error_text e
           | None \<Rightarrow> if fr_Target rule = [] then ''no forwarding target configured'' else message)"
  unfolding r_def final_result_def attempt_result_def assms(1)
  by (cases "ctx_err ctx (fe_ctx_check env)"; cases ok; simp add: Let_def)+

lemma finish_failed:
  assumes "res_Status r = st_failed"
  shows "wh_LastError (finish_updates r t w) = res_ErrorMessage r"
    and "res_NextRetryAt r = None \<Longrightarrow>
      wh_Status (finish_updates r t w) = st_dead_lettered \<and>
      wh_DeadLetterReason (finish_updates r t w) = res_ErrorMessage r \<and> wh_DeadLetteredAt (finish_updates r t w) = Some t"
  using assms by (auto simp: finish_updates_def Let_def split: option.splits)

lemma finish_shared:
  "wh_DeliveryLeaseUntil (finish_updates r t w) = None"
  "wh_Response (finish_updates r t w) =
     (if res_Status r = st_skipped then wh_Response w else dr_Body (res_Response r))"
  by (auto simp: finish_updates_def Let_def split: option.splits)

lemma finish_failure_count:
  "wh_FailureCount (finish_updates r t w) =
     (if res_Status r = st_success \<or> res_Status r = st_skipped then 0
      else if res_Status r = st_failed then wh_FailureCount w + 1 else wh_FailureCount w)"
  by (auto simp: finish_updates_def Let_def split: option.splits)

lemma recorded_outcome:
  fixes ctx :: go_context and t :: time
  assumes "performDeliveryAttempt prep (fe_http env) rule h timeout = (response, message, ok)"
  defines "r \<equiv> final_result ctx env (attempt_result prep env rule h timeout)"
  defines "w \<equiv> finish_updates r t h"
  shows "res_DurationMS r = (fe_ended env - fe_started env) div millisecond"
    and "res_Response r = (if fr_Target rule = [] then empty_response else response)"
    and "wh_DeliveryLeaseUntil w = None"
    and "wh_Response w = (if res_Status r = st_skipped then wh_Response h else dr_Body (res_Response r))"
    and "case ctx_err ctx (fe_ctx_check env) of
          Some e \<Rightarrow> res_Status r = st_cancelled \<and> res_ErrorMessage r = error_text e \<and>
            phase (Some w) = Queued \<and> wh_FailureCount w = wh_FailureCount h
        | None \<Rightarrow>
            if fr_Target rule = [] then
              res_Status r = st_skipped \<and> res_ErrorMessage r = ''no forwarding target configured'' \<and>
              phase (Some w) = PassedOver \<and> wh_FailureCount w = 0
            else if ok then
              res_Status r = st_success \<and> res_ErrorMessage r = message \<and>
              phase (Some w) = Delivered \<and> wh_FailureCount w = 0
            else
              res_Status r = st_failed \<and> res_ErrorMessage r = message \<and> wh_LastError w = message \<and>
              wh_FailureCount w = wh_FailureCount h + 1 \<and>
              (if wh_FailureCount h + 1 < normalizeMaxAttempts (fr_RetryMaxAttempts rule)
               then phase (Some w) = Waiting (fe_retry_from env +
                      retryDelay (normalizeBackoffSeconds (fr_RetryBackoffSeconds rule)) (wh_FailureCount h + 1))
               else wh_Status w = st_dead_lettered \<and> wh_DeadLetterReason w = message \<and> wh_DeadLetteredAt w = Some t)"
proof -
  note fields = final_result_fields [OF assms(1), of ctx, folded r_def]
  have v: "(res_Status r, res_NextRetryAt r) = verdict_result ctx env rule h ok"
    unfolding r_def by (rule final_result_verdict [OF assms(1)])
  note p = final_result_phase(1) [OF assms(1), of ctx t h, folded r_def, folded w_def]
  show "res_DurationMS r = (fe_ended env - fe_started env) div millisecond"
    "res_Response r = (if fr_Target rule = [] then empty_response else response)" by (rule fields)+
  show "wh_DeliveryLeaseUntil w = None"
    "wh_Response w = (if res_Status r = st_skipped then wh_Response h else dr_Body (res_Response r))"
    by (simp_all add: w_def finish_shared)
  have count: "wh_FailureCount w = (if res_Status r = st_success \<or> res_Status r = st_skipped then 0
      else if res_Status r = st_failed then wh_FailureCount h + 1 else wh_FailureCount h)"
    unfolding w_def by (rule finish_failure_count)
  show "case ctx_err ctx (fe_ctx_check env) of
          Some e \<Rightarrow> res_Status r = st_cancelled \<and> res_ErrorMessage r = error_text e \<and>
            phase (Some w) = Queued \<and> wh_FailureCount w = wh_FailureCount h
        | None \<Rightarrow>
            if fr_Target rule = [] then
              res_Status r = st_skipped \<and> res_ErrorMessage r = ''no forwarding target configured'' \<and>
              phase (Some w) = PassedOver \<and> wh_FailureCount w = 0
            else if ok then
              res_Status r = st_success \<and> res_ErrorMessage r = message \<and>
              phase (Some w) = Delivered \<and> wh_FailureCount w = 0
            else
              res_Status r = st_failed \<and> res_ErrorMessage r = message \<and> wh_LastError w = message \<and>
              wh_FailureCount w = wh_FailureCount h + 1 \<and>
              (if wh_FailureCount h + 1 < normalizeMaxAttempts (fr_RetryMaxAttempts rule)
               then phase (Some w) = Waiting (fe_retry_from env +
                      retryDelay (normalizeBackoffSeconds (fr_RetryBackoffSeconds rule)) (wh_FailureCount h + 1))
               else wh_Status w = st_dead_lettered \<and> wh_DeadLetterReason w = message \<and> wh_DeadLetteredAt w = Some t)"
  proof (cases "ctx_err ctx (fe_ctx_check env)")
    case (Some e)
    then show ?thesis using v p count fields(3) by (simp add: verdict_result_def verdict_phase_def)
  next
    case None
    have "res_Status r = st_failed \<Longrightarrow> wh_LastError w = res_ErrorMessage r"
      "res_Status r = st_failed \<Longrightarrow> res_NextRetryAt r = None \<Longrightarrow>
         wh_Status w = st_dead_lettered \<and> wh_DeadLetterReason w = res_ErrorMessage r \<and> wh_DeadLetteredAt w = Some t"
      unfolding w_def by (rule finish_failed; simp)+
    then show ?thesis using v p count fields(3) None
      by (simp add: verdict_result_def verdict_phase_def split: if_splits)
  qed
qed

lemma forward_outcome_facts:
  assumes "db_inv d" and "find_webhook (wh_ID h) d = Some h" "wh_Status h = st_processing"
      "wh_DeliveryLeaseUntil h = Some lease"
    and "\<forall>a \<in> set (t_attempts d). da_WebhookID a = wh_ID h \<longrightarrow> da_Status a \<noteq> st_pending"
    and "undisturbed env lease"
    and "ctx_err (WithDeadline ctx (lease - DeliveryFinalizationReserve)) (fe_prepared env) = None"
    and "rule = (case find_rule (wh_Source h) d of None \<Rightarrow> empty_rule | Some r \<Rightarrow> r)"
    and "performDeliveryAttempt (WithDeadline ctx (lease - DeliveryFinalizationReserve)) (fe_http env) rule h
           (if timeout \<le> 0 then DefaultDeliveryTimeout else timeout) = (response, message, ok)"
    and "Forward ctx env h timeout d = (err, d')"
  shows "err = ctx_err ctx (fe_returned env) \<and>
    (\<forall>k. k \<noteq> wh_ID h \<longrightarrow> find_webhook k d' = find_webhook k d) \<and>
    (\<exists>w a. find_webhook (wh_ID h) d' = Some w \<and> t_attempts d' = t_attempts d @ [a] \<and>
       da_WebhookID a = wh_ID h \<and> da_Source a = wh_Source h \<and> da_Target a = fr_Target rule \<and>
       da_StartedAt a = snd (fe_create env) 2 \<and> da_CompletedAt a = Some (snd (fe_finish env) 2) \<and>
       da_DurationMS a = (fe_ended env - fe_started env) div millisecond \<and>
       \<lparr>dr_HTTPStatus = da_HTTPStatus a, dr_Body = da_ResponseBody a, dr_Headers = da_ResponseHeaders a,
        dr_Captured = da_ResponseCaptured a, dr_Truncated = da_ResponseTruncated a\<rparr> =
         (if fr_Target rule = [] then empty_response else response) \<and>
       wh_DeliveryLeaseUntil w = None \<and>
       wh_Response w = (if da_Status a = st_skipped then wh_Response h else da_ResponseBody a) \<and>
       (case ctx_err ctx (fe_ctx_check env) of
          Some e \<Rightarrow> da_Status a = st_cancelled \<and> da_ErrorMessage a = error_text e \<and>
            phase (Some w) = Queued \<and> wh_FailureCount w = wh_FailureCount h
        | None \<Rightarrow>
            if fr_Target rule = [] then
              da_Status a = st_skipped \<and> da_ErrorMessage a = ''no forwarding target configured'' \<and>
              phase (Some w) = PassedOver \<and> wh_FailureCount w = 0
            else if ok then
              da_Status a = st_success \<and> da_ErrorMessage a = message \<and>
              phase (Some w) = Delivered \<and> wh_FailureCount w = 0
            else
              da_Status a = st_failed \<and> da_ErrorMessage a = message \<and> wh_LastError w = message \<and>
              wh_FailureCount w = wh_FailureCount h + 1 \<and>
              (if wh_FailureCount h + 1 < normalizeMaxAttempts (fr_RetryMaxAttempts rule)
               then phase (Some w) = Waiting (fe_retry_from env +
                      retryDelay (normalizeBackoffSeconds (fr_RetryBackoffSeconds rule)) (wh_FailureCount h + 1))
               else wh_Status w = st_dead_lettered \<and> wh_DeadLetterReason w = message \<and>
                    wh_DeadLetteredAt w = Some (snd (fe_finish env) 2))))"
proof -
  let ?prep = "WithDeadline ctx (lease - DeliveryFinalizationReserve)"
  let ?t = "if timeout \<le> 0 then DefaultDeliveryTimeout else timeout"
  define r where "r = final_result ctx env (attempt_result ?prep env rule h ?t)"
  have rule: "rule_for (wh_Source h) d = rule" by (simp add: rule_for_def assms(8))
  obtain k where f: "err = ctx_err ctx (fe_returned env)"
      "find_webhook (wh_ID h) d' = Some (finish_updates r (snd (fe_finish env) 2) h)"
      "\<forall>k. k \<noteq> wh_ID h \<longrightarrow> find_webhook k d' = find_webhook k d"
      "t_attempts d' = t_attempts d @ [complete_attempt r (snd (fe_finish env) 2)
         ((new_pending_attempt h (fr_Target rule) (snd (fe_create env) 2))\<lparr>da_ID := k\<rparr>)]"
    using Forward_undisturbed [OF assms(1-4) _ assms(6,7) refl, of r timeout] assms(5,10) r_def rule by auto
  let ?w = "finish_updates r (snd (fe_finish env) 2) h"
  define a where "a = complete_attempt r (snd (fe_finish env) 2)
     ((new_pending_attempt h (fr_Target rule) (snd (fe_create env) 2))\<lparr>da_ID := k\<rparr>)"
  have att: "da_WebhookID a = wh_ID h" "da_Source a = wh_Source h" "da_Target a = fr_Target rule"
      "da_StartedAt a = snd (fe_create env) 2" "da_CompletedAt a = Some (snd (fe_finish env) 2)"
      "da_Status a = res_Status r" "da_ErrorMessage a = res_ErrorMessage r" "da_DurationMS a = res_DurationMS r"
      "da_ResponseBody a = dr_Body (res_Response r)"
    by (simp_all add: a_def complete_attempt_def new_pending_attempt_def empty_attempt_def)
  have answer: "\<lparr>dr_HTTPStatus = da_HTTPStatus a, dr_Body = dr_Body (res_Response r),
      dr_Headers = da_ResponseHeaders a, dr_Captured = da_ResponseCaptured a,
      dr_Truncated = da_ResponseTruncated a\<rparr> = (if fr_Target rule = [] then empty_response else response)"
    unfolding recorded_outcome(2) [OF assms(9), of ctx, folded r_def, symmetric]
    by (simp add: a_def complete_attempt_def)
  show ?thesis
    by (rule conjI [OF f(1) conjI [OF f(3)]], rule exI [of _ ?w], rule exI [of _ a], unfold att,
        intro conjI, fact f(2), fact f(4) [folded a_def])
       (rule refl answer recorded_outcome [OF assms(9), of ctx, folded r_def])+
qed

text \<open>
  C17: the outcome of a delivery. When the database works, nothing else touches the webhook and
  the result is recorded before the lease ends, \<open>Forward\<close> returns the context's error alone. It
  leaves one new attempt, for the webhook's id, source and the rule's target, closed with the
  times, the duration and the target's response as it was read (none when there is no target),
  and the webhook without a lease. Attempt and webhook agree on what happened: cancelled, with
  the webhook back in the queue, if the worker was stopped; skipped without a target; delivered
  on success; else failed with the error message, one failure more, and the webhook waiting for
  its next retry while it has attempts left and dead-lettered with that message otherwise. No
  other webhook and no earlier attempt changes.
\<close>

theorem forward_outcome:
  assumes "db_inv d" and "find_webhook (wh_ID h) d = Some h" "wh_Status h = st_processing"
      "wh_DeliveryLeaseUntil h = Some lease"
    and "\<forall>a \<in> set (t_attempts d). da_WebhookID a = wh_ID h \<longrightarrow> da_Status a \<noteq> st_pending"
    and "undisturbed env lease"
    and "ctx_err (WithDeadline ctx (lease - DeliveryFinalizationReserve)) (fe_prepared env) = None"
    and "rule = (case find_rule (wh_Source h) d of None \<Rightarrow> empty_rule | Some r \<Rightarrow> r)"
    and "performDeliveryAttempt (WithDeadline ctx (lease - DeliveryFinalizationReserve)) (fe_http env) rule h
           (if timeout \<le> 0 then DefaultDeliveryTimeout else timeout) = (response, message, ok)"
    and "Forward ctx env h timeout d = (err, d')"
  shows "err = ctx_err ctx (fe_returned env) \<and>
    (\<forall>k. k \<noteq> wh_ID h \<longrightarrow> find_webhook k d' = find_webhook k d) \<and>
    (\<exists>w a. find_webhook (wh_ID h) d' = Some w \<and> t_attempts d' = t_attempts d @ [a] \<and>
       da_WebhookID a = wh_ID h \<and> da_Source a = wh_Source h \<and> da_Target a = fr_Target rule \<and>
       da_StartedAt a = snd (fe_create env) 2 \<and> da_CompletedAt a = Some (snd (fe_finish env) 2) \<and>
       da_DurationMS a = (fe_ended env - fe_started env) div millisecond \<and>
       \<lparr>dr_HTTPStatus = da_HTTPStatus a, dr_Body = da_ResponseBody a, dr_Headers = da_ResponseHeaders a,
        dr_Captured = da_ResponseCaptured a, dr_Truncated = da_ResponseTruncated a\<rparr> =
         (if fr_Target rule = [] then empty_response else response) \<and>
       wh_DeliveryLeaseUntil w = None \<and>
       wh_Response w = (if da_Status a = st_skipped then wh_Response h else da_ResponseBody a) \<and>
       (case ctx_err ctx (fe_ctx_check env) of
          Some e \<Rightarrow> da_Status a = st_cancelled \<and> da_ErrorMessage a = error_text e \<and>
            phase (Some w) = Queued \<and> wh_FailureCount w = wh_FailureCount h
        | None \<Rightarrow>
            if fr_Target rule = [] then
              da_Status a = st_skipped \<and> da_ErrorMessage a = ''no forwarding target configured'' \<and>
              phase (Some w) = PassedOver \<and> wh_FailureCount w = 0
            else if ok then
              da_Status a = st_success \<and> da_ErrorMessage a = message \<and>
              phase (Some w) = Delivered \<and> wh_FailureCount w = 0
            else
              da_Status a = st_failed \<and> da_ErrorMessage a = message \<and> wh_LastError w = message \<and>
              wh_FailureCount w = wh_FailureCount h + 1 \<and>
              (if wh_FailureCount h + 1 < normalizeMaxAttempts (fr_RetryMaxAttempts rule)
               then phase (Some w) = Waiting (fe_retry_from env +
                      retryDelay (normalizeBackoffSeconds (fr_RetryBackoffSeconds rule)) (wh_FailureCount h + 1))
               else wh_Status w = st_dead_lettered \<and> wh_DeadLetterReason w = message \<and>
                    wh_DeadLetteredAt w = Some (snd (fe_finish env) 2))))"
  using assms by (rule forward_outcome_facts)

definition demo_long :: webhook where
  "demo_long = claim_copy (100 * second) demo_webhook"

definition demo_routed :: db where
  "demo_routed = demo_db\<lparr>t_webhooks := [demo_long], t_rules := [demo_target\<lparr>fr_ID := 1\<rparr>], seq_rules := 1\<rparr>"

lemma demo_routed_inv: "db_inv demo_routed"
  by (simp add: demo_routed_def demo_long_def demo_target_def empty_rule_def demo_defs db_inv_def delivery_inv_def
      rules_inv_def users_inv_def keys_ok_def webhook_ok_def webhook_statuses_def one_pending_def claim_copy_def)

lemma demo_long_fields:
  "wh_ID demo_long = 1" "wh_Status demo_long = st_processing" "wh_DeliveryLeaseUntil demo_long = Some (100 * second)"
  by (simp_all add: demo_long_def demo_webhook_def empty_webhook_def)

lemma demo_delivery:
  "find_webhook (wh_ID demo_long) demo_routed = Some demo_long"
  "\<forall>a \<in> set (t_attempts demo_routed). da_WebhookID a = wh_ID demo_long \<longrightarrow> da_Status a \<noteq> st_pending"
  "undisturbed demo_forward (100 * second)"
  "ctx_err (WithDeadline background (100 * second - DeliveryFinalizationReserve)) (fe_prepared demo_forward) = None"
  "demo_target\<lparr>fr_ID := 1\<rparr> = (case find_rule (wh_Source demo_long) demo_routed of None \<Rightarrow> empty_rule | Some r \<Rightarrow> r)"
proof -
  show "find_webhook (wh_ID demo_long) demo_routed = Some demo_long"
    by (simp add: find_webhook_def demo_routed_def)
  show "\<forall>a \<in> set (t_attempts demo_routed). da_WebhookID a = wh_ID demo_long \<longrightarrow> da_Status a \<noteq> st_pending"
    by (simp add: demo_routed_def demo_db_def empty_db_def)
  show "undisturbed demo_forward (100 * second)"
    by (simp add: undisturbed_def demo_forward_def second_def)
  show "ctx_err (WithDeadline background (100 * second - DeliveryFinalizationReserve)) (fe_prepared demo_forward) = None"
    by (simp add: demo_forward_def second_def ctx_err_def WithDeadline_def background_def DeliveryFinalizationReserve_def)
  show "demo_target\<lparr>fr_ID := 1\<rparr> = (case find_rule (wh_Source demo_long) demo_routed of None \<Rightarrow> empty_rule | Some r \<Rightarrow> r)"
    by (simp add: find_rule_def demo_routed_def demo_long_def demo_target_def demo_defs empty_rule_def claim_copy_def)
qed

lemma demo_sent:
  "performDeliveryAttempt (WithDeadline background (100 * second - DeliveryFinalizationReserve)) (fe_http demo_forward)
     (demo_target\<lparr>fr_ID := 1\<rparr>) demo_long (if second \<le> 0 then DefaultDeliveryTimeout else second) = (demo_answer, [], True)"
  by (simp add: attempt_defs demo_exchange_def demo_target_def demo_answer_def read_response_def
      read_limited_def outgoing_content_type_def attempt_deadline_def demo_webhook_def empty_webhook_def demo_long_def
      demo_forward_def claim_copy_def DeliveryFinalizationReserve_def
      ctx_err_def WithDeadline_def background_def maxBody_def second_def Let_def)

theorem forward_outcome_witness:
  "\<exists>w a. find_webhook 1 (snd (Forward background demo_forward demo_long second demo_routed)) = Some w \<and>
     t_attempts (snd (Forward background demo_forward demo_long second demo_routed)) = [a] \<and>
     da_Status a = st_success \<and> phase (Some w) = Delivered"
proof -
  have "t_attempts demo_routed = []" "ctx_err background (fe_ctx_check demo_forward) = None"
      "fr_Target (demo_target\<lparr>fr_ID := 1\<rparr>) \<noteq> []"
    by (simp_all add: demo_routed_def demo_db_def empty_db_def ctx_err_def background_def demo_target_def)
  then show ?thesis
    using forward_outcome [OF demo_routed_inv demo_delivery(1) demo_long_fields(2,3) demo_delivery(2-5) demo_sent
        prod.collapse [symmetric]] demo_long_fields(1)
    by auto
qed

section \<open>The retry limit\<close>

text \<open>
  The history of a webhook that keeps failing. \<open>delivery_failures limit w n w'\<close>: the row of a webhook
  went from \<open>w\<close> to \<open>w'\<close> by any number of claims whose worker recorded nothing (it died, or was
  cut off by its lease) and by \<open>n\<close> deliveries, each of a claim, that failed and were recorded,
  under a rule with that limit. The databases in between are arbitrary, but for that row.
\<close>

inductive delivery_failures :: "int \<Rightarrow> webhook \<Rightarrow> nat \<Rightarrow> webhook \<Rightarrow> bool" for limit w where
  no_failure: "delivery_failures limit w 0 w"
| unrecorded: "delivery_failures limit w n v \<Longrightarrow> db_inv d \<Longrightarrow> find_webhook (wh_ID v) d = Some v \<Longrightarrow>
    ClaimDeliverableWebhooks locked f 1 now lease d = (Inr claims, d1) \<Longrightarrow> h \<in> set claims \<Longrightarrow> wh_ID h = wh_ID v \<Longrightarrow>
    delivery_failures limit w n h"
| recorded: "delivery_failures limit w n v \<Longrightarrow> db_inv d \<Longrightarrow> find_webhook (wh_ID v) d = Some v \<Longrightarrow>
    ClaimDeliverableWebhooks locked f 1 now lease d = (Inr claims, d1) \<Longrightarrow> h \<in> set claims \<Longrightarrow> wh_ID h = wh_ID v \<Longrightarrow>
    undisturbed env lease \<Longrightarrow>
    ctx_err (WithDeadline ctx (lease - DeliveryFinalizationReserve)) (fe_prepared env) = None \<Longrightarrow>
    ctx_err ctx (fe_ctx_check env) = None \<Longrightarrow>
    find_rule (wh_Source h) d1 = Some rule \<Longrightarrow> fr_Target rule \<noteq> [] \<Longrightarrow>
    normalizeMaxAttempts (fr_RetryMaxAttempts rule) = limit \<Longrightarrow>
    performDeliveryAttempt (WithDeadline ctx (lease - DeliveryFinalizationReserve)) (fe_http env) rule h
      (if timeout \<le> 0 then DefaultDeliveryTimeout else timeout) = (response, message, False) \<Longrightarrow>
    Forward ctx env h timeout d1 = (err, d2) \<Longrightarrow> find_webhook (wh_ID v) d2 = Some v' \<Longrightarrow>
    delivery_failures limit w (Suc n) v'"

lemma claimed_row:
  assumes "db_inv d" and "find_webhook (wh_ID v) d = Some v"
    and "ClaimDeliverableWebhooks locked f 1 now lease d = (Inr claims, d1)" "h \<in> set claims" "wh_ID h = wh_ID v"
  shows "h = claim_copy lease v" and "wh_Status v \<in> {st_pending, st_retrying, st_processing}"
    and "find_webhook (wh_ID h) d1 = Some h"
proof -
  note c = assms(1) zero_less_one assms(3)
  show "find_webhook (wh_ID h) d1 = Some h" by (rule claim_stored [OF c assms(4)])
  obtain w where w: "find_webhook (wh_ID h) d = Some w" "h = claim_copy lease w" "deliverable now w"
    using claim_from [OF c assms(4)] by blast
  have "w = v" using w(1) assms(2) unfolding assms(5) by simp
  then show "h = claim_copy lease v" "wh_Status v \<in> {st_pending, st_retrying, st_processing}"
    using w(2,3) unfolding deliverable_def by blast+
qed

lemma waiting_status: "phase (Some w) = Waiting t \<Longrightarrow> wh_Status w = st_retrying"
  by (simp add: phase_def split: if_splits option.splits)


definition demo_refused :: forward_env where
  "demo_refused = demo_forward\<lparr>fe_http := demo_exchange\<lparr>http_do := (\<lambda>_. Inl ''connection refused'')\<rparr>\<rparr>"

definition demo_once :: forwarding_rule where
  "demo_once = demo_target\<lparr>fr_ID := 1, fr_RetryMaxAttempts := 1\<rparr>"

definition demo_queued :: db where
  "demo_queued = demo_db\<lparr>t_rules := [demo_once], seq_rules := 1\<rparr>"

lemmas demo_queued_defs = demo_queued_def demo_once_def demo_target_def empty_rule_def demo_defs

lemma demo_queued_inv: "db_inv demo_queued"
  by (simp add: demo_queued_defs db_inv_def delivery_inv_def rules_inv_def users_inv_def keys_ok_def webhook_ok_def
      webhook_statuses_def one_pending_def)

lemma demo_queued_claim:
  "ClaimDeliverableWebhooks free_rows no_faults 1 10 (100 * second) demo_queued =
     (Inr [demo_long], demo_queued\<lparr>t_webhooks := [demo_long]\<rparr>)"
  by (simp add: demo_queued_defs demo_long_def ClaimDeliverableWebhooks_def transaction_def claim_body_def
      claim_select_def claimable_def deliverable_def source_paused_def claim_update_def claim_copy_def
      update_webhooks_def update_rows_def)

lemma demo_refusal:
  "performDeliveryAttempt (WithDeadline background (100 * second - DeliveryFinalizationReserve)) (fe_http demo_refused)
     demo_once demo_long (if second \<le> 0 then DefaultDeliveryTimeout else second) =
     (empty_response, ''connection refused'', False)"
  by (simp add: attempt_defs demo_exchange_def outgoing_content_type_def attempt_deadline_def demo_webhook_def
      empty_webhook_def demo_long_def demo_refused_def demo_forward_def claim_copy_def exchange_once
      DeliveryFinalizationReserve_def ctx_err_def WithDeadline_def background_def second_def Let_def)

lemma demo_failure: "\<exists>w'. delivery_failures 1 demo_webhook 1 w'"
proof -
  let ?d1 = "demo_queued\<lparr>t_webhooks := [demo_long]\<rparr>"
  obtain err d2 where f: "Forward background demo_refused demo_long second ?d1 = (err, d2)" by (meson surj_pair)
  have env: "undisturbed demo_refused (100 * second)"
      "ctx_err (WithDeadline background (100 * second - DeliveryFinalizationReserve)) (fe_prepared demo_refused) = None"
      "ctx_err background (fe_ctx_check demo_refused) = None"
    using demo_delivery(3,4) by (simp_all add: undisturbed_def demo_refused_def ctx_err_def background_def)
  have rule: "find_rule (wh_Source demo_long) ?d1 = Some demo_once"
    by (simp add: find_rule_def demo_queued_defs demo_long_def claim_copy_def)
  have row: "find_webhook (wh_ID demo_webhook) demo_queued = Some demo_webhook"
    by (simp add: find_webhook_def demo_queued_defs)
  have id: "wh_ID demo_long = wh_ID demo_webhook" by (simp add: demo_long_def)
  have mem: "demo_long \<in> set [demo_long]" by simp
  note c = claimed_row [OF demo_queued_inv row demo_queued_claim mem id]
  have free: "\<forall>a \<in> set (t_attempts ?d1). da_WebhookID a = wh_ID demo_long \<longrightarrow> da_Status a \<noteq> st_pending"
    using claimed_has_no_pending [OF demo_queued_inv zero_less_one demo_queued_claim mem] by blast
  have "demo_once = (case find_rule (wh_Source demo_long) ?d1 of None \<Rightarrow> empty_rule | Some r \<Rightarrow> r)"
    using rule by simp
  note out = forward_outcome_facts [OF db_inv_Claim [OF demo_queued_inv demo_queued_claim] c(3) demo_long_fields(2,3)
      free env(1,2) this demo_refusal f]
  then obtain w' where w': "find_webhook (wh_ID demo_webhook) d2 = Some w'" unfolding id by blast
  have target: "fr_Target demo_once \<noteq> []" "normalizeMaxAttempts (fr_RetryMaxAttempts demo_once) = 1"
    by (simp_all add: demo_once_def demo_target_def normalizeMaxAttempts_def)
  have "delivery_failures 1 demo_webhook (Suc 0) w'"
    by (rule recorded [OF no_failure demo_queued_inv row demo_queued_claim mem id env rule target demo_refusal f w'])
  then show ?thesis by auto
qed


end
