(* ===== verification/Hooks.thy ===== *)
theory Hooks
  imports Workers Web
begin

text \<open>
  \<open>ReceiveWebhook\<close> of \<open>internal/handler/webhook.go\<close>: the public endpoint. The body arrives as the
  bytes the connection delivers and the error that ends them, if any; \<open>MaxBytesReader\<close> fails once
  more than the limit has been read. \<open>hook_env\<close> is what the call meets: the clock, and how the
  database behaves in the lookup of the rule and in the insert.

  The properties say when a webhook is accepted, that accepting means storing it as it came,
  that a source with a secret accepts only what verifies, and that a stored webhook enters the
  system as its lifecycle starts.
\<close>

definition alnum :: "char \<Rightarrow> bool" where
  "alnum c \<longleftrightarrow> (let b = byte c in 48 \<le> b \<and> b \<le> 57 \<or> 65 \<le> b \<and> b \<le> 90 \<or> 97 \<le> b \<and> b \<le> 122)"

text \<open>The pattern \<open>^[A-Za-z0-9][A-Za-z0-9._-]{0,63}$\<close>.\<close>

definition validSource :: "string \<Rightarrow> bool" where
  "validSource source =
     (case source of
        [] \<Rightarrow> False
      | c # cs \<Rightarrow> alnum c \<and> length cs \<le> 63 \<and>
          list_all (\<lambda>x. alnum x \<or> x = CHR ''.'' \<or> x = CHR ''_'' \<or> x = CHR ''-'') cs)"

definition TrimPrefix :: "string \<Rightarrow> string \<Rightarrow> string" where
  "TrimPrefix s p = (if starts_with p s then drop (length p) s else s)"

record hook_body =
  hb_bytes :: bytes
  hb_error :: "string option"

datatype body_read = TooLarge | ReadFailed string | Payload bytes

definition read_body :: "int \<Rightarrow> hook_body \<Rightarrow> body_read" where
  "read_body maxBodyBytes b =
     (if int (length (hb_bytes b)) > maxBodyBytes then TooLarge
      else (case hb_error b of Some e \<Rightarrow> ReadFailed e | None \<Rightarrow> Payload (hb_bytes b)))"

record hook_env =
  hk_now :: time
  hk_rule_fails :: bool
  hk_save :: faults

text \<open>The check of a rule with a secret; \<open>None\<close> is the nil error.\<close>

definition verify_incoming :: "forwarding_rule \<Rightarrow> header \<Rightarrow> bytes \<Rightarrow> time \<Rightarrow> sig_error option" where
  "verify_incoming rule h payload now =
     (let headerName = (if fr_VerifyHeader rule = [] then DefaultIncomingHeader else fr_VerifyHeader rule);
          signatureHeader = Header_Get h headerName;
          tolerance = wrap64 (fr_ToleranceSeconds rule * second)
      in VerifyHeader (fr_VerifySecret rule) signatureHeader payload now tolerance)"

definition received_webhook :: "string \<Rightarrow> header \<Rightarrow> bytes \<Rightarrow> time \<Rightarrow> webhook" where
  "received_webhook source h payload now = empty_webhook\<lparr>
     wh_Source := source, wh_Headers := marshal_header h, wh_Payload := payload,
     wh_ReceivedAt := now, wh_Status := st_pending\<rparr>"

definition store_webhook :: "hook_env \<Rightarrow> string \<Rightarrow> header \<Rightarrow> bytes \<Rightarrow> time \<Rightarrow> db \<Rightarrow> reply \<times> db" where
  "store_webhook env source h payload now d =
     (case Save (hk_save env) (received_webhook source h payload now) d of
        (Inl e, d') \<Rightarrow> (http_Error ''Failed to persist webhook'' 503, d')
      | (Inr w, d') \<Rightarrow> (\<lparr>rp_status = 202, rp_header = [], rp_cookies = [], rp_body = ''Received''\<rparr>, d'))"

definition ReceiveWebhook ::
    "int \<Rightarrow> hook_env \<Rightarrow> request \<Rightarrow> hook_body \<Rightarrow> db \<Rightarrow> reply \<times> db" where
  "ReceiveWebhook maxBodyBytes env r body d =
     (let source = TrimPrefix (rq_path r) ''/hook/''
      in if \<not> validSource source then (http_Error ''Invalid webhook source'' 400, d)
         else
           (case read_body maxBodyBytes body of
              TooLarge \<Rightarrow> (http_Error ''Webhook payload too large'' 413, d)
            | ReadFailed e \<Rightarrow> (http_Error ''Failed to read request body'' 400, d)
            | Payload payload \<Rightarrow>
                (let now = hk_now env; rule = GetForwardingRule (hk_rule_fails env) source d
                 in case rule of
                      Inl e \<Rightarrow>
                        if e \<noteq> ErrNotFound then (http_Error ''Database unavailable'' 503, d)
                        else store_webhook env source (rq_header r) payload now d
                    | Inr rule \<Rightarrow>
                        if fr_VerifySecret rule \<noteq> [] \<and> verify_incoming rule (rq_header r) payload now \<noteq> None
                        then (http_Error ''Invalid signature'' 401, d)
                        else store_webhook env source (rq_header r) payload now d)))"

section \<open>What accepting means\<close>

lemma received_webhook_ok:
  "webhook_ok (received_webhook source h payload now)" "wh_ID (received_webhook source h payload now) = 0"
  "wh_Status (received_webhook source h payload now) = st_pending"
  by (simp_all add: received_webhook_def empty_webhook_def webhook_ok_def webhook_statuses_def)

lemma Save_Inr:
  assumes "db_inv d" and "webhook_ok h" "wh_ID h = 0" and "Save f h d = (Inr w, d')"
  shows "w = h\<lparr>wh_ID := seq_webhooks d + 1\<rparr>"
    and "d' = d\<lparr>t_webhooks := t_webhooks d @ [w], seq_webhooks := seq_webhooks d + 1\<rparr>"
    and "find_webhook (wh_ID w) d = None" and "find_webhook (wh_ID w) d' = Some w"
proof -
  have ins: "insert_webhook h d = Inr (w, d')"
    using assms(4) by (simp add: Save_def transaction_ok split: if_splits)
  note i = delivery_inv_insert_webhook [OF db_invD(1) [OF assms(1)] assms(2,3) ins]
  show "w = h\<lparr>wh_ID := seq_webhooks d + 1\<rparr>"
    "d' = d\<lparr>t_webhooks := t_webhooks d @ [w], seq_webhooks := seq_webhooks d + 1\<rparr>"
    by (rule i(2), rule i(3))
  have "wh_ID v < wh_ID w" if "v \<in> set (t_webhooks d)" for v
    using that delivery_invD(1) [OF db_invD(1) [OF assms(1)]] i(2) by (auto simp: keys_ok_def)
  then show none: "find_webhook (wh_ID w) d = None" by (force simp: find_webhook_def find_None_iff)
  then show "find_webhook (wh_ID w) d' = Some w" by (simp add: find_webhook_def i(3) find_snoc)
qed

lemma store_webhook_accepted:
  assumes "db_inv d" and "store_webhook env source h payload now d = (rp, d')" and "rp_status rp = 202"
  shows "\<exists>w. wh_Payload w = payload \<and> t_webhooks d' = t_webhooks d @ [w]"
proof -
  obtain res e where s: "Save (hk_save env) (received_webhook source h payload now) d = (res, e)"
    by (meson surj_pair)
  then obtain w where w: "res = Inr w" "d' = e" using assms(2,3)
    by (cases res) (auto simp: store_webhook_def)
  show ?thesis using Save_Inr(1,2) [OF assms(1) received_webhook_ok(1,2) s [unfolded w(1)]] w(2)
    by (auto simp: received_webhook_def empty_webhook_def)
qed

lemma Receive_cases:
  assumes "ReceiveWebhook maxBodyBytes env r body d = (rp, d')"
  obtains (rejected) "d' = d" "rp_status rp \<in> {400, 401, 413, 503}"
  | (stored) source payload where "source = TrimPrefix (rq_path r) ''/hook/''" "validSource source"
      "read_body maxBodyBytes body = Payload payload" "\<not> hk_rule_fails env"
      "case GetForwardingRule False source d of Inl e \<Rightarrow> e = ErrNotFound
       | Inr rule \<Rightarrow> fr_VerifySecret rule = [] \<or> verify_incoming rule (rq_header r) payload (hk_now env) = None"
      "store_webhook env source (rq_header r) payload (hk_now env) d = (rp, d')"
proof -
  let ?s = "TrimPrefix (rq_path r) ''/hook/''"
  consider "\<not> validSource ?s" | "validSource ?s" "\<nexists>p. read_body maxBodyBytes body = Payload p"
    | p where "validSource ?s" "read_body maxBodyBytes body = Payload p" by blast
  then show thesis
  proof cases
    case 1
    then show ?thesis using assms rejected by (auto simp: ReceiveWebhook_def)
  next
    case 2
    then show ?thesis using assms rejected
      by (cases "read_body maxBodyBytes body") (auto simp: ReceiveWebhook_def Let_def)
  next
    case 3
    show ?thesis
    proof (cases "hk_rule_fails env")
      case True
      then show ?thesis using assms 3 rejected by (auto simp: ReceiveWebhook_def GetForwardingRule_def Let_def)
    next
      case ok: False
      show ?thesis
      proof (cases "GetForwardingRule False ?s d")
        case (Inl e)
        then have "e = ErrNotFound" by (auto simp: GetForwardingRule_def split: option.splits)
        then show ?thesis using assms 3 ok Inl stored [of ?s p] by (simp add: ReceiveWebhook_def Let_def)
      next
        case (Inr rule)
        show ?thesis
        proof (cases "fr_VerifySecret rule \<noteq> [] \<and> verify_incoming rule (rq_header r) p (hk_now env) \<noteq> None")
          case True
          then show ?thesis using assms 3 ok Inr rejected by (auto simp: ReceiveWebhook_def Let_def)
        next
          case False
          then show ?thesis using assms 3 ok Inr stored [of ?s p]
            by (simp add: ReceiveWebhook_def Let_def split: if_splits)
        qed
      qed
    qed
  qed
qed

section \<open>Concrete inputs\<close>

definition demo_hook_env :: hook_env where
  "demo_hook_env = \<lparr>hk_now = 1700000000 * second, hk_rule_fails = False, hk_save = no_faults\<rparr>"

definition demo_hook_body :: hook_body where
  "demo_hook_body = \<lparr>hb_bytes = ''{}'', hb_error = None\<rparr>"

definition demo_hook :: request where
  "demo_hook = no_request\<lparr>rq_method := ''POST'', rq_path := ''/hook/stripe'',
     rq_header := [(DefaultIncomingHeader, [SignHeader ''k'' ''{}'' (1700000000 * second)])]\<rparr>"

definition demo_secret_rule :: forwarding_rule where
  "demo_secret_rule = empty_rule\<lparr>fr_ID := 1, fr_Source := ''stripe'', fr_VerifySecret := ''k'',
     fr_ToleranceSeconds := 300\<rparr>"

definition demo_secret_db :: db where
  "demo_secret_db = empty_db\<lparr>t_rules := [demo_secret_rule], seq_rules := 1\<rparr>"

lemmas demo_hook_defs = no_request_def demo_hook_env_def demo_hook_body_def demo_hook_def demo_secret_rule_def
  demo_secret_db_def empty_rule_def empty_db_def

lemma demo_hook_source:
  "TrimPrefix (rq_path demo_hook) ''/hook/'' = ''stripe''" "validSource ''stripe''"
  by (simp_all add: TrimPrefix_def demo_hook_defs validSource_def alnum_def byte_def Let_def)

lemma demo_secret_inv: "db_inv demo_secret_db"
  by (rule db_inv_rules_part [OF db_inv_empty])
    (simp_all add: demo_hook_defs rules_inv_def keys_ok_def)

lemma demo_header: "Header_Get (rq_header demo_hook) DefaultIncomingHeader = SignHeader ''k'' ''{}'' (1700000000 * second)"
proof -
  have "CanonicalHeaderKey DefaultIncomingHeader = DefaultIncomingHeader" by code_simp
  then show ?thesis by (simp add: Header_Get_def get_value_def demo_hook_defs)
qed

lemma demo_verified: "verify_incoming demo_secret_rule (rq_header demo_hook) ''{}'' (1700000000 * second) = None"
proof -
  have "Unix (1700000000 * second) = 1700000000" by (simp add: Unix_def second_def)
  then have "VerifyHeader ''k'' (SignHeader ''k'' ''{}'' (1700000000 * second)) ''{}'' (1700000000 * second) (300 * second) = None"
    by (intro VerifyHeader_SignHeader) (simp_all add: int64_defs second_def)
  moreover have "wrap64 (300 * second) = 300 * second" by (simp add: wrap64_id int64_defs second_def)
  ultimately show ?thesis
    using demo_header by (simp add: verify_incoming_def demo_secret_rule_def empty_rule_def Let_def)
qed

lemma demo_accepted:
  "rp_status (fst (ReceiveWebhook 100 demo_hook_env demo_hook demo_hook_body demo_secret_db)) = 202"
proof -
  have "GetForwardingRule False ''stripe'' demo_secret_db = Inr demo_secret_rule"
    by (simp add: GetForwardingRule_def demo_hook_defs)
  moreover have "read_body 100 demo_hook_body = Payload ''{}''" by (simp add: read_body_def demo_hook_body_def)
  ultimately show ?thesis
    using demo_hook_source demo_verified
    by (simp add: ReceiveWebhook_def demo_hook_env_def Let_def store_webhook_def Save_def transaction_def
        insert_webhook_def insert_row_def received_webhook_def demo_secret_db_def empty_db_def empty_webhook_def)
qed

section \<open>Properties\<close>

text \<open>
  C14: accepted means stored, and only accepted means stored. A reply of 202 is given exactly
  when one new row was committed: pending, with the body byte for byte, the request's headers
  and source, received now; no other row changes. Any other reply leaves the database as it
  was, unless the reply of a commit was lost on the way to the program.
\<close>

theorem hook_stores_what_it_accepts:
  assumes "db_inv d" and "ReceiveWebhook maxBodyBytes env r body d = (rp, d')"
    and "commit (hk_save env) \<noteq> ReplyLost"
  shows "if rp_status rp = 202
    then (\<exists>w. find_webhook (wh_ID w) d = None \<and> find_webhook (wh_ID w) d' = Some w \<and>
        t_webhooks d' = t_webhooks d @ [w] \<and> t_attempts d' = t_attempts d \<and> t_rules d' = t_rules d \<and>
        wh_Status w = st_pending \<and> wh_Payload w = hb_bytes body \<and> hb_error body = None \<and>
        int (length (wh_Payload w)) \<le> maxBodyBytes \<and>
        wh_Headers w = marshal_header (rq_header r) \<and> wh_ReceivedAt w = hk_now env \<and>
        wh_Source w = TrimPrefix (rq_path r) ''/hook/'' \<and> validSource (wh_Source w))
    else d' = d"
  using assms(2)
proof (cases rule: Receive_cases)
  case rejected
  then show ?thesis by auto
next
  case (stored source payload)
  let ?h = "received_webhook source (rq_header r) payload (hk_now env)"
  have body: "hb_bytes body = payload" "hb_error body = None" "int (length payload) \<le> maxBodyBytes"
    using stored(3) by (auto simp: read_body_def split: if_splits option.splits)
  obtain res e where s: "Save (hk_save env) ?h d = (res, e)" by (meson surj_pair)
  show ?thesis
  proof (cases res)
    case (Inl x)
    then have "rp_status rp = 503" "d' = e" using stored(6) s by (auto simp: store_webhook_def)
    moreover have "e = d" using s Inl assms(3) transaction_error unfolding Save_def by blast
    ultimately show ?thesis by simp
  next
    case (Inr w)
    note saved = Save_Inr [OF assms(1) received_webhook_ok(1,2) s [unfolded Inr]]
    have e: "d' = e" "rp_status rp = 202" using stored(6) s Inr by (auto simp: store_webhook_def)
    have "wh_Status w = st_pending" "wh_Payload w = payload" "wh_Headers w = marshal_header (rq_header r)"
      "wh_ReceivedAt w = hk_now env" "wh_Source w = source"
      by (simp_all add: saved(1) received_webhook_def empty_webhook_def)
    moreover have "t_webhooks e = t_webhooks d @ [w]" "t_attempts e = t_attempts d" "t_rules e = t_rules d"
      by (simp_all add: saved(2))
    ultimately show ?thesis using saved(3,4) stored(1,2) body e by auto
  qed
qed

theorem hook_stores_what_it_accepts_witness:
  "\<exists>w. find_webhook (wh_ID w) (snd (ReceiveWebhook 100 demo_hook_env demo_hook demo_hook_body demo_secret_db)) = Some w \<and>
     wh_Payload w = ''{}'' \<and> wh_Source w = ''stripe''"
  using hook_stores_what_it_accepts [OF demo_secret_inv prod.collapse [symmetric], of demo_hook_env 100 demo_hook demo_hook_body]
    demo_accepted
  by (auto simp: demo_hook_source) (auto simp: demo_hook_env_def demo_hook_body_def)

text \<open>
  C15: a source with a verification secret accepts only authentic webhooks. A 202 for it proves
  that the signature header the rule names (\<open>Stripe-Signature\<close> when it names none) has a
  well-formed timestamp and a \<open>v1\<close> value that is the hexadecimal HMAC-SHA256, under the rule's
  secret, of timestamp, dot and the very body of the one row that is appended. With a positive
  tolerance up to 9223372036 seconds and a timestamp within 9223372036 seconds (292 years) of
  the clock, the timestamp is at most the tolerance away from the clock, before or after it. A
  timestamp beyond those 292 years can pass the tolerance check, because its 64-bit age
  overflows.
\<close>

theorem hook_accepts_only_signed:
  assumes "db_inv d" and "ReceiveWebhook maxBodyBytes env r body d = (rp, d')" and "rp_status rp = 202"
    and "find_rule (TrimPrefix (rq_path r) ''/hook/'') d = Some rule" and "fr_VerifySecret rule \<noteq> []"
    and "header = Header_Get (rq_header r)
           (if fr_VerifyHeader rule = [] then ''Stripe-Signature'' else fr_VerifyHeader rule)"
  shows "\<exists>timestamp v1 w.
      header_values ''t'' header \<noteq> [] \<and>
      ParseInt (last (header_values ''t'' header)) = Some timestamp \<and>
      v1 \<in> set (header_values ''v1'' header) \<and>
      hex_decode v1 = Some (hmac_sha256 (fr_VerifySecret rule) (FormatInt timestamp @ ''.'' @ wh_Payload w)) \<and>
      wh_Payload w = hb_bytes body \<and> t_webhooks d' = t_webhooks d @ [w] \<and>
      (0 < fr_ToleranceSeconds rule \<and> fr_ToleranceSeconds rule \<le> 9223372036 \<and>
       \<bar>Unix (hk_now env) - timestamp\<bar> \<le> 9223372036 \<longrightarrow>
         \<bar>Unix (hk_now env) - timestamp\<bar> \<le> fr_ToleranceSeconds rule)"
  using assms(2)
proof (cases rule: Receive_cases)
  case rejected
  then show ?thesis using assms(3) by auto
next
  case (stored source payload)
  have body: "hb_bytes body = payload" using stored(3) by (auto simp: read_body_def split: if_splits option.splits)
  obtain w where w: "wh_Payload w = payload" "t_webhooks d' = t_webhooks d @ [w]"
    using store_webhook_accepted [OF assms(1) stored(6) assms(3)] by blast
  have "GetForwardingRule False source d = Inr rule"
    using GetForwardingRule_find [OF db_invD(2) [OF assms(1)]] assms(4) stored(1) by simp
  then have "verify_incoming rule (rq_header r) payload (hk_now env) = None" using stored(5) assms(5) by simp
  then have verified: "VerifyHeader (fr_VerifySecret rule) header payload (hk_now env)
      (wrap64 (fr_ToleranceSeconds rule * second)) = None"
    by (simp add: verify_incoming_def assms(6) DefaultIncomingHeader_def split: if_splits)
  then obtain timestamp v1 where sig: "header_values ''t'' header \<noteq> []"
      "ParseInt (last (header_values ''t'' header)) = Some timestamp"
      "v1 \<in> set (header_values ''v1'' header)"
      "hex_decode v1 = Some (hmac_sha256 (fr_VerifySecret rule) (FormatInt timestamp @ ''.'' @ payload))"
    using VerifyHeader_accepts by blast
  have within: "\<bar>Unix (hk_now env) - timestamp\<bar> \<le> fr_ToleranceSeconds rule"
    if "0 < fr_ToleranceSeconds rule" "fr_ToleranceSeconds rule \<le> 9223372036"
      "\<bar>Unix (hk_now env) - timestamp\<bar> \<le> 9223372036"
  proof -
    have "wrap64 (fr_ToleranceSeconds rule * second) = fr_ToleranceSeconds rule * second"
      using that by (intro wrap64_id) (simp add: int64_defs second_def)
    then show ?thesis
      using VerifyHeader_within [OF verified sig(2) that(3)] that(1) by (simp add: second_def)
  qed
  show ?thesis
    by (rule exI [of _ timestamp], rule exI [of _ v1], rule exI [of _ w]) (use sig w body within in simp)
qed

theorem hook_accepts_only_signed_witness:
  "\<exists>timestamp v1. ParseInt (last (header_values ''t'' (Header_Get (rq_header demo_hook) ''Stripe-Signature''))) = Some timestamp \<and>
     hex_decode v1 = Some (hmac_sha256 ''k'' (FormatInt timestamp @ ''.'' @ ''{}''))"
proof -
  have "find_rule ''stripe'' demo_secret_db = Some demo_secret_rule"
    by (simp add: find_rule_def demo_hook_defs)
  then have "find_rule (TrimPrefix (rq_path demo_hook) ''/hook/'') demo_secret_db = Some demo_secret_rule"
    by (simp add: demo_hook_source)
  moreover have "fr_VerifySecret demo_secret_rule = ''k''" "fr_VerifyHeader demo_secret_rule = []"
    by (simp_all add: demo_secret_rule_def empty_rule_def)
  ultimately show ?thesis
    using hook_accepts_only_signed [OF demo_secret_inv prod.collapse [symmetric] demo_accepted, of demo_secret_rule]
    by (auto simp: demo_hook_body_def)
qed

end
