(* ===== verification/Mutations.thy ===== *)
theory Mutations
  imports Hooks
begin

text \<open>
  The handlers of \<open>internal/handler/webhook.go\<close> and \<open>forwarding.go\<close> that change what is stored
  without a form to parse: replaying and deleting a webhook, pausing and deleting a rule. Each
  takes the operations of its store as arguments, as the code takes them through an interface
  (\<open>webhookMutationStore\<close>, \<open>forwardingPauseStore\<close>), and works on a state of any type.

  The interfaces are locales: what their operations promise of the rows of the store. What a reply
  says of the store is proved from these laws alone, and the laws are discharged for the database.
\<close>

section \<open>Handlers\<close>

definition parseWebhookID :: "request \<Rightarrow> go_error + int" where
  "parseWebhookID r =
     (case Atoi (TrimSpace (get_value (rq_query r) ''id'')) of
        None \<Rightarrow> Inl (ErrText ''invalid webhook ID'')
      | Some k \<Rightarrow> if k \<le> 0 then Inl (ErrText ''invalid webhook ID'') else Inr k)"

definition writeWebhookMutationError :: "go_error \<Rightarrow> string \<Rightarrow> reply" where
  "writeWebhookMutationError e fallback =
     (if e = ErrNotFound then http_Error ''Not found'' 404
      else if e = ErrWebhookProcessing then http_Error ''Webhook delivery is in progress'' 409
      else http_Error fallback 503)"

definition htmx :: "request \<Rightarrow> bool" where
  "htmx r \<longleftrightarrow> Header_Get (rq_header r) ''HX-Request'' = ''true''"

definition ReplayWebhook :: "(int \<Rightarrow> 's \<Rightarrow> (go_error + unit) \<times> 's) \<Rightarrow> 's handler" where
  "ReplayWebhook reset r s =
     (case parseWebhookID r of
        Inl e \<Rightarrow> (http_Error ''Invalid ID'' 400, s)
      | Inr k \<Rightarrow>
          (case reset k s of
             (Inl e, s') \<Rightarrow> (writeWebhookMutationError e ''Failed to requeue webhook'', s')
           | (Inr _, s') \<Rightarrow>
               if htmx r then (with_header ''Content-Type'' ''text/html'' (http_OK ''<span>Queued for delivery</span>''), s')
               else (http_Redirect (redirectTarget r ''/dashboard'') 303, s')))"

definition DeleteWebhook_handler :: "(int \<Rightarrow> 's \<Rightarrow> (go_error + unit) \<times> 's) \<Rightarrow> 's handler" where
  "DeleteWebhook_handler delete r s =
     (case parseWebhookID r of
        Inl e \<Rightarrow> (http_Error ''Invalid ID'' 400, s)
      | Inr k \<Rightarrow>
          (case delete k s of
             (Inl e, s') \<Rightarrow> (writeWebhookMutationError e ''Failed to delete webhook'', s')
           | (Inr _, s') \<Rightarrow>
               if htmx r then (http_OK [], s')
               else (http_Redirect (redirectTarget r ''/dashboard'') 303, s')))"

definition SetForwardingPaused_handler ::
    "(string \<Rightarrow> bool \<Rightarrow> 's \<Rightarrow> (go_error + unit) \<times> 's) \<Rightarrow> bool \<Rightarrow> 's handler" where
  "SetForwardingPaused_handler set_paused paused r s =
     (if rq_form r = None then (http_Error ''Invalid form'' 400, s)
      else
        (let source = TrimSpace (PostFormValue r ''source'')
         in if \<not> validSource source then (http_Error ''Invalid webhook source'' 400, s)
            else
              (case set_paused source paused s of
                 (Inl e, s') \<Rightarrow>
                   (if e = ErrNotFound then http_Error ''Rule not found'' 404
                    else http_Error ''Failed to change forwarding state'' 503, s')
               | (Inr _, s') \<Rightarrow> (http_Redirect ''/forwarding'' 303, s'))))"

definition DeleteForwardingRule_handler :: "(string \<Rightarrow> 's \<Rightarrow> (go_error + unit) \<times> 's) \<Rightarrow> 's handler" where
  "DeleteForwardingRule_handler delete r s =
     (if rq_form r = None then (http_Error ''Invalid form'' 400, s)
      else
        (let source = FormValue r ''source''
         in if source = [] then (http_Redirect ''/forwarding'' 303, s)
            else
              (case delete source s of
                 (Inl e, s') \<Rightarrow> (http_Error ''Failed to delete forwarding rule'' 503, s')
               | (Inr _, s') \<Rightarrow> (http_Redirect ''/forwarding'' 303, s'))))"

section \<open>The interface of webhook mutations\<close>

text \<open>
  An operation on webhook \<open>k\<close> took effect; and what the status of a reply says of the store. \<open>row\<close>
  is what the store has under a key, \<open>effect\<close> what becomes of the webhook.
\<close>

definition applied ::
    "(int \<Rightarrow> 's \<Rightarrow> webhook option) \<Rightarrow> (webhook \<Rightarrow> webhook option) \<Rightarrow> int \<Rightarrow> 's \<Rightarrow> 's \<Rightarrow> bool" where
  "applied row effect k s s' \<longleftrightarrow>
     (\<exists>w. row k s = Some w \<and> wh_Status w \<noteq> st_processing \<and> row k s' = effect w) \<and>
     (\<forall>j. j \<noteq> k \<longrightarrow> row j s' = row j s)"

definition told ::
    "(int \<Rightarrow> 's \<Rightarrow> webhook option) \<Rightarrow> (webhook \<Rightarrow> webhook option) \<Rightarrow> int \<Rightarrow> int \<Rightarrow> 's \<Rightarrow> 's \<Rightarrow> bool" where
  "told row effect status k s s' \<longleftrightarrow>
     (status \<in> {200, 303} \<and> applied row effect k s s') \<or>
     (status = 404 \<and> s' = s \<and> row k s = None) \<or>
     (status = 409 \<and> s' = s \<and> (\<exists>w. row k s = Some w \<and> wh_Status w = st_processing)) \<or>
     (status = 503 \<and> (s' = s \<or> applied row effect k s s'))"

text \<open>
  \<open>mutate\<close> is an operation on one webhook. It refuses a webhook in delivery; an error it can name leaves the
  store alone; any other error may hide an operation that took effect.
\<close>

locale webhook_mutation =
  fixes mutate :: "int \<Rightarrow> 's \<Rightarrow> (go_error + unit) \<times> 's"
    and row :: "int \<Rightarrow> 's \<Rightarrow> webhook option"
    and effect :: "webhook \<Rightarrow> webhook option"
  assumes mutate_cases: "mutate k s = (res, s') \<Longrightarrow>
      (if res = Inl ErrNotFound then s' = s \<and> row k s = None
       else if res = Inl ErrWebhookProcessing then s' = s \<and> (\<exists>w. row k s = Some w \<and> wh_Status w = st_processing)
       else (res \<noteq> Inr () \<and> s' = s) \<or> applied row effect k s s')"
begin

lemma told_error:
  assumes "mutate k s = (Inl e, s')"
  shows "told row effect (rp_status (writeWebhookMutationError e fallback)) k s s'"
  using mutate_cases [OF assms] by (auto simp: told_def applied_def writeWebhookMutationError_def)

lemma told_done: "mutate k s = (Inr u, s') \<Longrightarrow> status \<in> {200, 303} \<Longrightarrow> told row effect status k s s'"
  using mutate_cases [of k s "Inr u" s'] by (auto simp: told_def applied_def)

lemma replay_told:
  assumes "ReplayWebhook mutate r s = (rp, s')"
  shows "case parseWebhookID r of Inl _ \<Rightarrow> rp_status rp = 400 \<and> s' = s | Inr k \<Rightarrow> told row effect (rp_status rp) k s s'"
  using assms by (auto simp: ReplayWebhook_def split: sum.splits prod.splits if_splits intro: told_error told_done)

lemma delete_told:
  assumes "DeleteWebhook_handler mutate r s = (rp, s')"
  shows "case parseWebhookID r of Inl _ \<Rightarrow> rp_status rp = 400 \<and> s' = s | Inr k \<Rightarrow> told row effect (rp_status rp) k s s'"
  using assms by (auto simp: DeleteWebhook_handler_def split: sum.splits prod.splits if_splits intro: told_error told_done)

end

lemma lockWebhook_Inl: "lockWebhook failed k d = Inl e \<Longrightarrow> e = ErrDatabase \<or> e = ErrNotFound \<and> find_webhook k d = None"
  by (auto simp: lockWebhook_def split: if_splits option.splits)

text \<open>The laws hold of every transaction that locks a webhook, refuses it in delivery, and changes that row only.\<close>

lemma locked_transaction:
  assumes step: "transaction f (\<lambda>d. case lockWebhook (fails f 0) k d of Inl e \<Rightarrow> Inl e
       | Inr w \<Rightarrow> if wh_Status w = st_processing then Inl ErrWebhookProcessing else act w d) d = (res, d')"
    and act: "\<And>w e. act w d = Inl e \<Longrightarrow> e = ErrDatabase"
      "\<And>w d'. act w d = Inr ((), d') \<Longrightarrow> wh_ID w = k \<Longrightarrow> find_webhook k d = Some w \<Longrightarrow>
         find_webhook k d' = effect w \<and> (\<forall>j. j \<noteq> k \<longrightarrow> find_webhook j d' = find_webhook j d)"
  shows "if res = Inl ErrNotFound then d' = d \<and> find_webhook k d = None
       else if res = Inl ErrWebhookProcessing then d' = d \<and> (\<exists>w. find_webhook k d = Some w \<and> wh_Status w = st_processing)
       else (res \<noteq> Inr () \<and> d' = d) \<or> applied find_webhook effect k d d'"
proof (cases "lockWebhook (fails f 0) k d")
  case (Inl e)
  then have "res = Inl e" "d' = d" using step by (simp_all add: transaction_def)
  then show ?thesis using lockWebhook_Inl [OF Inl] by auto
next
  case (Inr w)
  note w = lockWebhook_Inr [OF Inr]
  show ?thesis
  proof (cases "wh_Status w = st_processing")
    case True
    then have "res = Inl ErrWebhookProcessing" "d' = d" using step Inr by (simp_all add: transaction_def)
    then show ?thesis using w(3) True by simp
  next
    case False
    then show ?thesis using step Inr act(1) [of w] act(2) [of w d', OF _ w(2,3)] w(3)
      by (cases "act w d") (auto simp: applied_def transaction_def split: commit_outcome.splits)
  qed
qed

lemma Reset_cases:
  assumes "ResetWebhookDeliveryState f k d = (res, d')"
  shows "if res = Inl ErrNotFound then d' = d \<and> find_webhook k d = None
       else if res = Inl ErrWebhookProcessing then d' = d \<and> (\<exists>w. find_webhook k d = Some w \<and> wh_Status w = st_processing)
       else (res \<noteq> Inr () \<and> d' = d) \<or> applied find_webhook (\<lambda>w. Some (replayUpdates w)) k d d'"
  by (rule locked_transaction [OF assms [unfolded ResetWebhookDeliveryState_def]])
    (auto simp: find_webhook_def update_webhooks_def wh_table.find_update_key dest: find_webhook_Some split: option.splits)

lemma Delete_cases:
  assumes "DeleteWebhook f k d = (res, d')"
  shows "if res = Inl ErrNotFound then d' = d \<and> find_webhook k d = None
       else if res = Inl ErrWebhookProcessing then d' = d \<and> (\<exists>w. find_webhook k d = Some w \<and> wh_Status w = st_processing)
       else (res \<noteq> Inr () \<and> d' = d) \<or> applied find_webhook (\<lambda>w. None) k d d'"
  by (rule locked_transaction [OF assms [unfolded DeleteWebhook_def]])
    (auto simp: find_webhook_def wh_table.find_delete_key split: if_splits)

interpretation replays: webhook_mutation "ResetWebhookDeliveryState f" find_webhook "\<lambda>w. Some (replayUpdates w)" for f
  by unfold_locales (rule Reset_cases)

interpretation deletes: webhook_mutation "DeleteWebhook f" find_webhook "\<lambda>w. None" for f
  by unfold_locales (rule Delete_cases)

section \<open>Properties\<close>

text \<open>
  C32: a reply to a replay or a delete says what happened. 200 and 303 mean that exactly the
  webhook named was requeued or removed; 400 that the id is no positive number, 404 that there
  is no such webhook and 409 that it is in delivery, each without any change; after 503 the
  operation was done completely or not at all.
\<close>

theorem mutation_replies:
  assumes "ReplayWebhook (ResetWebhookDeliveryState f) r d = (rp, d')"
    and "DeleteWebhook_handler (DeleteWebhook f) r d = (rq, d'')"
  shows "case parseWebhookID r of
      Inl _ \<Rightarrow> rp_status rp = 400 \<and> d' = d \<and> rp_status rq = 400 \<and> d'' = d
    | Inr k \<Rightarrow> told find_webhook (\<lambda>w. Some (replayUpdates w)) (rp_status rp) k d d' \<and>
        told find_webhook (\<lambda>w. None) (rp_status rq) k d d''"
  using replays.replay_told [OF assms(1)] deletes.delete_told [OF assms(2)] by (simp split: sum.splits)

definition demo_mutation :: request where
  "demo_mutation = no_request\<lparr>rq_method := ''POST'', rq_query := [(''id'', ['' 1''])]\<rparr>"

lemma demo_mutation_id: "parseWebhookID demo_mutation = Inr 1"
proof -
  have "Atoi (TrimSpace '' 1'') = Some 1" by code_simp
  then show ?thesis by (simp add: parseWebhookID_def demo_mutation_def no_request_def get_value_def)
qed

theorem mutation_replies_witness:
  "told find_webhook (\<lambda>w. Some (replayUpdates w))
     (rp_status (fst (ReplayWebhook (ResetWebhookDeliveryState no_faults) demo_mutation demo_dlq))) 1
     demo_dlq (snd (ReplayWebhook (ResetWebhookDeliveryState no_faults) demo_mutation demo_dlq))"
  using mutation_replies [OF prod.collapse [symmetric] prod.collapse [symmetric], of no_faults demo_mutation demo_dlq]
  by (simp add: demo_mutation_id)

end
