(* ===== verification/Pages.thy ===== *)
theory Pages
  imports Urls Dates Searches Mutations
begin

text \<open>
  The pages of webhooks: the dashboard and its list (\<open>webhook_partial.go\<close>, \<open>dashboard.go\<close>), the
  dead letters (\<open>dlq.go\<close>) and the JSON list (\<open>ListWebhooks\<close> of \<open>webhook.go\<close>), all of
  \<open>internal/handler\<close>. Each reads its filter and page from the query, runs the search, and links to
  the neighbouring pages.

  A handler that renders is a function from the request to the data it renders, with the headers it
  sets; the searches it runs are its arguments, and \<open>zones\<close> is \<open>time.LoadLocation\<close>. Resolving a
  clock time may not end for a zone that is not \<open>location_ok\<close>, so results are options. The lemmas
  show that a link to another page is read back with the filter it was made from; theory Paging
  shows that the links lead through the whole result.
\<close>

section \<open>Filters and pages of a query\<close>

definition webhookPageSize :: int where "webhookPageSize = 10"

definition parse_page :: "int \<Rightarrow> string \<Rightarrow> int" where
  "parse_page n raw = (case Atoi raw of Some p \<Rightarrow> if p > 0 \<and> p \<le> max_int64 div n then p else 1 | None \<Rightarrow> 1)"

definition parsePage :: "string \<Rightarrow> int" where
  "parsePage raw = parse_page 20 raw"

definition query_text :: "request \<Rightarrow> string \<Rightarrow> string" where
  "query_text r name = TrimSpace (get_value (rq_query r) name)"

definition parseWebhookFilterAndPage ::
    "(string \<Rightarrow> location option) \<Rightarrow> request \<Rightarrow> (go_error + webhook_filter \<times> int) option" where
  "parseWebhookFilterAndPage zones r =
     (let page = parse_page webhookPageSize (get_value (rq_query r) ''page'')
      in map_option (map_sum id (\<lambda>(from, to).
           (\<lparr>wf_Source = query_text r ''source'', wf_Status = query_text r ''status'', wf_Query = query_text r ''q'',
             wf_From = from, wf_To = to, wf_Sort = query_text r ''sort''\<rparr>, page)))
         (webhookFilterDates zones (rq_query r)))"

definition list_names :: "string list" where
  "list_names = [''source'', ''status'', ''q'', ''from'', ''to'', ''sort'']"

definition webhookListQuery :: "values \<Rightarrow> int \<Rightarrow> string" where
  "webhookListQuery vs page =
     (let page = (if page < 1 then 1 else page);
          filtered = foldl (\<lambda>acc name. let v = TrimSpace (get_value vs name) in if v \<noteq> [] then set_value name v acc else acc) [] list_names
      in encode_query (set_value ''page'' (FormatInt page) filtered))"

definition buildWebhookListURL :: "values \<Rightarrow> int \<Rightarrow> string" where
  "buildWebhookListURL vs page = ''/partials/webhooks?'' @ webhookListQuery vs page"

definition buildDashboardURL :: "values \<Rightarrow> int \<Rightarrow> string" where
  "buildDashboardURL vs page = ''/dashboard?'' @ webhookListQuery vs page"

section \<open>The dashboard and its list\<close>

record webhook_page =
  wp_Webhooks :: "webhook list"
  wp_CurrentPage :: int
  wp_CurrentURL :: string
  wp_CurrentPageURL :: string
  wp_PrevPageURL :: string
  wp_NextPageURL :: string
  wp_PrevURL :: string
  wp_NextURL :: string
  wp_DisablePrev :: bool
  wp_DisableNext :: bool
  wp_Source :: string
  wp_Status :: string
  wp_Query :: string
  wp_From :: string
  wp_To :: string
  wp_FromInstant :: string
  wp_ToInstant :: string
  wp_Sort :: string
  wp_CSRFToken :: string

definition unavailable :: reply where "unavailable = http_Error ''Database unavailable'' 503"

text \<open>The headers set before the page: \<open>HX-Push-Url\<close>, when the request asks to update the history.\<close>

definition push_url :: "request \<Rightarrow> string \<Rightarrow> (string \<times> string) list" where
  "push_url r u = (if htmx r \<and> Header_Get (rq_header r) ''X-Update-History'' = ''true'' then [(''Hx-Push-Url'', u)] else [])"

definition WebhookPartial ::
    "(string \<Rightarrow> location option) \<Rightarrow> (webhook_filter \<Rightarrow> int \<Rightarrow> int \<Rightarrow> go_error + webhook list) \<Rightarrow>
     (webhook_filter \<Rightarrow> go_error + int) \<Rightarrow> request \<Rightarrow> ((string \<times> string) list \<times> webhook_page) rendered option" where
  "WebhookPartial zones summary counted r =
     map_option (\<lambda>parsed.
       case parsed of
         Inl e \<Rightarrow> Refused (http_Error (error_text e) 400)
       | Inr (f, page) \<Rightarrow>
           (case summary f webhookPageSize (wrap64 (wrap64 (page - 1) * webhookPageSize)) of
              Inl e \<Rightarrow> Refused unavailable
            | Inr hooks \<Rightarrow>
               (case counted f of
                  Inl e \<Rightarrow> Refused unavailable
                | Inr rows \<Rightarrow>
                    (let query = canonicalDateQuery (rq_query r) (wf_From f) (wf_To f);
                         data = \<lparr>wp_Webhooks = hooks, wp_CurrentPage = page,
                           wp_CurrentURL = buildWebhookListURL query page,
                           wp_CurrentPageURL = buildDashboardURL query page,
                           wp_PrevPageURL = buildDashboardURL query (wrap64 (page - 1)),
                           wp_NextPageURL = buildDashboardURL query (wrap64 (page + 1)),
                           wp_PrevURL = buildWebhookListURL query (wrap64 (page - 1)),
                           wp_NextURL = buildWebhookListURL query (wrap64 (page + 1)),
                           wp_DisablePrev = page \<le> 1,
                           wp_DisableNext = wrap64 (page * webhookPageSize) \<ge> rows,
                           wp_Source = wf_Source f, wp_Status = wf_Status f, wp_Query = wf_Query f,
                           wp_From = formatDateTimeInput (wf_From f), wp_To = formatDateTimeInput (wf_To f),
                           wp_FromInstant = dateTimeInstant (wf_From f), wp_ToInstant = dateTimeInstant (wf_To f),
                           wp_Sort = wf_Sort f, wp_CSRFToken = rq_csrf r\<rparr>
                     in Rendered (push_url r (wp_CurrentPageURL data), data)))))
       (parseWebhookFilterAndPage zones r)"

text \<open>The dashboard leaves the fields it does not set at their zero values.\<close>

definition DashboardUI :: "(string \<Rightarrow> location option) \<Rightarrow> request \<Rightarrow> webhook_page rendered option" where
  "DashboardUI zones r =
     map_option (\<lambda>parsed.
       case parsed of
         Inl e \<Rightarrow> Refused (http_Error (error_text e) 400)
       | Inr (f, page) \<Rightarrow> Rendered
           \<lparr>wp_Webhooks = [], wp_CurrentPage = 0,
            wp_CurrentURL = buildWebhookListURL (canonicalDateQuery (rq_query r) (wf_From f) (wf_To f)) page,
            wp_CurrentPageURL = [], wp_PrevPageURL = [], wp_NextPageURL = [], wp_PrevURL = [], wp_NextURL = [],
            wp_DisablePrev = False, wp_DisableNext = False,
            wp_Source = query_text r ''source'', wp_Status = query_text r ''status'', wp_Query = query_text r ''q'',
            wp_From = formatDateTimeInput (wf_From f), wp_To = formatDateTimeInput (wf_To f),
            wp_FromInstant = dateTimeInstant (wf_From f), wp_ToInstant = dateTimeInstant (wf_To f),
            wp_Sort = query_text r ''sort'', wp_CSRFToken = rq_csrf r\<rparr>)
       (parseWebhookFilterAndPage zones r)"

section \<open>The dead letters\<close>

record dlq_page =
  dq_Webhooks :: "webhook list"
  dq_Source :: string
  dq_CurrentPage :: int
  dq_CurrentURL :: string
  dq_PrevURL :: string
  dq_NextURL :: string
  dq_DisablePrev :: bool
  dq_DisableNext :: bool
  dq_CSRFToken :: string
  dq_BulkMessage :: string

definition copy_values :: "values \<Rightarrow> values" where
  "copy_values vs = foldl (\<lambda>acc (k, l). foldl (\<lambda>acc v. add_value k v acc) acc l) [] vs"

definition buildDLQPageURLWithFilters :: "values \<Rightarrow> int \<Rightarrow> string" where
  "buildDLQPageURLWithFilters vs page =
     ''/dlq?'' @ encode_query (set_value ''page'' (FormatInt page) (del_value ''skipped'' (del_value ''requeued'' (copy_values vs))))"

definition bulkReplayMessage :: "values \<Rightarrow> string" where
  "bulkReplayMessage vs =
     (case (Atoi (get_value vs ''requeued''), Atoi (get_value vs ''skipped'')) of
        (Some requeued, Some skipped) \<Rightarrow>
          if requeued < 0 \<or> skipped < 0 \<or> requeued > int MaxBulkReplay \<or> skipped > int MaxBulkReplay - requeued then []
          else ''Queued for delivery: '' @ FormatInt requeued @ ''. Skipped: '' @ FormatInt skipped @ '' (deleted or no longer in DLQ).''
      | _ \<Rightarrow> [])"

definition DLQUI ::
    "(string \<Rightarrow> location option) \<Rightarrow> (webhook_filter \<Rightarrow> int \<Rightarrow> int \<Rightarrow> go_error + webhook list) \<Rightarrow>
     (webhook_filter \<Rightarrow> go_error + int) \<Rightarrow> request \<Rightarrow> dlq_page rendered option" where
  "DLQUI zones summary counted r =
     map_option (\<lambda>dates.
       case dates of
         Inl e \<Rightarrow> Refused (http_Error (error_text e) 400)
       | Inr (from, to) \<Rightarrow>
           (let source = query_text r ''source'';
                f = \<lparr>wf_Source = source, wf_Status = st_dead_lettered, wf_Query = query_text r ''q'',
                     wf_From = from, wf_To = to, wf_Sort = []\<rparr>;
                page = parsePage (get_value (rq_query r) ''page''); pageSize = 20
            in case summary f pageSize (wrap64 (wrap64 (page - 1) * pageSize)) of
                 Inl e \<Rightarrow> Refused unavailable
               | Inr hooks \<Rightarrow>
                  (case counted f of
                     Inl e \<Rightarrow> Refused unavailable
                   | Inr rows \<Rightarrow>
                       (let filters = canonicalDateQuery (rq_query r) from to
                        in Rendered \<lparr>dq_Webhooks = hooks, dq_Source = source, dq_CurrentPage = page,
                             dq_CurrentURL = buildDLQPageURLWithFilters filters page,
                             dq_PrevURL = buildDLQPageURLWithFilters filters (wrap64 (page - 1)),
                             dq_NextURL = buildDLQPageURLWithFilters filters (wrap64 (page + 1)),
                             dq_DisablePrev = page \<le> 1, dq_DisableNext = wrap64 (page * pageSize) \<ge> rows,
                             dq_CSRFToken = rq_csrf r, dq_BulkMessage = bulkReplayMessage (rq_query r)\<rparr>))))
       (webhookFilterDates zones (rq_query r))"

section \<open>The JSON list\<close>

definition parseWebhookPagination :: "values \<Rightarrow> go_error + int \<times> int" where
  "parseWebhookPagination vs =
     (let rawLimit = get_value vs ''limit''; rawPage = get_value vs ''page'';
          limit = (if rawLimit = [] then Some 20
                   else (case Atoi rawLimit of Some n \<Rightarrow> if n < 1 \<or> n > 100 then None else Some n | None \<Rightarrow> None));
          page = (if rawPage = [] then Some 1
                  else (case Atoi rawPage of Some n \<Rightarrow> if n < 1 then None else Some n | None \<Rightarrow> None))
      in case limit of
           None \<Rightarrow> Inl (ErrText ''limit must be an integer from 1 to 100'')
         | Some l \<Rightarrow>
            (case page of
               None \<Rightarrow> Inl (ErrText ''page must be a positive integer'')
             | Some p \<Rightarrow>
                 if p > (max_int64 - 1) div l then Inl (ErrText ''page is too large'') else Inr (p, l)))"

definition next_link :: "string \<Rightarrow> string" where
  "next_link q = ''</api/webhooks?'' @ q @ ''>; rel='' @ [CHR 0x22] @ ''next'' @ [CHR 0x22]"

text \<open>The headers set, and the rows that are encoded.\<close>

definition ListWebhooks ::
    "(string \<Rightarrow> location option) \<Rightarrow> (webhook_filter \<Rightarrow> int \<Rightarrow> int \<Rightarrow> go_error + webhook list) \<Rightarrow> request \<Rightarrow>
     ((string \<times> string) list \<times> webhook list) rendered option" where
  "ListWebhooks zones search r =
     (case parseWebhookPagination (rq_query r) of
        Inl e \<Rightarrow> Some (Refused (http_Error (error_text e) 400))
      | Inr (page, limit) \<Rightarrow>
          map_option (\<lambda>parsed.
            case parsed of
              Inl e \<Rightarrow> Refused (http_Error (error_text e) 400)
            | Inr (f, _) \<Rightarrow>
               (case search f (wrap64 (limit + 1)) (wrap64 (wrap64 (page - 1) * limit)) of
                  Inl e \<Rightarrow> Refused unavailable
                | Inr hooks \<Rightarrow>
                    (let more = int (length hooks) > limit;
                         query = set_value ''limit'' (FormatInt limit) (set_value ''page'' (FormatInt (wrap64 (page + 1)))
                                   (canonicalDateQuery (rq_query r) (wf_From f) (wf_To f)));
                         link = next_link (encode_query query)
                     in Rendered ((''Content-Type'', ''application/json'') # (if more then [(''Link'', link)] else []),
                                  if more then take (nat limit) hooks else hooks))))
            (parseWebhookFilterAndPage zones r))"

section \<open>Reading a link back\<close>

text \<open>The instants a link can carry: the years a four-digit year can name.\<close>

definition in_years :: "time option \<Rightarrow> bool" where
  "in_years v \<longleftrightarrow> (case v of None \<Rightarrow> True | Some t \<Rightarrow> 0 \<le> cv_Year (civil t) \<and> cv_Year (civil t) < 10000)"

lemma in_years_None [simp]: "in_years None" by (simp add: in_years_def)

lemma format_solid:
  assumes "in_years (Some t)"
  shows "TrimSpace (format_RFC3339Nano t) = format_RFC3339Nano t" "format_RFC3339Nano t \<noteq> []"
proof -
  let ?y = "year_text (cv_Year (civil t))"
  have y: "list_all is_digit ?y" "?y \<noteq> []" using assms digits_val_year by (auto simp: in_years_def)
  then have "solid (hd ?y)" by (cases ?y) (auto simp: is_digit_solid)
  moreover have "hd (format_RFC3339Nano t) = hd ?y" using y(2) by (simp add: format_RFC3339Nano_def Let_def date_text_def)
  moreover have "last (format_RFC3339Nano t) = CHR ''Z''" by (simp add: format_RFC3339Nano_def Let_def)
  moreover have "solid (CHR ''Z'')" by (simp add: solid_def)
  ultimately show "TrimSpace (format_RFC3339Nano t) = format_RFC3339Nano t" by (intro TrimSpace_solid) simp
  show "format_RFC3339Nano t \<noteq> []" by (simp add: format_RFC3339Nano_def Let_def)
qed

lemma dateTimeInstant_trim: "in_years v \<Longrightarrow> TrimSpace (dateTimeInstant v) = dateTimeInstant v"
  by (cases v) (simp_all add: dateTimeInstant_def format_solid TrimSpace_solid)

lemma dateTimeInstant_nil: "in_years v \<Longrightarrow> dateTimeInstant v = [] \<longleftrightarrow> v = None"
  by (cases v) (simp_all add: dateTimeInstant_def format_solid)

lemma parse_dateTimeInstant:
  "in_years v \<Longrightarrow> parseWebhookDateTime (dateTimeInstant v) isTo loc = Some (Inr v)"
  using parse_format by (cases v)
    (auto simp: dateTimeInstant_def parseWebhookDateTime_def format_solid TrimSpace_solid Let_def in_years_def)

lemma dates_of_link:
  assumes "zones ''UTC'' = Some loc" "in_years from" "in_years to"
    and "get_value vs ''tz'' = []" "get_value vs ''from'' = dateTimeInstant from" "get_value vs ''to'' = dateTimeInstant to"
  shows "webhookFilterDates zones vs = Some (Inr (from, to))"
  using assms by (simp add: webhookFilterDates_def parse_dateTimeInstant TrimSpace_solid)

lemma get_set_date [simp]:
  "get_value (set_date k v vs) name = (if name = k then dateTimeInstant v else get_value vs name)"
  by (auto simp: set_date_def dateTimeInstant_def split: option.split)

lemma distinct_canonicalDateQuery [simp]:
  "distinct (map fst vs) \<Longrightarrow> distinct (map fst (canonicalDateQuery vs from to))"
  by (simp add: canonicalDateQuery_def set_date_def Let_def split: option.split)

lemma get_canonicalDateQuery [simp]:
  "get_value (canonicalDateQuery vs from to) name =
     (if name = ''to'' then dateTimeInstant to else if name = ''from'' then dateTimeInstant from
      else if name = ''tz'' then [] else get_value vs name)"
  by (simp add: canonicalDateQuery_def)

lemma query_selection:
  fixes g :: "string \<Rightarrow> string"
  shows "get_value (foldl (\<lambda>acc name. if g name \<noteq> [] then set_value name (g name) acc else acc) acc names) name =
      (if name \<in> set names \<and> g name \<noteq> [] then g name else get_value acc name)"
    and "distinct (map fst acc) \<Longrightarrow>
      distinct (map fst (foldl (\<lambda>acc name. if g name \<noteq> [] then set_value name (g name) acc else acc) acc names))"
  by (induction names arbitrary: acc) auto

lemma get_webhookListQuery:
  "get_value (ParseQuery (webhookListQuery vs n)) name =
     (if name = ''page'' then FormatInt (max 1 n) else if name \<in> set list_names then TrimSpace (get_value vs name) else [])"
proof -
  let ?sel = "foldl (\<lambda>acc name. if TrimSpace (get_value vs name) \<noteq> [] then set_value name (TrimSpace (get_value vs name)) acc else acc) [] list_names"
  have "distinct (map fst ?sel)" by (rule query_selection(2)) simp
  moreover have "get_value [] name = []" by (simp add: get_value_def)
  moreover have "max 1 n = (if n < 1 then 1 else n)" by simp
  ultimately show ?thesis unfolding webhookListQuery_def Let_def
    by (simp add: query_selection(1) [of "\<lambda>name. TrimSpace (get_value vs name)"])
qed

lemma parse_page_FormatInt: "1 \<le> n \<Longrightarrow> n \<le> max_int64 div k \<Longrightarrow> 0 < k \<Longrightarrow> parse_page k (FormatInt n) = n"
proof -
  assume a: "1 \<le> n" "n \<le> max_int64 div k" "0 < k"
  have "max_int64 div k \<le> max_int64" using a(3) zdiv_mono2 [of max_int64 1 k] by (simp add: max_int64_def)
  then have "in_int64 n" using a by (simp add: in_int64_def min_int64_def)
  then show ?thesis using a by (simp add: parse_page_def ParseInt_FormatInt)
qed

lemma parse_filter_iff:
  "parseWebhookFilterAndPage zones r = Some (Inr (f, page)) \<longleftrightarrow>
     webhookFilterDates zones (rq_query r) = Some (Inr (wf_From f, wf_To f)) \<and>
     wf_Source f = query_text r ''source'' \<and> wf_Status f = query_text r ''status'' \<and>
     wf_Query f = query_text r ''q'' \<and> wf_Sort f = query_text r ''sort'' \<and>
     page = parse_page webhookPageSize (get_value (rq_query r) ''page'')"
  (is "_ \<longleftrightarrow> ?dates \<and> ?fields")
proof -
  consider e where "webhookFilterDates zones (rq_query r) = Some (Inl e)" | "webhookFilterDates zones (rq_query r) = None"
    | a b where "webhookFilterDates zones (rq_query r) = Some (Inr (a, b))"
    by (metis option.exhaust sum.exhaust prod.exhaust)
  then show ?thesis
    by cases (cases f; auto simp: parseWebhookFilterAndPage_def)+
qed

lemma page_link_reads_back:
  assumes "zones ''UTC'' = Some loc" and "distinct (map fst (rq_query r))"
    and "parseWebhookFilterAndPage zones r = Some (Inr (f, page))"
    and "in_years (wf_From f)" and "in_years (wf_To f)"
    and "n \<le> max_int64 div webhookPageSize"
    and "rq_query r' = ParseQuery (webhookListQuery (canonicalDateQuery (rq_query r) (wf_From f) (wf_To f)) n)"
  shows "parseWebhookFilterAndPage zones r' = Some (Inr (f, max 1 n))"
proof -
  have "webhookFilterDates zones (rq_query r') = Some (Inr (wf_From f, wf_To f))"
    by (rule dates_of_link [where zones = zones, OF assms(1,4,5)])
      (simp_all add: assms(7) get_webhookListQuery list_names_def dateTimeInstant_trim assms(4,5))
  moreover have "parse_page webhookPageSize (get_value (rq_query r') ''page'') = max 1 n"
    using assms(6) by (simp add: assms(7) get_webhookListQuery parse_page_FormatInt webhookPageSize_def max_int64_def)
  moreover have "query_text r' name = query_text r name" if "name \<in> {''source'', ''status'', ''q'', ''sort''}" for name
    using that by (auto simp: query_text_def assms(7) get_webhookListQuery list_names_def)
  ultimately show ?thesis using assms(3) by (simp add: parse_filter_iff)
qed

text \<open>
  A link to a page shows that page of the same search. Following the link to a page of the
  list, or of the dashboard, as a request, gives the filter the link was made from and the page
  it names, whatever characters the search contains and whatever zone and form its dates had, if
  they fall in the years 0 to 9999.
\<close>

theorem page_link_roundtrip:
  assumes "zones ''UTC'' = Some loc" and "distinct (map fst (rq_query r))"
    and "parseWebhookFilterAndPage zones r = Some (Inr (f, page))"
    and "in_years (wf_From f)" and "in_years (wf_To f)"
    and "n \<le> max_int64 div webhookPageSize"
    and "rq_query r' = ParseQuery (webhookListQuery (canonicalDateQuery (rq_query r) (wf_From f) (wf_To f)) n)"
  shows "parseWebhookFilterAndPage zones r' = Some (Inr (f, max 1 n))"
  by (rule page_link_reads_back [OF assms])

definition utc_only :: "string \<Rightarrow> location option" where
  "utc_only zone = (if zone = ''UTC'' then Some UTC else None)"

definition demo_search :: request where
  "demo_search = no_request\<lparr>rq_query := [(''q'', [''50% off & more'']), (''to'', [dateTimeInstant (Some 0)]), (''page'', [''3''])]\<rparr>"

definition demo_search_filter :: webhook_filter where
  "demo_search_filter = \<lparr>wf_Source = [], wf_Status = [], wf_Query = ''50% off & more'', wf_From = None, wf_To = Some 0, wf_Sort = []\<rparr>"

lemma epoch_in_years: "in_years (Some 0)"
proof -
  have "cv_Year (civil 0) = 1970" by (simp add: civil_Year epoch_day_def year_of_day_def days_before_year_def)
  then show ?thesis by (simp add: in_years_def)
qed

lemma demo_search_values:
  "get_value (rq_query demo_search) name = (if name = ''q'' then ''50% off & more'' else
     if name = ''to'' then dateTimeInstant (Some 0) else if name = ''page'' then ''3'' else [])"
  by (simp add: demo_search_def get_value_def)

lemma demo_search_parsed: "parseWebhookFilterAndPage utc_only demo_search = Some (Inr (demo_search_filter, 3))"
proof -
  have "webhookFilterDates utc_only (rq_query demo_search) = Some (Inr (None, Some 0))"
    by (rule dates_of_link [where zones = utc_only and loc = UTC])
      (simp_all add: utc_only_def demo_search_values epoch_in_years dateTimeInstant_def)
  moreover have "TrimSpace ''50% off & more'' = ''50% off & more''" by (rule TrimSpace_solid) (simp add: solid_def)
  moreover have "parse_page webhookPageSize ''3'' = 3"
    by (simp add: parse_page_def webhookPageSize_def ParseInt_def is_digit_def digits_val_def digit_val_def int64_defs)
  ultimately show ?thesis
    by (simp add: parse_filter_iff demo_search_filter_def query_text_def demo_search_values TrimSpace_solid)
qed

theorem page_link_roundtrip_witness:
  "parseWebhookFilterAndPage utc_only
     (no_request\<lparr>rq_query := ParseQuery (webhookListQuery (canonicalDateQuery (rq_query demo_search) None (Some 0)) 4)\<rparr>) =
   Some (Inr (demo_search_filter, 4))"
proof -
  have "parseWebhookFilterAndPage utc_only
     (no_request\<lparr>rq_query := ParseQuery (webhookListQuery (canonicalDateQuery (rq_query demo_search) None (Some 0)) 4)\<rparr>) =
   Some (Inr (demo_search_filter, max 1 4))"
    by (rule page_link_roundtrip [where loc = UTC, OF _ _ demo_search_parsed])
      (simp_all add: utc_only_def demo_search_filter_def epoch_in_years webhookPageSize_def max_int64_def,
       simp add: demo_search_def)
  then show ?thesis by simp
qed

section \<open>Links between the pages of dead letters\<close>

lemma map_of_add_value:
  "map_of (add_value k v vs) j = (if j = k then Some ((case map_of vs k of None \<Rightarrow> [] | Some l \<Rightarrow> l) @ [v]) else map_of vs j)"
  by (induction k v vs rule: add_value.induct) auto

lemma distinct_add_value [simp]: "distinct (map fst vs) \<Longrightarrow> distinct (map fst (add_value k v vs))"
proof -
  have "set (map fst (add_value k v vs)) = insert k (set (map fst vs))" for vs
    by (induction k v vs rule: add_value.induct) auto
  then show "distinct (map fst vs) \<Longrightarrow> distinct (map fst (add_value k v vs))"
    by (induction k v vs rule: add_value.induct) auto
qed

lemma copy_values_loop:
  assumes "distinct (map fst vs)" "\<And>k. k \<in> fst ` set vs \<Longrightarrow> map_of acc k = None" "distinct (map fst acc)"
  shows "get_value (foldl (\<lambda>acc (k, l). foldl (\<lambda>acc v. add_value k v acc) acc l) acc vs) name =
      (if name \<in> fst ` set vs then get_value vs name else get_value acc name) \<and>
    distinct (map fst (foldl (\<lambda>acc (k, l). foldl (\<lambda>acc v. add_value k v acc) acc l) acc vs))"
  using assms
proof (induction vs arbitrary: acc)
  case (Cons kl vs)
  obtain k l where kl: "kl = (k, l)" by (cases kl)
  have inner: "map_of (foldl (\<lambda>acc v. add_value k v acc) acc l) j =
      (if j = k \<and> l \<noteq> [] then Some ((case map_of acc k of None \<Rightarrow> [] | Some m \<Rightarrow> m) @ l) else map_of acc j) \<and>
      (distinct (map fst acc) \<longrightarrow> distinct (map fst (foldl (\<lambda>acc v. add_value k v acc) acc l)))" for acc j
    by (induction l arbitrary: acc) (auto simp: map_of_add_value)
  let ?acc = "foldl (\<lambda>acc v. add_value k v acc) acc l"
  have "map_of ?acc j = None" if "j \<in> fst ` set vs" for j
    using that Cons.prems(1,2) inner [of acc j] by (auto simp: kl)
  from Cons.IH [OF _ this] Cons.prems inner
  have ih: "get_value (foldl (\<lambda>acc (k, l). foldl (\<lambda>acc v. add_value k v acc) acc l) ?acc vs) name =
      (if name \<in> fst ` set vs then get_value vs name else get_value ?acc name)"
    "distinct (map fst (foldl (\<lambda>acc (k, l). foldl (\<lambda>acc v. add_value k v acc) acc l) ?acc vs))" by (simp_all add: kl)
  have "k \<notin> fst ` set vs" "map_of acc k = None" using Cons.prems(1,2) by (auto simp: kl)
  then have "get_value ?acc name = (if name = k then get_value [(k, l)] k else get_value acc name)"
    using inner [of acc name] by (cases l) (auto simp: get_value_def)
  then show ?case using ih \<open>k \<notin> fst ` set vs\<close> by (auto simp: kl get_value_def)
qed simp

lemma copy_values_correct:
  assumes "distinct (map fst vs)"
  shows "get_value (copy_values vs) name = get_value vs name" "distinct (map fst (copy_values vs))"
proof -
  have "name \<notin> fst ` set vs \<Longrightarrow> get_value vs name = []"
    by (auto simp: get_value_def map_of_eq_None_iff [THEN iffD2])
  then show "get_value (copy_values vs) name = get_value vs name" "distinct (map fst (copy_values vs))"
    using copy_values_loop [OF assms, of "[]" name] by (auto simp: copy_values_def get_value_def)
qed

text \<open>
  A link between pages of dead letters keeps the search. The request of such a link has the
  dates, source and text of the search it was made from, the page it names, and no longer the
  result of a bulk replay.
\<close>

lemma dlq_link_roundtrip:
  assumes "zones ''UTC'' = Some loc" and "distinct (map fst (rq_query r))"
    and "webhookFilterDates zones (rq_query r) = Some (Inr (a, b))" and "in_years a" and "in_years b"
    and "0 \<le> n" and "n \<le> max_int64 div 20"
    and "buildDLQPageURLWithFilters (canonicalDateQuery (rq_query r) a b) n = ''/dlq?'' @ q" and "rq_query r' = ParseQuery q"
  shows "webhookFilterDates zones (rq_query r') = Some (Inr (a, b)) \<and>
    query_text r' ''source'' = query_text r ''source'' \<and> query_text r' ''q'' = query_text r ''q'' \<and>
    parsePage (get_value (rq_query r') ''page'') = max 1 n \<and> bulkReplayMessage (rq_query r') = []"
proof -
  let ?vs = "canonicalDateQuery (rq_query r) a b"
  have vs: "distinct (map fst ?vs)" using assms(2) by simp
  note copy = copy_values_correct [OF vs]
  have q: "q = encode_query (set_value ''page'' (FormatInt n) (del_value ''skipped'' (del_value ''requeued'' (copy_values ?vs))))"
    using assms(8) by (simp add: buildDLQPageURLWithFilters_def)
  have get: "get_value (rq_query r') name =
      (if name = ''page'' then FormatInt n else if name \<in> {''skipped'', ''requeued''} then [] else get_value ?vs name)" for name
    unfolding assms(9) q using copy(2) by (subst get_value_query) (simp_all add: copy(1))
  have "webhookFilterDates zones (rq_query r') = Some (Inr (a, b))"
    by (rule dates_of_link [where zones = zones, OF assms(1,4,5)]) (simp_all add: get)
  moreover have "parsePage (FormatInt n) = max 1 n"
  proof (cases "n = 0")
    case True
    then show ?thesis by (simp add: parsePage_def parse_page_def ParseInt_FormatInt int64_defs)
  next
    case False
    then show ?thesis using assms(6,7) parse_page_FormatInt [of n 20] by (simp add: parsePage_def)
  qed
  moreover have "bulkReplayMessage (rq_query r') = []" by (simp add: bulkReplayMessage_def get ParseInt_def)
  ultimately show ?thesis by (simp add: get query_text_def)
qed

section \<open>Dates after the year 9999\<close>

text \<open>
  The hypothesis on the years is needed: the day after the last of 9999 is accepted as the end of
  a search, but the links of its page name a year of five digits, which is refused.
\<close>

definition year_10000 :: time where "year_10000 = 253402300800 * second"

lemma resolve_UTC: "resolveLocalTime wall UTC = Some (Inr wall)"
  by (simp add: resolveLocalTime_def resolve_loop.simps UTC_def clock_def resolved_def Let_def time_units)

lemma far_end_accepted: "parseWebhookDateTime ''9999-12-31'' True UTC = Some (Inr (Some year_10000))"
proof -
  have "TrimSpace ''9999-12-31'' = ''9999-12-31''" by (rule TrimSpace_solid) (simp add: solid_def)
  moreover have "parse_RFC3339Nano ''9999-12-31'' = None" "parse_clock ''9999-12-31'' True = Some year_10000" by code_simp+
  ultimately show ?thesis by (simp add: parseWebhookDateTime_def resolve_UTC)
qed

lemma year_10000_text: "dateTimeInstant (Some year_10000) = ''10000-01-01T00:00:00Z''"
proof -
  have "civil year_10000 = \<lparr>cv_Year = 10000, cv_Month = 1, cv_Day = 1, cv_Hour = 0, cv_Min = 0, cv_Sec = 0, cv_Nano = 0\<rparr>"
    by code_simp
  moreover have "digits_of 10000 = ''10000''"
  proof -
    have "digit_char 0 = CHR ''0''" "digit_char 1 = CHR ''1''" by code_simp+
    then show ?thesis
      by (simp add: digits_of.simps [of 10000] digits_of.simps [of 1000] digits_of.simps [of 100] digits_of.simps [of 10]
          digits_of.simps [of "Suc 0"])
  qed
  then have "year_text 10000 = ''10000''" by (simp add: year_text_def)
  moreover have "padded 2 0 = ''00''" "padded 2 1 = ''01''" "fraction_text 0 = []" by code_simp+
  ultimately show ?thesis
    by (simp add: dateTimeInstant_def format_RFC3339Nano_def date_text_def minute_text_def del: padded.simps)
qed

lemma far_link_refused: "\<exists>e. parseWebhookDateTime (dateTimeInstant (Some year_10000)) True UTC = Some (Inl e)"
proof -
  have "parse_RFC3339Nano ''10000-01-01T00:00:00Z'' = None" "parse_clock ''10000-01-01T00:00:00Z'' True = None" by code_simp+
  moreover have "TrimSpace ''10000-01-01T00:00:00Z'' = ''10000-01-01T00:00:00Z''" by (rule TrimSpace_solid) (simp add: solid_def)
  ultimately show ?thesis by (simp add: parseWebhookDateTime_def year_10000_text)
qed

end
