(* ===== verification/BulkForm.thy ===== *)
theory BulkForm
  imports Pages BulkReplay
begin

text \<open>
  The handler of \<open>internal/handler/bulk_replay.go\<close>: it parses the selected keys, requeues them, and
  redirects to the page of dead letters the form came from, with the two counters in its query. The
  page shows them (\<open>bulkReplayMessage\<close> of theory Pages); the lemmas show that the numbers it shows are
  those of the database operation.
\<close>

definition post_values :: "request \<Rightarrow> string \<Rightarrow> string list" where
  "post_values r name =
     (case rq_form r of
        None \<Rightarrow> []
      | Some (form, post) \<Rightarrow> (case map_of post name of None \<Rightarrow> [] | Some l \<Rightarrow> l))"

text \<open>
  The page to return to: the path as it was written and the query of a local target that is the
  page of dead letters, without a fragment, or else that page without a query.
\<close>

definition dlq_target :: "string \<Rightarrow> string \<times> values" where
  "dlq_target target =
     (let u = before (CHR ''#'') target; frag = drop (length u + 1) target;
          path = before (CHR ''?'') u; query = drop (length path + 1) u
      in if isLocalRedirect target \<and> unescape_path path = Some ''/dlq'' \<and> frag = []
         then (path, ParseQuery query) else (''/dlq'', []))"

definition BulkReplayWebhooks ::
    "(int list \<Rightarrow> 's \<Rightarrow> (go_error + bulk_replay_result) \<times> 's) \<Rightarrow> 's handler" where
  "BulkReplayWebhooks bulk r s =
     (if rq_form r = None then (http_Error ''Invalid form'' 400, s)
      else
        (case parseBulkReplayIDs (post_values r ''ids'') of
           Inl e \<Rightarrow> (http_Error (error_text e) 400, s)
         | Inr ids \<Rightarrow>
             (case bulk ids s of
                (Inl e, s') \<Rightarrow> (http_Error ''Failed to requeue webhooks. Reload the list before retrying.'' 503, s')
              | (Inr result, s') \<Rightarrow>
                  (let (path, vs) = dlq_target (PostFormValue r ''redirect_to'');
                       query = set_value ''skipped'' (FormatInt (Skipped result)) (set_value ''requeued'' (FormatInt (Requeued result)) vs)
                   in (http_Redirect (path @ ''?'' @ encode_query query) 303, s')))))"

section \<open>The page returned to\<close>

lemma unescape_path_slash: "unescape_path s = Some t \<Longrightarrow> CHR ''/'' \<in> set s \<Longrightarrow> CHR ''/'' \<in> set t"
proof (induction s arbitrary: t rule: unescape_path.induct)
  case (2 c s)
  have "unhex_char (CHR ''/'') = None" by (simp add: unhex_char_def Let_def)
  note none = this
  show ?case
  proof (cases "c = CHR ''%''")
    case True
    then obtain a b rest x y u where s: "s = a # b # rest" "unhex_char a = Some x" "unhex_char b = Some y"
      and u: "unescape_path rest = Some u" "t = char_of (16 * x + y) # u"
      using "2.prems"(1) by (auto split: list.splits option.splits)
    then have "a \<noteq> CHR ''/''" "b \<noteq> CHR ''/''" using none by auto
    then have "CHR ''/'' \<in> set rest" using "2.prems"(2) True s(1) by simp
    then show ?thesis using "2.IH"(1) [OF True s(1) refl _ s(2,3)] u by simp
  next
    case False
    then obtain u where "unescape_path s = Some u" "t = c # u" using "2.prems"(1) by auto
    then show ?thesis using "2.IH"(2) [OF False] "2.prems"(2) by auto
  qed
qed simp

lemma distinct_ParseQuery [simp]: "distinct (map fst (ParseQuery q))"
proof -
  have "distinct (map fst vs) \<Longrightarrow>
      distinct (map fst (foldl (\<lambda>vs p. case decode_pair p of None \<Rightarrow> vs | Some (k, v) \<Rightarrow> add_value k v vs) vs ps))" for vs ps
    by (induction ps arbitrary: vs) (auto split: option.split)
  then show ?thesis by (simp add: ParseQuery_def)
qed

text \<open>A path that is sent as it is: one segment that is neither empty nor made of dots.\<close>

definition plain_path :: "string \<Rightarrow> bool" where
  "plain_path p \<longleftrightarrow> (\<exists>s. p = CHR ''/'' # s \<and> CHR ''/'' \<notin> set s \<and> CHR ''?'' \<notin> set s \<and> s \<notin> {[], ''.'', ''..''})"

lemma plain_path_location:
  assumes "plain_path p" shows "redirect_location (p @ ''?'' @ q) = p @ ''?'' @ q"
proof -
  obtain s where s: "p = CHR ''/'' # s" "CHR ''/'' \<notin> set s" "CHR ''?'' \<notin> set s" "s \<notin> {[], ''.'', ''..''}"
    using assms by (auto simp: plain_path_def)
  obtain c t where ct: "s = c # t" "c \<noteq> CHR ''/''" using s(2,4) by (cases s) auto
  have "before (CHR ''?'') (p @ ''?'' @ q) = p" using s(1,3) by (auto simp: before_def takeWhile_append2 takeWhile_append)
  moreover have "clean_rooted p = p" using s by (simp add: clean_rooted_def split_on_absent)
  moreover have "stays_local (p @ ''?'' @ q)" using s(1) ct by (simp add: stays_local_def)
  ultimately show ?thesis using s(1,2,4) by (auto simp: redirect_location_def ends_with_slash_def Let_def)
qed

lemma dlq_target_plain:
  assumes "dlq_target target = (path, vs)"
  shows "plain_path path" "unescape_path path = Some ''/dlq''" "distinct (map fst vs)"
proof -
  let ?p = "before (CHR ''?'') (before (CHR ''#'') target)"
  have "plain_path path \<and> unescape_path path = Some ''/dlq'' \<and> distinct (map fst vs)"
  proof (cases "path = ?p \<and> isLocalRedirect target \<and> unescape_path ?p = Some ''/dlq'' \<and> distinct (map fst vs)")
    case True
    then obtain u where "target = CHR ''/'' # u" by (cases target) (auto simp: isLocalRedirect_def split: if_splits)
    then obtain s where s: "path = CHR ''/'' # s" using True by (simp add: before_def)
    then have dec: "unescape_path s = Some ''dlq''" using True by auto
    have "CHR ''?'' \<notin> set path" using True by (auto simp: before_def dest: set_takeWhileD)
    then have "CHR ''?'' \<notin> set s" using s by simp
    moreover have "CHR ''/'' \<notin> set s" using unescape_path_slash [OF dec] by auto
    ultimately have "plain_path path" using s dec by (auto simp: plain_path_def)
    then show ?thesis using True by simp
  next
    case False
    then have "path = ''/dlq'' \<and> vs = []" using assms by (auto simp: dlq_target_def Let_def split: if_splits)
    then show ?thesis by (simp add: plain_path_def)
  qed
  then show "plain_path path" "unescape_path path = Some ''/dlq''" "distinct (map fst vs)" by auto
qed

section \<open>The interface of the bulk replay\<close>

text \<open>
  \<open>bulkReplayStore\<close>: on a sound store, a bulk replay that succeeds reports counts of at most
  \<open>MaxBulkReplay\<close> keys in all.
\<close>

locale bulk_replay_store =
  fixes bulk :: "int list \<Rightarrow> 's \<Rightarrow> (go_error + bulk_replay_result) \<times> 's"
    and sound :: "'s \<Rightarrow> bool"
  assumes counts: "sound s \<Longrightarrow> bulk ids s = (Inr result, s') \<Longrightarrow>
      0 \<le> Requeued result \<and> 0 \<le> Skipped result \<and> Requeued result + Skipped result \<le> int MaxBulkReplay"
begin

lemma message_of_counts:
  assumes "sound s" and "bulk ids s = (Inr result, s')" and "distinct (map fst vs)"
  shows "bulkReplayMessage (ParseQuery (encode_query
      (set_value ''skipped'' (FormatInt (Skipped result)) (set_value ''requeued'' (FormatInt (Requeued result)) vs)))) =
    ''Queued for delivery: '' @ FormatInt (Requeued result) @ ''. Skipped: '' @ FormatInt (Skipped result) @
    '' (deleted or no longer in DLQ).''"
proof -
  note c = counts [OF assms(1,2)]
  then have "in_int64 (Requeued result)" "in_int64 (Skipped result)" by (simp_all add: int64_defs MaxBulkReplay_def)
  then show ?thesis using c assms(3) by (simp add: bulkReplayMessage_def ParseInt_FormatInt)
qed

lemma handler_cases:
  assumes "BulkReplayWebhooks bulk r s = (rp, s')"
  obtains (refused) "rp_status rp = 400" "s' = s"
      "rq_form r = None \<or> (\<exists>e. parseBulkReplayIDs (post_values r ''ids'') = Inl e)"
  | (failed) ids e where "rq_form r \<noteq> None" "parseBulkReplayIDs (post_values r ''ids'') = Inr ids" "bulk ids s = (Inl e, s')"
      "rp_status rp = 503"
  | (replayed) ids result where "rq_form r \<noteq> None" "parseBulkReplayIDs (post_values r ''ids'') = Inr ids"
      "bulk ids s = (Inr result, s')"
      "rp = (let (path, vs) = dlq_target (PostFormValue r ''redirect_to'');
                 query = set_value ''skipped'' (FormatInt (Skipped result)) (set_value ''requeued'' (FormatInt (Requeued result)) vs)
             in http_Redirect (path @ ''?'' @ encode_query query) 303)"
  using assms by (auto simp: BulkReplayWebhooks_def Let_def split: if_splits sum.splits prod.splits)

text \<open>The reply to a bulk replay that succeeded.\<close>

lemma replay_shown:
  assumes "sound s" and "bulk ids s = (Inr result, s')"
    and "rp = (let (path, vs) = dlq_target (PostFormValue r ''redirect_to'');
                 query = set_value ''skipped'' (FormatInt (Skipped result)) (set_value ''requeued'' (FormatInt (Requeued result)) vs)
             in http_Redirect (path @ ''?'' @ encode_query query) 303)"
  shows "rp_status rp = 303 \<and>
    (\<exists>path q. rp_header rp = [(''Location'', path @ ''?'' @ q)] \<and> unescape_path path = Some ''/dlq'' \<and>
       bulkReplayMessage (ParseQuery q) =
         ''Queued for delivery: '' @ FormatInt (Requeued result) @ ''. Skipped: '' @ FormatInt (Skipped result) @
         '' (deleted or no longer in DLQ).'')"
proof -
  obtain path vs where t: "dlq_target (PostFormValue r ''redirect_to'') = (path, vs)" by fastforce
  let ?q = "encode_query (set_value ''skipped'' (FormatInt (Skipped result)) (set_value ''requeued'' (FormatInt (Requeued result)) vs))"
  have "rp_status rp = 303" "rp_header rp = [(''Location'', path @ ''?'' @ ?q)]"
    using assms(3) plain_path_location [OF dlq_target_plain(1) [OF t]] by (simp_all add: t http_Redirect_def)
  then show ?thesis
    using message_of_counts [OF assms(1,2) dlq_target_plain(3) [OF t]] dlq_target_plain(2) [OF t] by blast
qed

end

interpretation db_bulk: bulk_replay_store "BulkReplayDeadLetters f" db_inv for f
  by unfold_locales (use bulk_replay_counts in \<open>force simp: MaxBulkReplay_def\<close>)

text \<open>The keys a form selects; the form is good when each is positive and there are 1 to 20 of them.\<close>

definition selected_keys :: "request \<Rightarrow> int set" where
  "selected_keys r = (the \<circ> Atoi) ` set (post_values r ''ids'')"

definition selection_ok :: "request \<Rightarrow> bool" where
  "selection_ok r \<longleftrightarrow> rq_form r \<noteq> None \<and> post_values r ''ids'' \<noteq> [] \<and>
     (\<forall>v \<in> set (post_values r ''ids''). \<exists>k > 0. Atoi v = Some k) \<and> card (selected_keys r) \<le> 20"

lemma selection_parsed:
  "parseBulkReplayIDs (post_values r ''ids'') = Inr ids \<Longrightarrow> rq_form r \<noteq> None \<Longrightarrow>
     selection_ok r \<and> set ids = selected_keys r"
  "parseBulkReplayIDs (post_values r ''ids'') = Inl e \<Longrightarrow> \<not> selection_ok r"
  using parse_bulk_correct [of "post_values r ''ids''"]
  by (auto simp: selection_ok_def selected_keys_def dest: distinct_card)

text \<open>
  C31: a bulk replay requeues what was selected, and tells what it did. A form that does not select 1
  to 20 positive keys is answered 400 and changes nothing. Otherwise the answer is 303 once every
  webhook that was selected and dead-lettered is pending again, with its delivery state cleared, and
  nothing else has changed; or 503, with nothing changed unless the reply of the commit was lost
  after that same effect. After 303 the reply leads to the page of dead letters, which shows how many webhooks were
  requeued and how many of the selected keys were not.
\<close>

theorem bulk_replay_shown:
  assumes "db_inv d" and "BulkReplayWebhooks (BulkReplayDeadLetters f) r d = (rp, d')"
    and "replayed = d\<lparr>t_webhooks := map (\<lambda>w.
           if wh_ID w \<in> selected_keys r \<and> wh_Status w = st_dead_lettered
           then w\<lparr>wh_Status := st_pending, wh_Response := [], wh_FailureCount := 0, wh_LastError := [], wh_NextRetryAt := None,
                  wh_DeliveryLeaseUntil := None, wh_DeadLetteredAt := None, wh_DeadLetterReason := []\<rparr>
           else w) (t_webhooks d)\<rparr>"
    and "requeued = int (length (filter (\<lambda>w. wh_ID w \<in> selected_keys r \<and> wh_Status w = st_dead_lettered) (t_webhooks d)))"
  shows "if \<not> selection_ok r then rp_status rp = 400 \<and> d' = d
    else (rp_status rp = 503 \<and> (d' = d \<or> commit f = ReplyLost \<and> d' = replayed)) \<or>
      (rp_status rp = 303 \<and> d' = replayed \<and>
       (\<exists>path q. rp_header rp = [(''Location'', path @ ''?'' @ q)] \<and> unescape_path path = Some ''/dlq'' \<and>
          bulkReplayMessage (ParseQuery q) =
            ''Queued for delivery: '' @ FormatInt requeued @ ''. Skipped: '' @
            FormatInt (int (card (selected_keys r)) - requeued) @ '' (deleted or no longer in DLQ).''))"
  using assms(2)
proof (cases rule: db_bulk.handler_cases)
  case refused
  then have "\<not> selection_ok r" using selection_parsed(2) by (auto simp: selection_ok_def)
  then show ?thesis using refused by simp
next
  case (failed ids e)
  note sel = selection_parsed(1) [OF failed(2,1)]
  show ?thesis
    using bulk_replay_all_or_nothing [OF assms(1) failed(3)] failed(4) sel
    by (simp add: assms(3) replayUpdates_def cong: if_cong)
next
  case (replayed ids result)
  note sel = selection_parsed(1) [OF replayed(2,1)]
  have "Requeued result = requeued" "Skipped result = int (card (selected_keys r)) - requeued"
    using bulk_replay_cases [OF assms(1) replayed(3)] sel by (simp_all add: assms(4))
  moreover have "d' = replayed"
    using bulk_replay_all_or_nothing [OF assms(1) replayed(3)] sel by (simp add: assms(3) replayUpdates_def cong: if_cong)
  ultimately show ?thesis using db_bulk.replay_shown [OF assms(1) replayed(3,4)] sel by simp
qed

definition demo_bulk_form :: request where
  "demo_bulk_form = no_request\<lparr>rq_method := ''POST'',
     rq_form := Some ([], [(''ids'', [''1'', ''2'', ''1'']), (''redirect_to'', [''/dlq?page=2''])])\<rparr>"

lemma demo_bulk_step:
  "BulkReplayDeadLetters no_faults [1, 2] demo_dlq = (Inr \<lparr>Requeued = 1, Skipped = 1\<rparr>, demo_requeued)"
  by (simp add: BulkReplayDeadLetters_def transaction_def bulk_body_def eligible_ids_def demo_dlq_def
      demo_requeued_def empty_db_def empty_webhook_def MaxBulkReplay_def rows_affected_def
      update_webhooks_def update_rows_def Let_def)

lemma demo_bulk_ids: "parseBulkReplayIDs (post_values demo_bulk_form ''ids'') = Inr [1, 2]"
proof -
  have "Atoi ''1'' = Some 1" "Atoi ''2'' = Some 2" by code_simp+
  then show ?thesis by (simp add: demo_bulk_form_def post_values_def parseBulkReplayIDs_def MaxBulkReplay_def)
qed

theorem bulk_replay_shown_witness:
  "\<exists>path q. rp_header (fst (BulkReplayWebhooks (BulkReplayDeadLetters no_faults) demo_bulk_form demo_dlq)) =
       [(''Location'', path @ ''?'' @ q)] \<and> unescape_path path = Some ''/dlq'' \<and>
     bulkReplayMessage (ParseQuery q) = ''Queued for delivery: 1. Skipped: 1 (deleted or no longer in DLQ).'' \<and>
     map wh_Status (t_webhooks (snd (BulkReplayWebhooks (BulkReplayDeadLetters no_faults) demo_bulk_form demo_dlq))) =
       [st_pending, st_success]"
proof -
  let ?out = "BulkReplayWebhooks (BulkReplayDeadLetters no_faults) demo_bulk_form demo_dlq"
  have form: "rq_form demo_bulk_form \<noteq> None" by (simp add: demo_bulk_form_def)
  then have "rp_status (fst ?out) = 303"
    by (simp add: BulkReplayWebhooks_def demo_bulk_ids demo_bulk_step Let_def split: prod.split)
  moreover have "selection_ok demo_bulk_form" "selected_keys demo_bulk_form = {1, 2}"
    using selection_parsed(1) [OF demo_bulk_ids form] by auto
  moreover have "FormatInt 1 = ''1''" by (simp add: FormatInt_def digits_of.simps [of "Suc 0"] digit_char_def) code_simp
  ultimately show ?thesis
    using bulk_replay_shown [OF demo_dlq_inv prod.collapse [symmetric] refl refl, where r = demo_bulk_form and f = no_faults]
    by (auto simp: demo_dlq_def empty_db_def empty_webhook_def)
qed

end
