(* ===== verification/Metrics.thy ===== *)
theory Metrics
  imports Complex_Main Rules Web
begin

text \<open>
  \<open>internal/storage/db_delivery_attempts.go\<close> and the metrics panel of \<open>dashboard.go\<close>: the attempts of
  a webhook, and the figures of the dashboard, which the code adds up from one row per source and
  status. The lemmas show that every figure is the count it is meant to be, over all attempts.

  The four queries of \<open>DeliveryMetrics\<close> are statements of their own: \<open>snap i\<close> is the database
  the \<open>i\<close>-th of them reads and \<open>fault i\<close> tells that it fails. A success rate is the exact quotient
  that the code rounds to a \<open>float64\<close>. Rows that tie in an order may come in any order; the model
  has one.
\<close>

section \<open>The attempts of a webhook\<close>

definition omit_response :: "delivery_attempt \<Rightarrow> delivery_attempt" where
  "omit_response a = a\<lparr>da_ResponseBody := [], da_ResponseHeaders := []\<rparr>"

definition DeliveryAttemptsByWebhook :: "bool \<Rightarrow> int \<Rightarrow> db \<Rightarrow> go_error + delivery_attempt list" where
  "DeliveryAttemptsByWebhook failed k d =
     exec failed (map omit_response (rev (sort_key da_ID (filter (\<lambda>a. da_WebhookID a = k) (t_attempts d)))))"

definition DeliveryAttemptByID :: "bool \<Rightarrow> int \<Rightarrow> int \<Rightarrow> db \<Rightarrow> go_error + delivery_attempt" where
  "DeliveryAttemptByID failed webhook k d =
     (if failed then Inl ErrDatabase
      else (case find (\<lambda>a. da_WebhookID a = webhook \<and> da_ID a = k) (t_attempts d) of
              None \<Rightarrow> Inl ErrNotFound | Some a \<Rightarrow> Inr a))"

section \<open>The figures of the dashboard\<close>

record source_metric =
  sm_Source :: string
  sm_Attempts :: int
  sm_Success :: int
  sm_Failed :: int
  sm_Pending :: int
  sm_Skipped :: int
  sm_SuccessRate :: rat

record delivery_metrics =
  dm_TotalWebhooks :: int
  dm_TotalAttempts :: int
  dm_SuccessCount :: int
  dm_FailedCount :: int
  dm_PendingCount :: int
  dm_SkippedCount :: int
  dm_DeadLetterCount :: int
  dm_SuccessRate :: rat
  dm_RecentFailures :: "delivery_attempt list"
  dm_RecentDeadLetters :: "webhook list"
  dm_SourceBreakdown :: "source_metric list"

text \<open>\<open>ORDER BY c DESC\<close> of a nullable column puts the rows without a value first.\<close>

definition newest_first :: "('r \<Rightarrow> time option) \<Rightarrow> 'r list \<Rightarrow> 'r list" where
  "newest_first c rows =
     filter (\<lambda>r. c r = None) rows @ rev (sort_key (\<lambda>r. the (c r)) (filter (\<lambda>r. c r \<noteq> None) rows))"

definition recent_failures :: "db \<Rightarrow> delivery_attempt list" where
  "recent_failures d =
     map omit_response (take 5 (newest_first (\<lambda>a. Some (da_StartedAt a)) (filter (\<lambda>a. da_Status a = st_failed) (t_attempts d))))"

definition recent_dead_letters :: "db \<Rightarrow> webhook list" where
  "recent_dead_letters d =
     map (\<lambda>w. w\<lparr>wh_Payload := [], wh_Headers := [], wh_Response := []\<rparr>)
       (take 10 (newest_first wh_DeadLetteredAt (filter (\<lambda>w. wh_Status w = st_dead_lettered) (t_webhooks d))))"

text \<open>One row per source and status, with its count.\<close>

definition source_status_counts :: "db \<Rightarrow> ((string \<times> string) \<times> int) list" where
  "source_status_counts d = group_counts (\<lambda>a. (da_Source a, da_Status a)) (t_attempts d)"

definition new_item :: "string \<Rightarrow> source_metric" where
  "new_item source = \<lparr>sm_Source = source, sm_Attempts = 0, sm_Success = 0, sm_Failed = 0, sm_Pending = 0,
     sm_Skipped = 0, sm_SuccessRate = 0\<rparr>"

definition add_to_item :: "string \<Rightarrow> int \<Rightarrow> source_metric \<Rightarrow> source_metric" where
  "add_to_item status n item =
     (let item = item\<lparr>sm_Attempts := sm_Attempts item + n\<rparr>
      in if status = st_success then item\<lparr>sm_Success := sm_Success item + n\<rparr>
         else if status = st_failed then item\<lparr>sm_Failed := sm_Failed item + n\<rparr>
         else if status = st_pending then item\<lparr>sm_Pending := sm_Pending item + n\<rparr>
         else if status = st_skipped then item\<lparr>sm_Skipped := sm_Skipped item + n\<rparr>
         else item)"

text \<open>The map from sources to their items, in the order the sources were first seen.\<close>

fun update_item :: "string \<Rightarrow> (source_metric \<Rightarrow> source_metric) \<Rightarrow> source_metric list \<Rightarrow> source_metric list" where
  "update_item source g [] = [g (new_item source)]"
| "update_item source g (item # items) =
     (if sm_Source item = source then g item # items else item # update_item source g items)"

definition add_to_totals :: "string \<Rightarrow> int \<Rightarrow> delivery_metrics \<Rightarrow> delivery_metrics" where
  "add_to_totals status n m =
     (let m = m\<lparr>dm_TotalAttempts := dm_TotalAttempts m + n\<rparr>
      in if status = st_success then m\<lparr>dm_SuccessCount := dm_SuccessCount m + n\<rparr>
         else if status = st_failed then m\<lparr>dm_FailedCount := dm_FailedCount m + n\<rparr>
         else if status = st_pending then m\<lparr>dm_PendingCount := dm_PendingCount m + n\<rparr>
         else if status = st_skipped then m\<lparr>dm_SkippedCount := dm_SkippedCount m + n\<rparr>
         else m)"

definition count_row ::
    "delivery_metrics \<times> source_metric list \<Rightarrow> (string \<times> string) \<times> int \<Rightarrow> delivery_metrics \<times> source_metric list" where
  "count_row acc row =
     (let (m, items) = acc; ((source, status), n) = row
      in (add_to_totals status n m, update_item source (add_to_item status n) items))"

definition success_rate :: "int \<Rightarrow> int \<Rightarrow> rat" where
  "success_rate success failed =
     (let completed = success + failed in if completed > 0 then of_int (success * 100) / of_int completed else 0)"

definition with_rate :: "source_metric \<Rightarrow> source_metric" where
  "with_rate item = item\<lparr>sm_SuccessRate := success_rate (sm_Success item) (sm_Failed item)\<rparr>"

definition DeliveryMetrics :: "(nat \<Rightarrow> bool) \<Rightarrow> (nat \<Rightarrow> db) \<Rightarrow> go_error + delivery_metrics" where
  "DeliveryMetrics fault snap =
     (if \<exists>i \<in> {0, 1, 2, 3}. fault i then Inl ErrDatabase
      else
        (let m0 = \<lparr>dm_TotalWebhooks = int (length (t_webhooks (snap 0))), dm_TotalAttempts = 0, dm_SuccessCount = 0,
               dm_FailedCount = 0, dm_PendingCount = 0, dm_SkippedCount = 0,
               dm_DeadLetterCount = int (length (filter (\<lambda>w. wh_Status w = st_dead_lettered) (t_webhooks (snap 0)))),
               dm_SuccessRate = 0, dm_RecentFailures = recent_failures (snap 1),
               dm_RecentDeadLetters = recent_dead_letters (snap 2), dm_SourceBreakdown = []\<rparr>;
             (m, items) = foldl count_row (m0, []) (source_status_counts (snap 3))
         in Inr (m\<lparr>dm_SuccessRate := success_rate (dm_SuccessCount m) (dm_FailedCount m),
                   dm_SourceBreakdown := sort_key sm_Source (map with_rate items)\<rparr>)))"

record metrics_page =
  mp_Metrics :: delivery_metrics
  mp_CSRFToken :: string

definition DeliveryMetricsPartial :: "(go_error + delivery_metrics) \<Rightarrow> request \<Rightarrow> metrics_page rendered" where
  "DeliveryMetricsPartial metrics r =
     (case metrics of
        Inl e \<Rightarrow> Refused (http_Error ''Database unavailable'' 503)
      | Inr m \<Rightarrow> Rendered \<lparr>mp_Metrics = m, mp_CSRFToken = rq_csrf r\<rparr>)"

section \<open>Adding up the rows\<close>

text \<open>The sum of the counts of the rows whose key meets a condition.\<close>

definition tally :: "('k \<Rightarrow> bool) \<Rightarrow> ('k \<times> int) list \<Rightarrow> int" where
  "tally P rows = sum_list (map snd (filter (P \<circ> fst) rows))"

lemma tally_simps [simp]:
  "tally P [] = 0" "tally P (rows @ [(k, n)]) = tally P rows + (if P k then n else 0)"
  by (simp_all add: tally_def)

lemma count_by_key:
  assumes "finite K" "key ` set rows \<subseteq> K"
  shows "(\<Sum>k\<in>{k \<in> K. P k}. int (length (filter (\<lambda>r. key r = k) rows))) = int (length (filter (P \<circ> key) rows))"
  using assms(2)
proof (induction rows)
  case (Cons r rows)
  let ?K = "{k \<in> K. P k}" and ?f = "\<lambda>rows k. int (length (filter (\<lambda>r. key r = k) rows))"
  have "(\<Sum>k\<in>?K. ?f (r # rows) k) = (\<Sum>k\<in>?K. ?f rows k + (if key r = k then 1 else 0))"
    by (rule sum.cong) auto
  also have "\<dots> = (\<Sum>k\<in>?K. ?f rows k) + (\<Sum>k\<in>?K. if key r = k then 1 else 0)" by (rule sum.distrib)
  also have "(\<Sum>k\<in>?K. if key r = k then 1 else 0) = (if key r \<in> ?K then 1 else 0 :: int)"
    by (rule sum.delta') (simp add: assms(1))
  also have "(\<Sum>k\<in>?K. ?f rows k) = int (length (filter (P \<circ> key) rows))" using Cons by (simp add: o_def)
  finally show ?case using Cons.prems by (simp add: o_def)
qed simp

text \<open>Grouping and adding up again is counting.\<close>

lemma tally_group_counts: "tally P (group_counts key rows) = int (length (filter (P \<circ> key) rows))"
proof -
  have "tally P (group_counts key rows) =
      (\<Sum>k\<leftarrow>filter P (remdups (map key rows)). int (length (filter (\<lambda>r. key r = k) rows)))"
    by (simp add: tally_def group_counts_def filter_map o_def)
  also have "\<dots> = (\<Sum>k\<in>set (filter P (remdups (map key rows))). int (length (filter (\<lambda>r. key r = k) rows)))"
    by (rule sum_list_distinct_conv_sum_set) simp
  also have "set (filter P (remdups (map key rows))) = {k \<in> key ` set rows. P k}" by auto
  finally show ?thesis using count_by_key [of "key ` set rows" key rows P] by simp
qed

text \<open>What the code makes of the rows of one source, before its rate.\<close>

definition source_item :: "((string \<times> string) \<times> int) list \<Rightarrow> string \<Rightarrow> source_metric" where
  "source_item rows s =
     (let n = \<lambda>status. tally (\<lambda>k. k = (s, status)) rows
      in \<lparr>sm_Source = s, sm_Attempts = tally (\<lambda>k. fst k = s) rows, sm_Success = n st_success, sm_Failed = n st_failed,
          sm_Pending = n st_pending, sm_Skipped = n st_skipped, sm_SuccessRate = 0\<rparr>)"

lemma source_item_absent: "s \<notin> fst ` fst ` set rows \<Longrightarrow> source_item rows s = new_item s"
proof -
  assume "s \<notin> fst ` fst ` set rows"
  then have "filter ((\<lambda>k. fst k = s) \<circ> fst) rows = []" "filter ((\<lambda>k. k = (s, status)) \<circ> fst) rows = []" for status
    by (force simp: filter_empty_conv)+
  then show ?thesis by (simp add: source_item_def new_item_def tally_def)
qed

lemma source_item_add: "source_item (rows @ [((s, status), n)]) s' =
    (if s' = s then add_to_item status n (source_item rows s) else source_item rows s')"
  by (auto simp: source_item_def add_to_item_def Let_def)

lemma update_item_map:
  assumes "distinct srcs" "sm_Source (g (new_item s)) = s"
    and "\<And>s. sm_Source (f s) = s"
  shows "update_item s g (map f srcs) = (if s \<in> set srcs then map (f(s := g (f s))) srcs else map f srcs @ [g (new_item s)])"
  using assms(1) by (induction srcs) (auto simp: assms(3))

lemma source_item_source [simp]: "sm_Source (source_item rows s) = s" "sm_Source (add_to_item status n item) = sm_Source item"
  by (simp_all add: source_item_def add_to_item_def Let_def)

definition totals :: "((string \<times> string) \<times> int) list \<Rightarrow> delivery_metrics \<Rightarrow> delivery_metrics" where
  "totals rows m =
     (let n = \<lambda>status. tally (\<lambda>k. snd k = status) rows
      in m\<lparr>dm_TotalAttempts := tally (\<lambda>_. True) rows, dm_SuccessCount := n st_success, dm_FailedCount := n st_failed,
           dm_PendingCount := n st_pending, dm_SkippedCount := n st_skipped\<rparr>)"

lemma totals_add: "totals (rows @ [((s, status), n)]) m = add_to_totals status n (totals rows m)"
  by (simp add: totals_def add_to_totals_def Let_def)

text \<open>The loop: totals over all rows so far, and one item for each source seen.\<close>

lemma count_rows:
  assumes "totals [] m0 = m0"
  obtains srcs where "foldl count_row (m0, []) rows = (totals rows m0, map (source_item rows) srcs)"
    "distinct srcs" "set srcs = fst ` fst ` set rows"
proof -
  have "\<exists>srcs. foldl count_row (m0, []) rows = (totals rows m0, map (source_item rows) srcs) \<and>
      distinct srcs \<and> set srcs = fst ` fst ` set rows"
  proof (induction rows rule: rev_induct)
    case (snoc row rows)
    obtain s status n where row: "row = ((s, status), n)" by (metis prod.exhaust)
    from snoc obtain srcs where srcs: "foldl count_row (m0, []) rows = (totals rows m0, map (source_item rows) srcs)"
      "distinct srcs" "set srcs = fst ` fst ` set rows" by blast
    have item: "source_item (rows @ [row]) = (source_item rows)(s := add_to_item status n (source_item rows s))"
      by (auto simp: row source_item_add)
    have "foldl count_row (m0, []) (rows @ [row]) =
        (totals (rows @ [row]) m0, update_item s (add_to_item status n) (map (source_item rows) srcs))"
      by (simp add: srcs(1) count_row_def row totals_add)
    moreover have "update_item s (add_to_item status n) (map (source_item rows) srcs) =
        map (source_item (rows @ [row])) (if s \<in> set srcs then srcs else srcs @ [s])"
    proof -
      have "update_item s (add_to_item status n) (map (source_item rows) srcs) =
          (if s \<in> set srcs then map ((source_item rows)(s := add_to_item status n (source_item rows s))) srcs
           else map (source_item rows) srcs @ [add_to_item status n (new_item s)])"
        by (rule update_item_map [OF srcs(2)]) (simp_all add: new_item_def)
      then show ?thesis
        using source_item_absent [of s rows] srcs(3) unfolding item by auto
    qed
    moreover have "distinct (if s \<in> set srcs then srcs else srcs @ [s])"
      "set (if s \<in> set srcs then srcs else srcs @ [s]) = fst ` fst ` set (rows @ [row])"
      using srcs(2,3) by (auto simp: row)
    ultimately show ?case by metis
  qed (simp add: assms)
  then show thesis using that by blast
qed

section \<open>The figures are the counts\<close>

lemma insort_key_map: "insort_key f (g x) (map g xs) = map g (insort_key (\<lambda>x. f (g x)) x xs)"
  by (induction xs) simp_all

lemma sort_key_map: "sort_key f (map g xs) = map g (sort_key (\<lambda>x. f (g x)) xs)"
  by (induction xs) (simp_all add: insort_key_map)

text \<open>The figures of a source, counted over the attempts.\<close>

definition source_figures :: "delivery_attempt list \<Rightarrow> string \<Rightarrow> source_metric" where
  "source_figures as source =
     (let n = \<lambda>status. int (length (filter (\<lambda>a. da_Source a = source \<and> da_Status a = status) as))
      in \<lparr>sm_Source = source, sm_Attempts = int (length (filter (\<lambda>a. da_Source a = source) as)),
          sm_Success = n st_success, sm_Failed = n st_failed, sm_Pending = n st_pending, sm_Skipped = n st_skipped,
          sm_SuccessRate = success_rate (n st_success) (n st_failed)\<rparr>)"

definition with_status :: "string \<Rightarrow> db \<Rightarrow> int" where
  "with_status status d = int (length (filter (\<lambda>a. da_Status a = status) (t_attempts d)))"

lemma with_rate_figures: "with_rate (source_item (source_status_counts d) s) = source_figures (t_attempts d) s"
  by (simp add: with_rate_def source_item_def source_figures_def source_status_counts_def tally_group_counts
      o_def Let_def conj_commute)

lemma success_rate_range:
  assumes "0 \<le> a" "0 \<le> b" shows "0 \<le> success_rate a b \<and> success_rate a b \<le> 100"
proof (cases "a + b > 0")
  case True
  then have "(of_int (a * 100) :: rat) \<le> 100 * of_int (a + b)" using assms by simp
  then show ?thesis using True assms by (simp add: success_rate_def divide_le_eq del: of_int_add)
qed (simp add: success_rate_def)

lemma success_rate_nonneg:
  assumes "0 \<le> a" "0 \<le> b"
  shows "success_rate a b = (if a + b = 0 then 0 else of_int (100 * a) / of_int (a + b))"
  using assms by (simp add: success_rate_def mult.commute)

lemma source_figures_written:
  "source_figures as =
     (\<lambda>source. let n = \<lambda>status. int (length (filter (\<lambda>a. da_Source a = source \<and> da_Status a = status) as))
        in \<lparr>sm_Source = source, sm_Attempts = int (length (filter (\<lambda>a. da_Source a = source) as)),
            sm_Success = n st_success, sm_Failed = n st_failed, sm_Pending = n st_pending, sm_Skipped = n st_skipped,
            sm_SuccessRate = (if n st_success + n st_failed = 0 then 0
              else of_int (100 * n st_success) / of_int (n st_success + n st_failed))\<rparr>)"
  by (rule ext) (simp add: source_figures_def Let_def success_rate_nonneg)

lemma statuses_partition:
  assumes "\<forall>a \<in> set as. da_Status a \<in> set sts" "distinct sts"
  shows "length as = (\<Sum>st\<leftarrow>sts. length (filter (\<lambda>a. da_Status a = st) as))"
  using assms(1)
proof (induction as)
  case (Cons a as)
  have "(\<Sum>st\<leftarrow>sts. length (filter (\<lambda>a. da_Status a = st) (a # as))) =
      (\<Sum>st\<leftarrow>sts. (if da_Status a = st then 1 else 0) + length (filter (\<lambda>a. da_Status a = st) as))"
    by (rule arg_cong [of _ _ sum_list], rule map_cong) simp_all
  also have "\<dots> = (\<Sum>st\<leftarrow>sts. if da_Status a = st then 1 else 0) + (\<Sum>st\<leftarrow>sts. length (filter (\<lambda>a. da_Status a = st) as))"
    by (rule sum_list_addf)
  also have "(\<Sum>st\<leftarrow>sts. if da_Status a = st then 1 else 0) = (1 :: nat)"
    using assms(2) Cons.prems by (simp add: sum_list_distinct_conv_sum_set)
  finally show ?case using Cons by simp
qed simp

text \<open>
  C30: the dashboard's figures are right. Whatever the order the groups come in, the totals are the
  numbers of attempts of each status, the breakdown has one entry per source that occurs, sorted,
  with the counts of that source, and every attempt that is not counted as a success, a failure,
  pending or skipped was cancelled or interrupted. The rate, of all attempts and of each source, is the
  percentage of successes among successes and failures, 0 when there are none of them (an
  exact quotient here, a \<open>float64\<close> in the code).
\<close>

theorem metrics_correct:
  assumes "DeliveryMetrics fault snap = Inr m" and "delivery_inv (snap 3)"
  shows "dm_TotalWebhooks m = int (length (t_webhooks (snap 0))) \<and>
    dm_DeadLetterCount m = int (length (filter (\<lambda>w. wh_Status w = st_dead_lettered) (t_webhooks (snap 0)))) \<and>
    dm_SuccessCount m = with_status st_success (snap 3) \<and> dm_FailedCount m = with_status st_failed (snap 3) \<and>
    dm_PendingCount m = with_status st_pending (snap 3) \<and> dm_SkippedCount m = with_status st_skipped (snap 3) \<and>
    dm_TotalAttempts m = int (length (t_attempts (snap 3))) \<and>
    dm_TotalAttempts m = dm_SuccessCount m + dm_FailedCount m + dm_PendingCount m + dm_SkippedCount m +
      with_status st_cancelled (snap 3) + with_status st_interrupted (snap 3) \<and>
    dm_SuccessRate m =
      (if dm_SuccessCount m + dm_FailedCount m = 0 then 0
       else of_int (100 * dm_SuccessCount m) / of_int (dm_SuccessCount m + dm_FailedCount m)) \<and>
    0 \<le> dm_SuccessRate m \<and> dm_SuccessRate m \<le> 100 \<and>
    dm_SourceBreakdown m =
      map (\<lambda>source.
        let n = \<lambda>status. int (length (filter (\<lambda>a. da_Source a = source \<and> da_Status a = status) (t_attempts (snap 3))))
        in \<lparr>sm_Source = source, sm_Attempts = int (length (filter (\<lambda>a. da_Source a = source) (t_attempts (snap 3)))),
            sm_Success = n st_success, sm_Failed = n st_failed, sm_Pending = n st_pending, sm_Skipped = n st_skipped,
            sm_SuccessRate = (if n st_success + n st_failed = 0 then 0
              else of_int (100 * n st_success) / of_int (n st_success + n st_failed))\<rparr>)
        (sort (remdups (map da_Source (t_attempts (snap 3)))))"
proof -
  let ?as = "t_attempts (snap 3)" and ?rows = "source_status_counts (snap 3)"
  let ?m0 = "\<lparr>dm_TotalWebhooks = int (length (t_webhooks (snap 0))), dm_TotalAttempts = 0, dm_SuccessCount = 0,
               dm_FailedCount = 0, dm_PendingCount = 0, dm_SkippedCount = 0,
               dm_DeadLetterCount = int (length (filter (\<lambda>w. wh_Status w = st_dead_lettered) (t_webhooks (snap 0)))),
               dm_SuccessRate = 0, dm_RecentFailures = recent_failures (snap 1),
               dm_RecentDeadLetters = recent_dead_letters (snap 2), dm_SourceBreakdown = []\<rparr>"
  have "totals [] ?m0 = ?m0" by (simp add: totals_def)
  then obtain srcs where loop: "foldl count_row (?m0, []) ?rows = (totals ?rows ?m0, map (source_item ?rows) srcs)"
    and srcs: "distinct srcs" "set srcs = fst ` fst ` set ?rows" by (rule count_rows)
  have m: "m = (totals ?rows ?m0)\<lparr>dm_SuccessRate := success_rate (dm_SuccessCount (totals ?rows ?m0)) (dm_FailedCount (totals ?rows ?m0)),
      dm_SourceBreakdown := sort_key sm_Source (map with_rate (map (source_item ?rows) srcs))\<rparr>"
    using assms(1) loop by (simp add: DeliveryMetrics_def split: if_splits)
  have counts: "dm_SuccessCount m = with_status st_success (snap 3)" "dm_FailedCount m = with_status st_failed (snap 3)"
    "dm_PendingCount m = with_status st_pending (snap 3)" "dm_SkippedCount m = with_status st_skipped (snap 3)"
    "dm_TotalAttempts m = int (length ?as)"
    by (simp_all add: m totals_def source_status_counts_def tally_group_counts with_status_def o_def)
  have "fst ` fst ` set ?rows = set (map da_Source ?as)"
    by (auto simp: source_status_counts_def group_counts_def image_image)
  then have "sort srcs = sort (remdups (map da_Source ?as))"
    using srcs by (intro sorted_distinct_set_unique) simp_all
  moreover have "sm_Source (with_rate (source_item ?rows s)) = s" for s by (simp add: with_rate_figures source_figures_def Let_def)
  ultimately have breakdown: "dm_SourceBreakdown m = map (source_figures ?as) (sort (remdups (map da_Source ?as)))"
    by (simp add: m sort_key_map with_rate_figures o_def)
  have "\<forall>a \<in> set ?as. da_Status a \<in> set attempt_statuses" using assms(2) by (auto simp: delivery_inv_def attempt_ok_def)
  moreover have "distinct attempt_statuses" by (simp add: attempt_statuses_def)
  ultimately have "length ?as = (\<Sum>st\<leftarrow>attempt_statuses. length (filter (\<lambda>a. da_Status a = st) ?as))"
    by (rule statuses_partition)
  then have "int (length ?as) = with_status st_success (snap 3) + with_status st_failed (snap 3) + with_status st_pending (snap 3) +
      with_status st_skipped (snap 3) + with_status st_cancelled (snap 3) + with_status st_interrupted (snap 3)"
    by (simp add: attempt_statuses_def with_status_def)
  moreover have "dm_SuccessRate m = success_rate (dm_SuccessCount m) (dm_FailedCount m)" by (simp add: m totals_def)
  moreover have "0 \<le> with_status st_success (snap 3)" "0 \<le> with_status st_failed (snap 3)" by (simp_all add: with_status_def)
  moreover have rate: "success_rate (dm_SuccessCount m) (dm_FailedCount m) =
      (if dm_SuccessCount m + dm_FailedCount m = 0 then 0
       else of_int (100 * dm_SuccessCount m) / of_int (dm_SuccessCount m + dm_FailedCount m))"
    by (rule success_rate_nonneg) (simp_all add: counts with_status_def)
  moreover have "0 \<le> dm_SuccessRate m \<and> dm_SuccessRate m \<le> 100"
    unfolding \<open>dm_SuccessRate m = _\<close> by (rule success_rate_range) (simp_all add: counts with_status_def)
  moreover have "dm_TotalWebhooks m = int (length (t_webhooks (snap 0)))"
    "dm_DeadLetterCount m = int (length (filter (\<lambda>w. wh_Status w = st_dead_lettered) (t_webhooks (snap 0))))"
    by (simp_all add: m totals_def)
  ultimately show ?thesis unfolding breakdown source_figures_written by (intro conjI) (simp_all only: counts)
qed

definition demo_figures :: db where
  "demo_figures = empty_db\<lparr>
     t_webhooks := [empty_webhook\<lparr>wh_ID := 1, wh_Source := ''b'', wh_Status := st_success\<rparr>,
                    empty_webhook\<lparr>wh_ID := 2, wh_Source := ''a'', wh_Status := st_pending\<rparr>],
     t_attempts := [empty_attempt\<lparr>da_ID := 1, da_WebhookID := 1, da_Source := ''b'', da_Status := st_failed, da_CompletedAt := Some 3\<rparr>,
                    empty_attempt\<lparr>da_ID := 2, da_WebhookID := 1, da_Source := ''b'', da_Status := st_success, da_CompletedAt := Some 4\<rparr>,
                    empty_attempt\<lparr>da_ID := 3, da_WebhookID := 2, da_Source := ''a'', da_Status := st_cancelled, da_CompletedAt := Some 5\<rparr>],
     seq_webhooks := 2, seq_attempts := 3\<rparr>"

lemma demo_figures_inv: "delivery_inv demo_figures"
  by (simp add: demo_figures_def empty_db_def empty_webhook_def empty_attempt_def delivery_inv_def keys_ok_def
      webhook_ok_def webhook_statuses_def attempt_ok_def attempt_statuses_def attempt_linked_def one_pending_def)

theorem metrics_correct_witness:
  "\<exists>m. DeliveryMetrics (\<lambda>_. False) (\<lambda>_. demo_figures) = Inr m \<and> dm_TotalAttempts m = 3 \<and> dm_SuccessCount m = 1 \<and>
     dm_SuccessRate m = 50 \<and> map sm_SuccessRate (dm_SourceBreakdown m) = [0, 50]"
proof -
  obtain m where m: "DeliveryMetrics (\<lambda>_. False) (\<lambda>_. demo_figures) = Inr m"
    by (simp add: DeliveryMetrics_def Let_def case_prod_unfold)
  have "sort (remdups (map da_Source (t_attempts demo_figures))) = [''a'', ''b'']"
    by (simp add: demo_figures_def empty_db_def)
  then show ?thesis
    using metrics_correct [OF m demo_figures_inv] m
    by (auto simp: with_status_def demo_figures_def empty_db_def empty_attempt_def)
qed

end
