(* ===== verification/Inspect.thy ===== *)
theory Inspect
  imports Indent BulkForm Metrics
begin

text \<open>
  \<open>internal/handler/inspect.go\<close>: the pages of one webhook and of one attempt, the view of a body as text,
  indented JSON or a hexadecimal dump, the way back to the list, and the download of a payload.

  The handlers take the operations of their store as arguments (\<open>webhookInspectStore\<close> and
  \<open>deliveryAttemptStore\<close>). A page is the name of its template and the data it is given; the headers
  set with every page are \<open>inspect_headers\<close>.
\<close>

section \<open>Bodies\<close>

record inspect_body =
  ib_ID :: string
  ib_Label :: string
  ib_Size :: int
  ib_Raw :: string
  ib_Formatted :: string
  ib_JSON :: bool
  ib_Binary :: bool
  ib_Truncated :: bool

text \<open>The zero value, of a body that is not shown.\<close>

definition no_body :: inspect_body where
  "no_body = \<lparr>ib_ID = [], ib_Label = [], ib_Size = 0, ib_Raw = [], ib_Formatted = [], ib_JSON = False,
     ib_Binary = False, ib_Truncated = False\<rparr>"

definition control_byte :: "char \<Rightarrow> bool" where
  "control_byte c \<longleftrightarrow> byte c < 32 \<and> byte c \<noteq> 10 \<and> byte c \<noteq> 13 \<and> byte c \<noteq> 9 \<or> byte c = 127"

definition inspectBody :: "string \<Rightarrow> string \<Rightarrow> bytes \<Rightarrow> inspect_body" where
  "inspectBody i label body =
     (let view = no_body\<lparr>ib_ID := i, ib_Label := label, ib_Size := int (length body),
                   ib_Binary := \<not> utf8_valid body \<or> list_ex control_byte body\<rparr>
      in if ib_Binary view then view\<lparr>ib_Raw := Dump (take 256 body)\<rparr>
         else
           (case json_indent body of
              None \<Rightarrow> view\<lparr>ib_Raw := body\<rparr>
            | Some t \<Rightarrow> view\<lparr>ib_Raw := body, ib_JSON := True, ib_Formatted := t\<rparr>))"

section \<open>Pages\<close>

record inspect_data =
  in_Webhook :: webhook
  in_Attempts :: "delivery_attempt list"
  in_CSRFToken :: string
  in_Headers :: "string \<rightharpoonup> string list"
  in_HeadersError :: bool
  in_Payload :: inspect_body
  in_Response :: inspect_body
  in_Attempt :: "delivery_attempt option"
  in_ReturnURL :: string
  in_InspectURL :: string

definition no_data :: inspect_data where
  "no_data = \<lparr>in_Webhook = empty_webhook, in_Attempts = [], in_CSRFToken = [], in_Headers = Map.empty,
     in_HeadersError = False, in_Payload = no_body, in_Response = no_body, in_Attempt = None,
     in_ReturnURL = [], in_InspectURL = []\<rparr>"

record inspect_page =
  ip_Templates :: string
  ip_Name :: string
  ip_Header :: "(string \<times> string) list"
  ip_Data :: inspect_data

definition inspect_headers :: "(string \<times> string) list" where
  "inspect_headers = [(''Content-Type'', ''text/html; charset=utf-8''), (''Cache-Control'', ''no-store'')]"

definition renderInspect :: "string \<Rightarrow> inspect_data \<Rightarrow> inspect_page rendered" where
  "renderInspect name data =
     Rendered \<lparr>ip_Templates = (if in_Attempt data \<noteq> None then ''attempt'' else ''inspect''), ip_Name = name,
       ip_Header = inspect_headers, ip_Data = data\<rparr>"

definition NotFound :: reply where "NotFound = http_Error ''404 page not found'' 404"

text \<open>
  The page to return to: the target without its empty fragment (\<open>RequestURI\<close>), if it is the
  dashboard or the page of dead letters.
\<close>

definition return_url :: "string \<Rightarrow> string" where
  "return_url target =
     (let u = before (CHR ''#'') target; frag = drop (length u + 1) target
      in if isLocalRedirect target \<and> frag = [] \<and>
            unescape_path (before (CHR ''?'') u) \<in> {Some ''/dashboard'', Some ''/dlq''}
         then u else ''/dashboard'')"

definition setInspectNavigation :: "request \<Rightarrow> inspect_data \<Rightarrow> inspect_data" where
  "setInspectNavigation r data =
     (let ret = return_url (get_value (rq_query r) ''return_to'')
      in data\<lparr>in_ReturnURL := ret,
              in_InspectURL := ''/webhooks/'' @ FormatInt (wh_ID (in_Webhook data)) @ ''?return_to='' @ QueryEscape ret\<rparr>)"

text \<open>The headers kept with a row, when there are any, and whether they could not be decoded.\<close>

definition decode_headers :: "string \<Rightarrow> inspect_data \<Rightarrow> inspect_data" where
  "decode_headers text data =
     (if text = [] then data
      else (case unmarshal_header text of
              Some h \<Rightarrow> data\<lparr>in_Headers := h\<rparr>
            | None \<Rightarrow> data\<lparr>in_HeadersError := True\<rparr>))"

definition findInspectWebhook :: "(int \<Rightarrow> go_error + webhook) \<Rightarrow> request \<Rightarrow> reply + webhook" where
  "findInspectWebhook find_by_id r =
     (case Atoi (PathValue r ''id'') of
        None \<Rightarrow> Inl (http_Error ''Invalid ID'' 400)
      | Some k \<Rightarrow>
          if k \<le> 0 then Inl (http_Error ''Invalid ID'' 400)
          else
            (case find_by_id k of
               Inl e \<Rightarrow> Inl (if e = ErrNotFound then NotFound else unavailable)
             | Inr w \<Rightarrow> Inr w))"

text \<open>Whether the response of the newest attempt that completed and was not skipped was cut short.\<close>

fun latest_truncated :: "delivery_attempt list \<Rightarrow> bool" where
  "latest_truncated [] = False"
| "latest_truncated (a # as) =
     (if da_CompletedAt a \<noteq> None \<and> da_Status a \<noteq> st_skipped then da_ResponseTruncated a else latest_truncated as)"

definition inspectDeliveryData ::
    "(int \<Rightarrow> go_error + delivery_attempt list) \<Rightarrow> webhook \<Rightarrow> string \<Rightarrow> go_error + inspect_data" where
  "inspectDeliveryData attempts_of w csrf =
     (case attempts_of (wh_ID w) of
        Inl e \<Rightarrow> Inl e
      | Inr attempts \<Rightarrow>
          (let response = inspectBody ''response'' ''Latest saved response'' (wh_Response w)
           in Inr (no_data\<lparr>in_Webhook := w, in_Attempts := attempts, in_CSRFToken := csrf,
                in_Response := (if wh_Response w \<noteq> [] then response\<lparr>ib_Truncated := latest_truncated attempts\<rparr> else response)\<rparr>)))"

definition InspectWebhook ::
    "(int \<Rightarrow> go_error + webhook) \<Rightarrow> (int \<Rightarrow> go_error + delivery_attempt list) \<Rightarrow> request \<Rightarrow> inspect_page rendered" where
  "InspectWebhook find_by_id attempts_of r =
     (case findInspectWebhook find_by_id r of
        Inl rp \<Rightarrow> Refused rp
      | Inr w \<Rightarrow>
          (case inspectDeliveryData attempts_of w (rq_csrf r) of
             Inl e \<Rightarrow> Refused unavailable
           | Inr data \<Rightarrow>
               renderInspect ''base''
                 (decode_headers (wh_Headers w)
                    (setInspectNavigation r (data\<lparr>in_Payload := inspectBody ''payload'' ''Payload'' (wh_Payload w)\<rparr>)))))"

definition InspectDeliveryPartial ::
    "(int \<Rightarrow> go_error + webhook) \<Rightarrow> (int \<Rightarrow> go_error + delivery_attempt list) \<Rightarrow> request \<Rightarrow> inspect_page rendered" where
  "InspectDeliveryPartial find_by_id attempts_of r =
     (case findInspectWebhook find_by_id r of
        Inl rp \<Rightarrow> Refused rp
      | Inr w \<Rightarrow>
          (case inspectDeliveryData attempts_of w (rq_csrf r) of
             Inl e \<Rightarrow> Refused unavailable
           | Inr data \<Rightarrow> renderInspect ''inspect-delivery'' (setInspectNavigation r data)))"

definition InspectDeliveryAttempt ::
    "(int \<Rightarrow> int \<Rightarrow> go_error + delivery_attempt) \<Rightarrow> request \<Rightarrow> inspect_page rendered" where
  "InspectDeliveryAttempt attempt_by_id r =
     (case (Atoi (PathValue r ''id''), Atoi (PathValue r ''attemptID'')) of
        (Some webhook, Some k) \<Rightarrow>
          if webhook \<le> 0 \<or> k \<le> 0 then Refused (http_Error ''Invalid ID'' 400)
          else
            (case attempt_by_id webhook k of
               Inl e \<Rightarrow> Refused (if e = ErrNotFound then NotFound else unavailable)
             | Inr a \<Rightarrow>
                 (let data = setInspectNavigation r
                        (no_data\<lparr>in_Webhook := empty_webhook\<lparr>wh_ID := webhook\<rparr>, in_Attempt := Some a, in_CSRFToken := rq_csrf r,
                           in_Response := (inspectBody ''response'' ''Response body'' (da_ResponseBody a))\<lparr>ib_Truncated := da_ResponseTruncated a\<rparr>\<rparr>)
                  in renderInspect ''base'' (decode_headers (da_ResponseHeaders a) data)))
      | _ \<Rightarrow> Refused (http_Error ''Invalid ID'' 400))"

definition DownloadWebhookPayload :: "(int \<Rightarrow> go_error + webhook) \<Rightarrow> request \<Rightarrow> reply" where
  "DownloadWebhookPayload find_by_id r =
     (case findInspectWebhook find_by_id r of
        Inl rp \<Rightarrow> rp
      | Inr w \<Rightarrow>
          \<lparr>rp_status = 200,
           rp_header =
             [(''Content-Type'', ''application/octet-stream''),
              (''Content-Disposition'', ''attachment; filename='' @ quoted (''webhook-'' @ FormatInt (wh_ID w) @ ''-payload.bin'')),
              (''Content-Length'', FormatInt (int (length (wh_Payload w)))),
              (''X-Content-Type-Options'', ''nosniff''), (''Cache-Control'', ''no-store'')],
           rp_cookies = [], rp_body = wh_Payload w\<rparr>)"

section \<open>The view of a body\<close>

text \<open>
  C28: a body is shown as it is. Its size is its length; it counts as binary exactly when it is not
  UTF-8 or has a control byte other than tab, line feed and carriage return, and then its first 256
  bytes are dumped; otherwise the raw view is the body, byte for byte, and the formatted view, if it
  is JSON, differs from it in nothing but white space outside string literals.
\<close>

theorem body_shown_faithfully:
  "let view = inspectBody i label body
   in ib_Size view = int (length body) \<and>
      (ib_Binary view \<longleftrightarrow> \<not> (utf8_valid body \<and> list_all (\<lambda>c. \<not> control_byte c) body)) \<and>
      ib_Raw view = (if ib_Binary view then Dump (take 256 body) else body) \<and>
      ib_JSON view = (\<not> ib_Binary view \<and> json_indent body \<noteq> None) \<and>
      (if ib_JSON view then json_compact False False (ib_Formatted view) = json_compact False False body else ib_Formatted view = [])"
proof (cases "\<not> utf8_valid body \<or> list_ex control_byte body")
  case True
  then show ?thesis by (simp add: inspectBody_def no_body_def list_ex_iff list_all_iff)
next
  case False
  then show ?thesis using json_indent_keeps [of body]
    by (cases "json_indent body") (simp_all add: inspectBody_def no_body_def list_ex_iff list_all_iff)
qed

section \<open>The way back\<close>

lemma return_url_local:
  "isLocalRedirect (return_url target) \<and> CHR ''#'' \<notin> set (return_url target) \<and>
   unescape_path (before (CHR ''?'') (return_url target)) \<in> {Some ''/dashboard'', Some ''/dlq''}"
proof (cases "return_url target = ''/dashboard''")
  case True
  show ?thesis unfolding True by code_simp
next
  case False
  let ?u = "before (CHR ''#'') target"
  have u: "return_url target = ?u" "isLocalRedirect target"
    "unescape_path (before (CHR ''?'') ?u) \<in> {Some ''/dashboard'', Some ''/dlq''}"
    using False by (auto simp: return_url_def Let_def split: if_splits)
  then obtain v where v: "target = CHR ''/'' # v" "\<not> starts_with ''//'' target" "parses_rooted target"
    by (cases target) (auto simp: isLocalRedirect_def split: if_splits)
  have no_frag: "CHR ''#'' \<notin> set ?u" by (auto simp: before_def dest: set_takeWhileD)
  then have same: "before (CHR ''#'') ?u = ?u" by (simp add: before_def takeWhile_eq_all_conv)
  have "?u \<noteq> []" "starts_with ''/'' ?u" using v(1) by (simp_all add: before_def)
  moreover have "\<not> starts_with ''//'' ?u"
    using v(1,2) by (cases v) (auto simp: before_def)
  moreover have "parses_rooted ?u" using v(3) same by (simp add: parses_rooted_def Let_def)
  ultimately show ?thesis using u no_frag by (simp add: isLocalRedirect_def)
qed

lemma return_url_idem: "return_url (return_url target) = return_url target"
proof -
  have "\<forall>c \<in> set (return_url target). c \<noteq> CHR ''#''" using return_url_local [of target] by blast
  then have "before (CHR ''#'') (return_url target) = return_url target" by (simp add: before_def takeWhile_eq_all_conv)
  then show ?thesis using return_url_local [of target] by (simp add: return_url_def [of "return_url target"])
qed

text \<open>
  The way back from a page survives it. Whatever \<open>return_to\<close> a request carries, the page links back
  to the dashboard or to the dead letters, without a fragment, scheme or host, and the page's own
  address, followed as a request, links back to the same place.
\<close>

theorem navigation_stable:
  assumes "in_InspectURL (setInspectNavigation r data) = ''/webhooks/'' @ FormatInt (wh_ID (in_Webhook data)) @ ''?'' @ q"
    and "rq_query r' = ParseQuery q"
  shows "in_ReturnURL (setInspectNavigation r' data') = in_ReturnURL (setInspectNavigation r data) \<and>
    stays_local (in_ReturnURL (setInspectNavigation r data)) \<and>
    unescape_path (before (CHR ''?'') (in_ReturnURL (setInspectNavigation r data))) \<in> {Some ''/dashboard'', Some ''/dlq''}"
proof -
  let ?ret = "return_url (get_value (rq_query r) ''return_to'')"
  have "q = ''return_to='' @ QueryEscape ?ret"
    using assms(1) by (simp add: setInspectNavigation_def Let_def)
  moreover have "QueryEscape ''return_to'' = ''return_to''" by code_simp
  ultimately have "q = join_amp (map encode_pair [(''return_to'', ?ret)])" by (simp add: encode_pair_def)
  then have "get_value (rq_query r') ''return_to'' = ?ret" by (simp add: assms(2) ParseQuery_pairs del: join_amp.simps list.map)
  then have "in_ReturnURL (setInspectNavigation r' data') = ?ret"
    by (simp add: setInspectNavigation_def Let_def return_url_idem)
  moreover have "isLocalRedirect ?ret" using return_url_local by blast
  then have "stays_local ?ret" by (simp add: isLocalRedirect_def stays_local_def split: if_splits)
  ultimately show ?thesis using return_url_local by (simp add: setInspectNavigation_def Let_def)
qed

definition demo_back :: request where
  "demo_back = no_request\<lparr>rq_query := [(''return_to'', [''/dlq?page=2&q=a'' @ [CHR ''%''] @ ''2Fb''])]\<rparr>"

theorem navigation_stable_witness:
  "\<exists>q. in_InspectURL (setInspectNavigation demo_back no_data) = ''/webhooks/'' @ FormatInt 0 @ ''?'' @ q \<and>
     in_ReturnURL (setInspectNavigation (no_request\<lparr>rq_query := ParseQuery q\<rparr>) no_data) =
       ''/dlq?page=2&q=a'' @ [CHR ''%''] @ ''2Fb''"
proof -
  have ret: "return_url (get_value (rq_query demo_back) ''return_to'') = ''/dlq?page=2&q=a'' @ [CHR ''%''] @ ''2Fb''" by code_simp
  have id: "wh_ID (in_Webhook no_data) = 0" by (simp add: no_data_def empty_webhook_def)
  obtain q where q: "in_InspectURL (setInspectNavigation demo_back no_data) = ''/webhooks/'' @ FormatInt (wh_ID (in_Webhook no_data)) @ ''?'' @ q"
    by (rule that [of "''return_to='' @ QueryEscape (return_url (get_value (rq_query demo_back) ''return_to''))"])
      (simp add: setInspectNavigation_def Let_def)
  have "in_ReturnURL (setInspectNavigation demo_back no_data) = ''/dlq?page=2&q=a'' @ [CHR ''%''] @ ''2Fb''"
    using ret by (simp add: setInspectNavigation_def Let_def)
  then show ?thesis
    using navigation_stable [OF q, of "no_request\<lparr>rq_query := ParseQuery q\<rparr>" no_data] q id by auto
qed

section \<open>The interface of the pages\<close>

lemma latest_truncated_find:
  "latest_truncated as =
     (case find (\<lambda>a. da_CompletedAt a \<noteq> None \<and> da_Status a \<noteq> st_skipped) as of None \<Rightarrow> False | Some a \<Rightarrow> da_ResponseTruncated a)"
  by (induction as) auto

text \<open>
  \<open>webhookInspectStore\<close> and \<open>deliveryAttemptStore\<close>: what is found has the key asked for, the
  attempts are those of the webhook, newest first, and an attempt is one of its webhook.
\<close>

locale inspect_store =
  fixes find_by_id :: "int \<Rightarrow> go_error + webhook"
    and attempts_of :: "int \<Rightarrow> go_error + delivery_attempt list"
    and attempt_by_id :: "int \<Rightarrow> int \<Rightarrow> go_error + delivery_attempt"
  assumes found_id: "find_by_id k = Inr w \<Longrightarrow> wh_ID w = k"
    and own_attempts: "attempts_of k = Inr as \<Longrightarrow> a \<in> set as \<Longrightarrow> da_WebhookID a = k"
    and newest_attempts: "attempts_of k = Inr as \<Longrightarrow> sorted (rev (map da_ID as))"
    and own_attempt: "attempt_by_id k j = Inr a \<Longrightarrow> da_WebhookID a = k \<and> da_ID a = j"
begin

lemma find_cases:
  "case findInspectWebhook find_by_id r of
     Inr w \<Rightarrow> Atoi (PathValue r ''id'') = Some (wh_ID w) \<and> 0 < wh_ID w \<and> find_by_id (wh_ID w) = Inr w
   | Inl rp \<Rightarrow>
       (case Atoi (PathValue r ''id'') of
          None \<Rightarrow> rp_status rp = 400
        | Some k \<Rightarrow> if k \<le> 0 then rp_status rp = 400
                   else (\<exists>e. find_by_id k = Inl e \<and> rp_status rp = (if e = ErrNotFound then 404 else 503)))"
  by (auto simp: findInspectWebhook_def NotFound_def unavailable_def split: option.split sum.split dest: found_id)

lemma page_of_webhook:
  assumes "findInspectWebhook find_by_id r = Inr w" and "InspectWebhook find_by_id attempts_of r = Rendered page"
  shows "in_Webhook (ip_Data page) = w \<and> attempts_of (wh_ID w) = Inr (in_Attempts (ip_Data page)) \<and>
    (\<forall>a \<in> set (in_Attempts (ip_Data page)). da_WebhookID a = wh_ID w) \<and>
    sorted (rev (map da_ID (in_Attempts (ip_Data page)))) \<and>
    in_Payload (ip_Data page) = inspectBody ''payload'' ''Payload'' (wh_Payload w) \<and>
    ib_Truncated (in_Response (ip_Data page)) = (wh_Response w \<noteq> [] \<and> latest_truncated (in_Attempts (ip_Data page)))"
proof -
  obtain as where as: "attempts_of (wh_ID w) = Inr as"
    using assms by (cases "attempts_of (wh_ID w)") (simp_all add: InspectWebhook_def inspectDeliveryData_def)
  have "\<not> ib_Truncated (inspectBody i l b)" for i l b
    by (simp add: inspectBody_def no_body_def Let_def split: option.split)
  then show ?thesis
    using assms as own_attempts [OF as] newest_attempts [OF as]
    by (auto simp: InspectWebhook_def inspectDeliveryData_def renderInspect_def decode_headers_def setInspectNavigation_def
        no_data_def Let_def split: option.splits if_splits)
qed

lemma attempt_page:
  assumes "InspectDeliveryAttempt attempt_by_id r = Rendered page"
  shows "\<exists>k j a. Atoi (PathValue r ''id'') = Some k \<and> Atoi (PathValue r ''attemptID'') = Some j \<and> 0 < k \<and> 0 < j \<and>
    attempt_by_id k j = Inr a \<and> in_Attempt (ip_Data page) = Some a \<and> da_WebhookID a = k \<and> da_ID a = j"
  using assms
  by (auto simp: InspectDeliveryAttempt_def renderInspect_def decode_headers_def setInspectNavigation_def no_data_def Let_def
      split: option.splits if_splits sum.splits dest: own_attempt)

end

interpretation db_inspect: inspect_store "\<lambda>k. FindByID b k d" "\<lambda>k. DeliveryAttemptsByWebhook c k e" "\<lambda>k j. DeliveryAttemptByID c' k j e'"
  for b d c e c' e'
proof unfold_locales
  show "FindByID b k d = Inr w \<Longrightarrow> wh_ID w = k" for k w
    by (auto simp: FindByID_def dest: find_webhook_Some split: if_splits option.splits)
  show "DeliveryAttemptsByWebhook c k e = Inr as \<Longrightarrow> a \<in> set as \<Longrightarrow> da_WebhookID a = k" for k as a
    by (auto simp: DeliveryAttemptsByWebhook_def exec_def omit_response_def split: if_splits)
  show "sorted (rev (map da_ID as))" if "DeliveryAttemptsByWebhook c k e = Inr as" for k as
  proof -
    have "da_ID \<circ> omit_response = da_ID" by (simp add: fun_eq_iff omit_response_def)
    then show ?thesis using that by (auto simp: DeliveryAttemptsByWebhook_def exec_def rev_map [symmetric] split: if_splits)
  qed
  show "DeliveryAttemptByID c' k j e' = Inr a \<Longrightarrow> da_WebhookID a = k \<and> da_ID a = j" for k j a
    by (auto simp: DeliveryAttemptByID_def dest!: find_Some_in split: if_splits option.splits)
qed

text \<open>A key of a row, as a path names it.\<close>

definition positive_key :: "string \<Rightarrow> int option" where
  "positive_key s = (case Atoi s of Some k \<Rightarrow> if 0 < k then Some k else None | None \<Rightarrow> None)"

lemma inspect_webhook_page:
  "case InspectWebhook (\<lambda>k. FindByID b k d) (\<lambda>k. DeliveryAttemptsByWebhook c k e) r of
      Rendered page \<Rightarrow> \<not> b \<and> \<not> c \<and>
        (\<exists>k w. positive_key (PathValue r ''id'') = Some k \<and> find_webhook k d = Some w \<and> in_Webhook (ip_Data page) = w \<and>
           in_Attempts (ip_Data page) = map omit_response (rev (sort_key da_ID (filter (\<lambda>a. da_WebhookID a = k) (t_attempts e)))) \<and>
           in_Payload (ip_Data page) = inspectBody ''payload'' ''Payload'' (wh_Payload w) \<and>
           ib_Truncated (in_Response (ip_Data page)) =
             (wh_Response w \<noteq> [] \<and>
              (case find (\<lambda>a. da_CompletedAt a \<noteq> None \<and> da_Status a \<noteq> st_skipped) (in_Attempts (ip_Data page)) of
                 None \<Rightarrow> False | Some a \<Rightarrow> da_ResponseTruncated a)))
    | Refused rp \<Rightarrow>
        (case positive_key (PathValue r ''id'') of
           None \<Rightarrow> rp_status rp = 400
         | Some k \<Rightarrow> if b then rp_status rp = 503
                     else if find_webhook k d = None then rp_status rp = 404
                     else c \<and> rp_status rp = 503)"
proof (cases "findInspectWebhook (\<lambda>k. FindByID b k d) r")
  case (Inl rp)
  then show ?thesis using db_inspect.find_cases [of b d r]
    by (auto simp: InspectWebhook_def FindByID_def positive_key_def split: option.splits if_splits)
next
  case (Inr w)
  then have k: "positive_key (PathValue r ''id'') = Some (wh_ID w)" "find_webhook (wh_ID w) d = Some w" "\<not> b"
    using db_inspect.find_cases [of b d r] by (auto simp: FindByID_def positive_key_def split: option.splits if_splits)
  show ?thesis
  proof (cases "InspectWebhook (\<lambda>k. FindByID b k d) (\<lambda>k. DeliveryAttemptsByWebhook c k e) r")
    case (Refused rp)
    then show ?thesis using Inr k
      by (auto simp: InspectWebhook_def inspectDeliveryData_def DeliveryAttemptsByWebhook_def exec_def unavailable_def
          renderInspect_def Let_def split: if_splits)
  next
    case (Rendered page)
    from db_inspect.page_of_webhook [OF Inr Rendered] k Rendered show ?thesis
      by (auto simp: latest_truncated_find DeliveryAttemptsByWebhook_def exec_def split: if_splits)
  qed
qed

lemma DeliveryAttemptByID_find:
  "case DeliveryAttemptByID c k j e of
     Inl x \<Rightarrow> if c then x = ErrDatabase else x = ErrNotFound \<and> (\<nexists>a. a \<in> set (t_attempts e) \<and> da_WebhookID a = k \<and> da_ID a = j)
   | Inr a \<Rightarrow> \<not> c \<and> a \<in> set (t_attempts e) \<and> da_WebhookID a = k \<and> da_ID a = j"
  by (auto simp: DeliveryAttemptByID_def find_None_iff dest!: find_Some_in split: option.split)

lemma inspect_attempt_page:
  "case InspectDeliveryAttempt (\<lambda>k j. DeliveryAttemptByID c k j e) r of
      Rendered page \<Rightarrow> \<not> c \<and>
        (\<exists>k j a. positive_key (PathValue r ''id'') = Some k \<and> positive_key (PathValue r ''attemptID'') = Some j \<and>
           in_Attempt (ip_Data page) = Some a \<and> a \<in> set (t_attempts e) \<and> da_WebhookID a = k \<and> da_ID a = j \<and>
           in_Response (ip_Data page) =
             (inspectBody ''response'' ''Response body'' (da_ResponseBody a))\<lparr>ib_Truncated := da_ResponseTruncated a\<rparr>)
    | Refused rp \<Rightarrow>
        (case (positive_key (PathValue r ''id''), positive_key (PathValue r ''attemptID'')) of
           (Some k, Some j) \<Rightarrow>
             if c then rp_status rp = 503
             else rp_status rp = 404 \<and> (\<nexists>a. a \<in> set (t_attempts e) \<and> da_WebhookID a = k \<and> da_ID a = j)
         | _ \<Rightarrow> rp_status rp = 400)"
proof (cases "InspectDeliveryAttempt (\<lambda>k j. DeliveryAttemptByID c k j e) r")
  case (Refused rp)
  then show ?thesis
    using DeliveryAttemptByID_find [where c = c and e = e and k = "the (Atoi (PathValue r ''id''))"
        and j = "the (Atoi (PathValue r ''attemptID''))"]
    by (auto simp: InspectDeliveryAttempt_def NotFound_def unavailable_def renderInspect_def positive_key_def Let_def
        split: option.splits if_splits sum.splits)
next
  case (Rendered page)
  obtain k j a where a: "Atoi (PathValue r ''id'') = Some k" "Atoi (PathValue r ''attemptID'') = Some j" "0 < k" "0 < j"
    "DeliveryAttemptByID c k j e = Inr a" "in_Attempt (ip_Data page) = Some a"
    using db_inspect.attempt_page [OF Rendered] by blast
  have "in_Response (ip_Data page) =
      (inspectBody ''response'' ''Response body'' (da_ResponseBody a))\<lparr>ib_Truncated := da_ResponseTruncated a\<rparr>"
    using Rendered a(1-5)
    by (auto simp: InspectDeliveryAttempt_def renderInspect_def decode_headers_def setInspectNavigation_def no_data_def Let_def
        split: option.splits if_splits)
  then show ?thesis using Rendered a DeliveryAttemptByID_find [where c = c and e = e and k = k and j = j] by (auto simp: positive_key_def)
qed

text \<open>
  C29: a page shows the webhook of its address and its attempts. What is rendered is the stored row
  and its attempts, newest first, with the mark of a response cut short taken from the attempt
  that left it; the page of an attempt shows that attempt of that webhook with its response. Both
  refuse exactly when they must, and with the right answer: 400 for a key that is not a positive
  number; else 503 when the row cannot be looked up, 404 when there is none, and 503 when the
  attempts of the webhook found cannot be read.
\<close>

theorem inspect_page_correct:
  "(case InspectWebhook (\<lambda>k. FindByID b k d) (\<lambda>k. DeliveryAttemptsByWebhook c k e) r of
      Rendered page \<Rightarrow> \<not> b \<and> \<not> c \<and>
        (\<exists>k w. positive_key (PathValue r ''id'') = Some k \<and> find_webhook k d = Some w \<and> in_Webhook (ip_Data page) = w \<and>
           in_Attempts (ip_Data page) = map omit_response (rev (sort_key da_ID (filter (\<lambda>a. da_WebhookID a = k) (t_attempts e)))) \<and>
           in_Payload (ip_Data page) = inspectBody ''payload'' ''Payload'' (wh_Payload w) \<and>
           ib_Truncated (in_Response (ip_Data page)) =
             (wh_Response w \<noteq> [] \<and>
              (case find (\<lambda>a. da_CompletedAt a \<noteq> None \<and> da_Status a \<noteq> st_skipped) (in_Attempts (ip_Data page)) of
                 None \<Rightarrow> False | Some a \<Rightarrow> da_ResponseTruncated a)))
    | Refused rp \<Rightarrow>
        (case positive_key (PathValue r ''id'') of
           None \<Rightarrow> rp_status rp = 400
         | Some k \<Rightarrow> if b then rp_status rp = 503
                     else if find_webhook k d = None then rp_status rp = 404
                     else c \<and> rp_status rp = 503)) \<and>
   (case InspectDeliveryAttempt (\<lambda>k j. DeliveryAttemptByID c k j e) r of
      Rendered page \<Rightarrow> \<not> c \<and>
        (\<exists>k j a. positive_key (PathValue r ''id'') = Some k \<and> positive_key (PathValue r ''attemptID'') = Some j \<and>
           in_Attempt (ip_Data page) = Some a \<and> a \<in> set (t_attempts e) \<and> da_WebhookID a = k \<and> da_ID a = j \<and>
           in_Response (ip_Data page) =
             (inspectBody ''response'' ''Response body'' (da_ResponseBody a))\<lparr>ib_Truncated := da_ResponseTruncated a\<rparr>)
    | Refused rp \<Rightarrow>
        (case (positive_key (PathValue r ''id''), positive_key (PathValue r ''attemptID'')) of
           (Some k, Some j) \<Rightarrow>
             if c then rp_status rp = 503
             else rp_status rp = 404 \<and> (\<nexists>a. a \<in> set (t_attempts e) \<and> da_WebhookID a = k \<and> da_ID a = j)
         | _ \<Rightarrow> rp_status rp = 400))"
  by (intro conjI inspect_webhook_page inspect_attempt_page)

section \<open>What is stored is shown\<close>

lemma inspect_stored:
  assumes "findInspectWebhook find_by_id r = Inr w" and "attempts_of (wh_ID w) = Inr as"
    and "wh_Headers w = marshal_header h" "header_utf8 h" "distinct (map fst h)"
  obtains data where "InspectWebhook find_by_id attempts_of r =
      Rendered \<lparr>ip_Templates = ''inspect'', ip_Name = ''base'', ip_Header = inspect_headers, ip_Data = data\<rparr>"
    "in_Webhook data = w" "in_Headers data = map_of h" "\<not> in_HeadersError data" "in_Attempts data = as"
    "in_Payload data = inspectBody ''payload'' ''Payload'' (wh_Payload w)"
proof -
  have "marshal_header h \<noteq> []" by (simp add: marshal_header_def)
  then show thesis
    using that unmarshal_marshal [OF assms(4,5)]
    by (simp add: InspectWebhook_def assms(1,2) inspectDeliveryData_def renderInspect_def decode_headers_def
        setInspectNavigation_def no_data_def assms(3) Let_def)
qed

lemma download_stored:
  "findInspectWebhook find_by_id r = Inr w \<Longrightarrow> rp_body (DownloadWebhookPayload find_by_id r) = wh_Payload w"
  by (simp add: DownloadWebhookPayload_def)

text \<open>A webhook that was answered 202 is in the database as it came, under the next key.\<close>

lemma received_row:
  assumes "db_inv d" and "ReceiveWebhook maxBodyBytes env r body d = (rp, d')" and "rp_status rp = 202"
  obtains w where "find_webhook (seq_webhooks d + 1) d' = Some w" "wh_Headers w = marshal_header (rq_header r)"
    "wh_Payload w = hb_bytes body" "wh_ID w = seq_webhooks d + 1"
  using assms(2)
proof (cases rule: Receive_cases)
  case rejected
  then show ?thesis using assms(3) by auto
next
  case (stored source payload)
  let ?h = "received_webhook source (rq_header r) payload (hk_now env)"
  have payload: "payload = hb_bytes body" using stored(3) by (auto simp: read_body_def split: if_splits option.splits)
  obtain w where save: "Save (hk_save env) ?h d = (Inr w, d')"
    using stored(6) assms(3) by (auto simp: store_webhook_def split: sum.splits prod.splits)
  note s = Save_Inr [OF assms(1) received_webhook_ok(1,2) save]
  show ?thesis using s(1,4) payload by (intro that [of w]) (simp_all add: received_webhook_def)
qed

definition demo_plain_hook :: request where
  "demo_plain_hook = demo_hook\<lparr>rq_header := demo_header\<rparr>"

lemma demo_plain_accepted:
  "rp_status (fst (ReceiveWebhook 100 demo_hook_env demo_plain_hook demo_hook_body empty_db)) = 202"
proof -
  have "GetForwardingRule False ''stripe'' empty_db = Inl ErrNotFound"
    by (simp add: GetForwardingRule_def empty_db_def)
  moreover have "read_body 100 demo_hook_body = Payload ''{}''" by (simp add: read_body_def demo_hook_body_def)
  moreover have "rq_path demo_plain_hook = rq_path demo_hook" by (simp add: demo_plain_hook_def)
  ultimately show ?thesis
    using demo_hook_source
    by (simp add: ReceiveWebhook_def demo_hook_env_def Let_def store_webhook_def Save_def transaction_def
        insert_webhook_def insert_row_def received_webhook_def empty_db_def empty_webhook_def)
qed

end
