(* ===== verification/Routes.thy ===== *)
theory Routes
  imports Inspect
begin

text \<open>
  The routes of \<open>cmd/webhookhub/main.go\<close> and how \<open>http.ServeMux\<close> finds one: a path is cleaned, its
  segments are decoded and compared with the patterns, a request for another path than the cleaned
  one is redirected, \<open>HEAD\<close> is served as \<open>GET\<close>, and a path that only other methods have is answered
  405. \<open>CONNECT\<close>, whose path is not cleaned, is left out.

  The lemmas show that the table is unambiguous, so the order of registration does not matter, and
  that its paths, and no others, reach their handlers.
\<close>

datatype segment = Lit string | Wild string

text \<open>The handler of a route, and what stands before it.\<close>

datatype endpoint =
    Static | Healthz | Readyz | LoginPage | ReceiveHook
  | Index | Dashboard | DeadLetters | ApiList | Replay | BulkReplay | Delete
  | MetricsPanel | ListPanel | InspectPage | AttemptPage | PayloadDownload | DeliveryPanel
  | ForwardingPage | Pause bool | SaveRule | EditRule | UpdateRule | DeleteRule | LogoutPage

datatype access = Public | Protected | ProtectedMutation

text \<open>The levels are ordered by what they ask of a request.\<close>

fun demands :: "access \<Rightarrow> nat" where
  "demands Public = 0"
| "demands Protected = 1"
| "demands ProtectedMutation = 2"

lemma demands_eq: "demands a = demands b \<longleftrightarrow> a = b"
  by (cases a; cases b) simp_all

instantiation access :: linorder
begin

definition less_eq_access :: "access \<Rightarrow> access \<Rightarrow> bool" where
  "a \<le> b \<longleftrightarrow> demands a \<le> demands b"

definition less_access :: "access \<Rightarrow> access \<Rightarrow> bool" where
  "a < b \<longleftrightarrow> demands a < demands b"

instance
  by standard (auto simp: less_eq_access_def less_access_def simp flip: demands_eq)

end

lemma Protected_le: "Protected \<le> a \<longleftrightarrow> a \<noteq> Public"
  by (cases a) (simp_all add: less_eq_access_def)

text \<open>\<open>rt_subtree\<close> is a pattern that ends in a slash; \<open>{$}\<close>, the end of the path, is the segment \<open>/\<close>.\<close>

record route =
  rt_Method :: string
  rt_Segments :: "segment list"
  rt_Subtree :: bool
  rt_Access :: access
  rt_Endpoint :: endpoint

definition exact :: "string \<Rightarrow> segment list \<Rightarrow> access \<Rightarrow> endpoint \<Rightarrow> route" where
  "exact m segs a e = \<lparr>rt_Method = m, rt_Segments = segs, rt_Subtree = False, rt_Access = a, rt_Endpoint = e\<rparr>"

abbreviation "gets \<equiv> exact ''GET''"
abbreviation "posts \<equiv> exact ''POST''"

definition routes :: "route list" where
  "routes =
     [\<lparr>rt_Method = ''GET'', rt_Segments = [Lit ''static''], rt_Subtree = True, rt_Access = Public, rt_Endpoint = Static\<rparr>,
      gets [Lit ''healthz''] Public Healthz,
      gets [Lit ''readyz''] Public Readyz,
      gets [Lit ''login''] Public LoginPage,
      posts [Lit ''login''] Public LoginPage,
      posts [Lit ''hook'', Wild ''source''] Public ReceiveHook,
      gets [Lit ''/''] Protected Index,
      gets [Lit ''dashboard''] Protected Dashboard,
      gets [Lit ''dlq''] Protected DeadLetters,
      gets [Lit ''api'', Lit ''webhooks''] Protected ApiList,
      posts [Lit ''api'', Lit ''webhooks'', Lit ''replay''] ProtectedMutation Replay,
      posts [Lit ''api'', Lit ''webhooks'', Lit ''replay'', Lit ''bulk''] ProtectedMutation BulkReplay,
      posts [Lit ''api'', Lit ''webhooks'', Lit ''delete''] ProtectedMutation Delete,
      gets [Lit ''partials'', Lit ''metrics''] Protected MetricsPanel,
      gets [Lit ''partials'', Lit ''webhooks''] Protected ListPanel,
      gets [Lit ''partials'', Lit ''webhook'', Wild ''id''] Protected InspectPage,
      gets [Lit ''webhooks'', Wild ''id''] Protected InspectPage,
      gets [Lit ''webhooks'', Wild ''id'', Lit ''attempts'', Wild ''attemptID''] Protected AttemptPage,
      gets [Lit ''webhooks'', Wild ''id'', Lit ''payload''] Protected PayloadDownload,
      gets [Lit ''partials'', Lit ''webhook'', Wild ''id'', Lit ''delivery''] Protected DeliveryPanel,
      gets [Lit ''forwarding''] Protected ForwardingPage,
      posts [Lit ''forwarding'', Lit ''pause''] ProtectedMutation (Pause True),
      posts [Lit ''forwarding'', Lit ''resume''] ProtectedMutation (Pause False),
      posts [Lit ''forwarding'', Lit ''save''] ProtectedMutation SaveRule,
      gets [Lit ''forwarding'', Lit ''edit''] Protected EditRule,
      posts [Lit ''forwarding'', Lit ''update''] ProtectedMutation UpdateRule,
      posts [Lit ''forwarding'', Lit ''delete''] ProtectedMutation DeleteRule,
      posts [Lit ''logout''] ProtectedMutation LogoutPage]"

section \<open>Finding a route\<close>

text \<open>The segments of a rooted path, decoded; a slash at the end is a segment of its own.\<close>

definition decoded :: "string \<Rightarrow> string" where
  "decoded s = (case unescape_path s of None \<Rightarrow> s | Some t \<Rightarrow> t)"

definition path_segments :: "string \<Rightarrow> string list" where
  "path_segments path =
     (let parts = split_on (CHR ''/'') (tl path)
      in map decoded (butlast parts) @ [if last parts = [] then ''/'' else decoded (last parts)])"

fun match_segments :: "bool \<Rightarrow> segment list \<Rightarrow> string list \<Rightarrow> (string \<times> string) list option" where
  "match_segments subtree [] [] = (if subtree then None else Some [])"
| "match_segments subtree [] (s # ss) = (if subtree then Some [] else None)"
| "match_segments subtree (p # ps) [] = None"
| "match_segments subtree (Lit l # ps) (s # ss) = (if s = l then match_segments subtree ps ss else None)"
| "match_segments subtree (Wild n # ps) (s # ss) =
     (if s = ''/'' then None else map_option (\<lambda>vs. (n, s) # vs) (match_segments subtree ps ss))"

definition route_match :: "string list \<Rightarrow> route \<Rightarrow> (string \<times> string) list option" where
  "route_match segs rt = match_segments (rt_Subtree rt) (rt_Segments rt) segs"

text \<open>The route of a method and a path, with the values of the wildcards.\<close>

definition serves :: "string \<Rightarrow> route \<Rightarrow> bool" where
  "serves m rt \<longleftrightarrow> rt_Method rt = m \<or> m = ''HEAD'' \<and> rt_Method rt = ''GET''"

definition match_route :: "string \<Rightarrow> string \<Rightarrow> (route \<times> (string \<times> string) list) option" where
  "match_route m path =
     map_option (\<lambda>rt. (rt, the (route_match (path_segments path) rt)))
       (find (\<lambda>rt. serves m rt \<and> route_match (path_segments path) rt \<noteq> None) routes)"

text \<open>Whether a route ends where the path does (\<open>exactMatch\<close>).\<close>

definition ends_there :: "string \<Rightarrow> route \<Rightarrow> bool" where
  "ends_there path rt \<longleftrightarrow>
     \<not> rt_Subtree rt \<or> ends_with_slash path \<and> length (rt_Segments rt) + 1 = count_list path (CHR ''/'')"

definition found_there :: "string \<Rightarrow> string \<Rightarrow> bool" where
  "found_there m path = (case match_route m path of None \<Rightarrow> False | Some (rt, vs) \<Rightarrow> ends_there path rt)"

definition clean_path :: "string \<Rightarrow> string" where
  "clean_path p =
     (let p = (if p = [] \<or> hd p \<noteq> CHR ''/'' then CHR ''/'' # p else p); np = clean_rooted p
      in if last p = CHR ''/'' \<and> np \<noteq> ''/'' then np @ ''/'' else np)"

text \<open>The methods other routes have for a path, as \<open>Allow\<close> lists them.\<close>

definition allowed_methods :: "string \<Rightarrow> string list" where
  "allowed_methods path =
     (let has = (\<lambda>m. find (\<lambda>rt. rt_Method rt = m \<and> (route_match (path_segments path) rt \<noteq> None \<or>
                   \<not> ends_with_slash path \<and> route_match (path_segments (path @ ''/'')) rt \<noteq> None)) routes \<noteq> None)
      in (if has ''GET'' then [''GET'', ''HEAD''] else []) @ (if has ''POST'' then [''POST''] else []))"

datatype routed = Run route "(string \<times> string) list" | Moved | NotAllowed "string list" | Missing

definition dispatch :: "string \<Rightarrow> string \<Rightarrow> routed" where
  "dispatch m escaped =
     (let path = clean_path escaped
      in if \<not> found_there m path \<and> \<not> ends_with_slash path \<and> found_there m (path @ ''/'') then Moved
         else if path \<noteq> escaped then Moved
         else
           (case match_route m path of
              Some (rt, vs) \<Rightarrow> Run rt vs
            | None \<Rightarrow> (case allowed_methods path of [] \<Rightarrow> Missing | ms \<Rightarrow> NotAllowed ms)))"

section \<open>The table\<close>

text \<open>Two patterns that can match the same path.\<close>

fun overlap :: "bool \<Rightarrow> segment list \<Rightarrow> bool \<Rightarrow> segment list \<Rightarrow> bool" where
  "overlap b [] c [] = (b = c)"
| "overlap b [] c (q # qs) = b"
| "overlap b (p # ps) c [] = c"
| "overlap b (Lit l # ps) c (Lit k # qs) = (l = k \<and> overlap b ps c qs)"
| "overlap b (Lit l # ps) c (Wild n # qs) = overlap b ps c qs"
| "overlap b (Wild n # ps) c (q # qs) = overlap b ps c qs"

lemma match_overlap:
  "match_segments b ps ss \<noteq> None \<Longrightarrow> match_segments c qs ss \<noteq> None \<Longrightarrow> overlap b ps c qs"
proof (induction b ps c qs arbitrary: ss rule: overlap.induct)
  case (6 b n ps c q qs)
  then show ?case by (cases ss; cases q) (auto split: if_splits)
qed (case_tac ss; auto split: if_splits)+

lemma routes_apart:
  "list_all (\<lambda>rt. list_all (\<lambda>rt'. rt_Method rt = rt_Method rt' \<and>
      overlap (rt_Subtree rt) (rt_Segments rt) (rt_Subtree rt') (rt_Segments rt') \<longrightarrow> rt = rt') routes) routes"
  by code_simp

lemma routes_methods: "list_all (\<lambda>rt. rt_Method rt \<in> {''GET'', ''POST''}) routes"
  by code_simp

lemma route_unique:
  assumes "rt \<in> set routes" "rt' \<in> set routes" "serves m rt" "serves m rt'"
    and "route_match segs rt \<noteq> None" "route_match segs rt' \<noteq> None"
  shows "rt = rt'"
proof -
  have "rt_Method rt = rt_Method rt'"
    using assms(1-4) routes_methods by (auto simp: list_all_iff serves_def)
  moreover have "overlap (rt_Subtree rt) (rt_Segments rt) (rt_Subtree rt') (rt_Segments rt')"
    using match_overlap assms(5,6) by (simp add: route_match_def)
  ultimately show ?thesis using routes_apart assms(1,2) by (simp add: list_all_iff)
qed

lemma find_Some_unique:
  assumes "x \<in> set xs" "P x" "\<And>y. y \<in> set xs \<Longrightarrow> P y \<Longrightarrow> y = x" shows "find P xs = Some x"
proof (cases "find P xs")
  case None
  then show ?thesis using assms(1,2) by (auto simp: find_None_iff)
next
  case (Some y)
  then show ?thesis using assms(3) find_Some_in [OF Some] by simp
qed

text \<open>The route found is the one that matches.\<close>

lemma match_route_iff:
  "match_route m path = Some (rt, vs) \<longleftrightarrow>
     rt \<in> set routes \<and> serves m rt \<and> route_match (path_segments path) rt = Some vs"
proof
  assume "match_route m path = Some (rt, vs)"
  then obtain rt' where "find (\<lambda>rt. serves m rt \<and> route_match (path_segments path) rt \<noteq> None) routes = Some rt'"
    "rt = rt'" "vs = the (route_match (path_segments path) rt')" by (auto simp: match_route_def)
  then show "rt \<in> set routes \<and> serves m rt \<and> route_match (path_segments path) rt = Some vs"
    by (auto dest!: find_Some_in)
next
  assume r: "rt \<in> set routes \<and> serves m rt \<and> route_match (path_segments path) rt = Some vs"
  then have "find (\<lambda>rt. serves m rt \<and> route_match (path_segments path) rt \<noteq> None) routes = Some rt"
    by (intro find_Some_unique) (auto intro: route_unique)
  then show "match_route m path = Some (rt, vs)" using r by (simp add: match_route_def)
qed

lemma dispatch_Run:
  "dispatch m p = Run rt vs \<Longrightarrow> rt \<in> set routes \<and> serves m rt \<and> route_match (path_segments p) rt = Some vs \<and> clean_path p = p"
  using match_route_iff by (auto simp: dispatch_def Let_def split: if_splits option.splits prod.splits list.splits)

section \<open>The paths of the application\<close>

definition plain_segment :: "string \<Rightarrow> bool" where
  "plain_segment s \<longleftrightarrow> s \<notin> {[], ''.'', ''..''} \<and> CHR ''/'' \<notin> set s \<and> CHR ''%'' \<notin> set s"

definition join_path :: "string list \<Rightarrow> string" where
  "join_path segs = concat (map (\<lambda>s. CHR ''/'' # s) segs)"

lemma split_join_path:
  assumes "segs \<noteq> []" "list_all plain_segment segs"
  shows "split_on (CHR ''/'') (tl (join_path segs)) = segs"
  using assms
proof (induction segs)
  case (Cons s segs)
  have s: "CHR ''/'' \<notin> set s" using Cons.prems by (simp add: plain_segment_def)
  show ?case
  proof (cases segs)
    case Nil
    then show ?thesis using s by (simp add: join_path_def split_on_absent)
  next
    case (Cons t ts)
    then have "join_path segs = CHR ''/'' # tl (join_path segs)" by (simp add: join_path_def)
    then have "tl (join_path (s # segs)) = s @ CHR ''/'' # tl (join_path segs)" by (simp add: join_path_def)
    then show ?thesis using Cons.IH Cons.prems s Cons by (simp add: split_on_append)
  qed
qed simp

lemma clean_segments_plain:
  "list_all plain_segment segs \<Longrightarrow> clean_segments out segs = rev out @ segs"
  by (induction segs arbitrary: out) (simp_all add: plain_segment_def)

lemma decoded_plain: "CHR ''%'' \<notin> set s \<Longrightarrow> decoded s = s"
proof -
  have "CHR ''%'' \<notin> set s \<Longrightarrow> unescape_path s = Some s" by (induction s) auto
  then show "CHR ''%'' \<notin> set s \<Longrightarrow> decoded s = s" by (simp add: decoded_def)
qed

lemma join_path_plain:
  assumes "segs \<noteq> []" "list_all plain_segment segs"
  shows "clean_path (join_path segs) = join_path segs" "path_segments (join_path segs) = segs"
    "\<not> ends_with_slash (join_path segs)" "decoded (join_path segs) = join_path segs"
proof -
  obtain s ss where segs: "segs = s # ss" using assms(1) by (cases segs) auto
  have rooted: "join_path segs = CHR ''/'' # tl (join_path segs)" by (simp add: segs join_path_def)
  have "split_on (CHR ''/'') (join_path segs) = [] # segs"
    using split_join_path [OF assms] by (subst rooted) simp
  then have clean: "clean_rooted (join_path segs) = join_path segs"
    using clean_segments_plain [of segs "[]"] assms(2) by (simp add: clean_rooted_def segs join_path_def)
  have "last segs \<noteq> []" "CHR ''/'' \<notin> set (last segs)"
    using assms last_in_set [of segs] by (auto simp: list_all_iff plain_segment_def)
  moreover have "join_path segs = join_path (butlast segs) @ CHR ''/'' # last segs"
    using assms(1) by (metis (no_types, lifting) append_butlast_last_id concat.simps concat_append join_path_def list.simps(8,9) map_append append_Nil2)
  ultimately have last: "last (join_path segs) \<noteq> CHR ''/''" by (metis last_ConsR last_appendR last_in_set list.distinct(1))
  moreover have "join_path segs \<noteq> []" "hd (join_path segs) = CHR ''/''" by (simp_all add: segs join_path_def)
  ultimately show "clean_path (join_path segs) = join_path segs" "\<not> ends_with_slash (join_path segs)"
    using clean by (simp_all add: clean_path_def ends_with_slash_def Let_def)
  have dec: "map decoded segs = segs"
    using assms(2) by (induction segs) (simp_all add: plain_segment_def decoded_plain)
  have "path_segments (join_path segs) = map decoded (butlast segs) @ [decoded (last segs)]"
    using \<open>last segs \<noteq> []\<close> by (simp add: path_segments_def split_join_path [OF assms])
  also have "\<dots> = map decoded segs" using assms(1) by (metis append_butlast_last_id list.simps(8,9) map_append)
  finally show "path_segments (join_path segs) = segs" by (simp add: dec)
  show "decoded (join_path segs) = join_path segs"
    by (rule decoded_plain) (use assms(2) in \<open>auto simp: join_path_def list_all_iff plain_segment_def\<close>)
qed

text \<open>A plain path reaches the route whose pattern it meets.\<close>

lemma dispatch_plain:
  assumes "segs \<noteq> []" "list_all plain_segment segs"
    and "rt \<in> set routes" "serves m rt" "\<not> rt_Subtree rt" "route_match segs rt = Some vs"
  shows "dispatch m (join_path segs) = Run rt vs"
proof -
  note p = join_path_plain [OF assms(1,2)]
  have "match_route m (join_path segs) = Some (rt, vs)" using assms(3,4,6) by (simp add: match_route_iff p)
  moreover from this have "found_there m (join_path segs)" using assms(5) by (simp add: found_there_def ends_there_def)
  ultimately show ?thesis by (simp add: dispatch_def p)
qed

end
