(* ===== verification/Paging.thy ===== *)
theory Paging
  imports Pages
begin

text \<open>
  Walking through a result page by page: the list of the dashboard, the page of dead letters and the
  JSON list. The two pages are shown for any store that answers a search by a slice of one fixed
  result and counts that result; the database does.
\<close>

section \<open>Pages of a result\<close>

definition page_of :: "'r list \<Rightarrow> int \<Rightarrow> int \<Rightarrow> 'r list" where
  "page_of rows k n = take (nat k) (drop (nat ((n - 1) * k)) rows)"

text \<open>Page \<open>n\<close> of a search, of \<open>k\<close> rows.\<close>

definition rows_of_page :: "(string \<Rightarrow> string) \<Rightarrow> db \<Rightarrow> webhook_filter \<Rightarrow> int \<Rightarrow> int \<Rightarrow> webhook list" where
  "rows_of_page lower d f k n = page_of (applyWebhookSort (wf_Sort f) (matching lower f d)) k n"

lemma page_of_empty:
  assumes "0 < k" "1 \<le> n"
  shows "page_of rows k (n + 1) = [] \<longleftrightarrow> int (length rows) \<le> n * k"
  using assms by (simp add: page_of_def nat_le_iff le_nat_iff)

lemma page_empty_iff:
  assumes "0 < k" "1 \<le> n"
  shows "rows_of_page lower d f k (n + 1) = [] \<longleftrightarrow> int (length (matching lower f d)) \<le> n * k"
  using page_of_empty [OF assms, of "applyWebhookSort (wf_Sort f) (matching lower f d)"] by (simp add: rows_of_page_def)

lemma parse_page_range: "0 < k \<Longrightarrow> k \<le> max_int64 \<Longrightarrow> 1 \<le> parse_page k raw \<and> parse_page k raw \<le> max_int64 div k"
proof -
  assume k: "0 < k" "k \<le> max_int64"
  then have "1 \<le> max_int64 div k" by (simp add: pos_imp_zdiv_pos_iff int_one_le_iff_zero_less)
  then show ?thesis by (auto simp: parse_page_def split: option.split)
qed

lemma page_arithmetic:
  assumes "1 \<le> n" "n \<le> max_int64 div k" "0 < k"
  shows "wrap64 (wrap64 (n - 1) * k) = (n - 1) * k" "wrap64 (n * k) = n * k" "wrap64 (n + 1) = n + 1 \<or> k = 1"
    "wrap64 (n - 1) = n - 1"
proof -
  have "n * k \<le> max_int64 div k * k" using assms(2,3) by (intro mult_right_mono) simp_all
  also have "\<dots> \<le> max_int64" using div_mult_mod_eq [of max_int64 k] pos_mod_sign [OF assms(3), of max_int64] by linarith
  finally have nk: "n * k \<le> max_int64" .
  have "n \<le> n * k" using assms(1,3) by simp
  then have range: "n \<le> max_int64" using nk by simp
  have "0 \<le> (n - 1) * k" "(n - 1) * k \<le> n * k" using assms(1,3) by (simp_all add: mult_right_mono)
  then have "in_int64 (n - 1)" "in_int64 ((n - 1) * k)" "in_int64 (n * k)"
    using nk range assms(1) by (auto simp: in_int64_def min_int64_def)
  then show "wrap64 (wrap64 (n - 1) * k) = (n - 1) * k" "wrap64 (n * k) = n * k" "wrap64 (n - 1) = n - 1"
    by (simp_all add: wrap64_id)
  show "wrap64 (n + 1) = n + 1 \<or> k = 1"
  proof (cases "k = 1")
    case False
    then have "n + n \<le> n * k" using assms(1,3) mult_left_mono [of 2 k n] by linarith
    then have "n + 1 \<le> max_int64" using nk assms(1) by linarith
    then show ?thesis using assms(1) by (simp add: wrap64_id in_int64_def min_int64_def)
  qed simp
qed

text \<open>The storage operations a handler is given, on one database that answers.\<close>

definition summary_on :: "(string \<Rightarrow> string) \<Rightarrow> db \<Rightarrow> webhook_filter \<Rightarrow> int \<Rightarrow> int \<Rightarrow> go_error + webhook list" where
  "summary_on lower d f limit offset = FilteredSummary lower False f limit offset d"

definition search_on :: "(string \<Rightarrow> string) \<Rightarrow> db \<Rightarrow> webhook_filter \<Rightarrow> int \<Rightarrow> int \<Rightarrow> go_error + webhook list" where
  "search_on lower d f limit offset = Filtered lower False f limit offset d"

definition count_on :: "(string \<Rightarrow> string) \<Rightarrow> db \<Rightarrow> webhook_filter \<Rightarrow> go_error + int" where
  "count_on lower d f = CountFiltered lower False f d"

section \<open>The interface of a search\<close>

text \<open>The range of what \<open>parseWebhookPagination\<close> accepts: no product of the handler overflows.\<close>

lemma pagination_range:
  assumes "parseWebhookPagination vs = Inr (page, limit)"
  shows "1 \<le> limit" "limit \<le> 100" "1 \<le> page" "page \<le> (max_int64 - 1) div limit"
    "wrap64 (wrap64 (page - 1) * limit) = (page - 1) * limit" "wrap64 (limit + 1) = limit + 1" "wrap64 (page + 1) = page + 1"
proof -
  show range: "1 \<le> limit" "limit \<le> 100" "1 \<le> page" "page \<le> (max_int64 - 1) div limit"
    using assms by (auto simp: parseWebhookPagination_def Let_def split: if_splits option.splits)
  have "page * limit \<le> (max_int64 - 1) div limit * limit" using range by (intro mult_right_mono) simp_all
  also have "\<dots> \<le> max_int64 - 1"
    using div_mult_mod_eq [of "max_int64 - 1" limit] pos_mod_sign [of limit "max_int64 - 1"] range(1) by linarith
  finally have pl: "page * limit \<le> max_int64 - 1" .
  have b: "0 \<le> (page - 1) * limit" "(page - 1) * limit \<le> page * limit" "page \<le> page * limit"
    using range by (simp_all add: mult_right_mono)
  have "in_int64 (page - 1)" "in_int64 ((page - 1) * limit)" "in_int64 (page + 1)"
    unfolding in_int64_def min_int64_def using b pl range(1-3) by (intro conjI; linarith)+
  moreover have "in_int64 (limit + 1)" using range by (simp add: int64_defs)
  ultimately show "wrap64 (wrap64 (page - 1) * limit) = (page - 1) * limit" "wrap64 (limit + 1) = limit + 1" "wrap64 (page + 1) = page + 1"
    by (simp_all add: wrap64_id)
qed

text \<open>
  What \<open>Filtered\<close> and \<open>FilteredSummary\<close> promise: slices of one result, with the columns that \<open>shape\<close>
  leaves. The pages need its length as well, from \<open>CountFiltered\<close>.
\<close>

locale slice_store =
  fixes fetch :: "webhook_filter \<Rightarrow> int \<Rightarrow> int \<Rightarrow> go_error + webhook list"
    and shape :: "webhook \<Rightarrow> webhook"
    and found :: "webhook_filter \<Rightarrow> webhook list"
  assumes fetch_rows: "0 < limit \<Longrightarrow> 0 \<le> offset \<Longrightarrow>
      fetch f limit offset = Inr (map shape (take (nat limit) (drop (nat offset) (found f))))"
begin

lemma fetch_page: "0 < k \<Longrightarrow> 1 \<le> n \<Longrightarrow> fetch f k ((n - 1) * k) = Inr (map shape (page_of (found f) k n))"
  by (simp add: fetch_rows page_of_def)

text \<open>Asking for one row more than the page tells whether another page follows.\<close>

lemma fetch_one_more:
  assumes "0 < k" and "1 \<le> n"
  obtains hooks where "fetch f (k + 1) ((n - 1) * k) = Inr hooks" "take (nat k) hooks = map shape (page_of (found f) k n)"
    "k < int (length hooks) \<longleftrightarrow> page_of (found f) k (n + 1) \<noteq> []"
    "\<not> k < int (length hooks) \<Longrightarrow> hooks = map shape (page_of (found f) k n)"
proof -
  define hooks where "hooks = map shape (take (nat (k + 1)) (drop (nat ((n - 1) * k)) (found f)))"
  have next_page: "nat (n * k) = nat ((n - 1) * k) + nat k" using assms by (simp add: nat_add_distrib [symmetric] algebra_simps)
  have "fetch f (k + 1) ((n - 1) * k) = Inr hooks" using assms by (simp add: fetch_rows hooks_def)
  moreover have cut: "take (nat k) hooks = map shape (page_of (found f) k n)"
    using assms by (simp add: hooks_def page_of_def take_map min_def)
  moreover have "k < int (length hooks) \<longleftrightarrow> page_of (found f) k (n + 1) \<noteq> []"
    using assms next_page by (auto simp: hooks_def page_of_def)
  moreover have "hooks = map shape (page_of (found f) k n)" if "\<not> k < int (length hooks)"
    using cut that by simp
  ultimately show ?thesis using that by blast
qed

lemma api_list:
  assumes pagination: "parseWebhookPagination (rq_query r) = Inr (page, limit)"
    and parsed: "parseWebhookFilterAndPage zones r = Some (Inr (f, p))"
  shows "ListWebhooks zones fetch r =
    Some (Rendered ((''Content-Type'', ''application/json'') #
        (if page_of (found f) limit (page + 1) = [] then []
         else [(''Link'', next_link (encode_query (set_value ''limit'' (FormatInt limit) (set_value ''page'' (FormatInt (page + 1))
                 (canonicalDateQuery (rq_query r) (wf_From f) (wf_To f))))))]),
      map shape (page_of (found f) limit page)))"
proof -
  note range = pagination_range [OF pagination]
  obtain hooks where hooks: "fetch f (limit + 1) ((page - 1) * limit) = Inr hooks"
    "take (nat limit) hooks = map shape (page_of (found f) limit page)"
    "limit < int (length hooks) \<longleftrightarrow> page_of (found f) limit (page + 1) \<noteq> []"
    "\<not> limit < int (length hooks) \<Longrightarrow> hooks = map shape (page_of (found f) limit page)"
    using fetch_one_more [of limit page f] range(1,3) by (metis zero_less_one_class.zero_less_one order_less_le_trans)
  show ?thesis
  proof (cases "limit < int (length hooks)")
    case True
    then show ?thesis using hooks range(5-7) by (simp add: ListWebhooks_def pagination parsed Let_def)
  next
    case False
    then show ?thesis using hooks range(5-7) by (simp add: ListWebhooks_def pagination parsed Let_def)
  qed
qed

end

locale search_store = slice_store summary omit_columns found
  for summary :: "webhook_filter \<Rightarrow> int \<Rightarrow> int \<Rightarrow> go_error + webhook list" and found :: "webhook_filter \<Rightarrow> webhook list" +
  fixes counted :: "webhook_filter \<Rightarrow> go_error + int"
  assumes counted_rows: "counted f = Inr (int (length (found f)))"
begin

lemma list_renders:
  assumes "parseWebhookFilterAndPage zones r = Some (Inr (f, page))"
  obtains hs data where "WebhookPartial zones summary counted r = Some (Rendered (hs, data))" "1 \<le> page"
    "wp_CurrentPage data = page" "wp_Webhooks data = map omit_columns (page_of (found f) webhookPageSize page)"
    "wp_DisablePrev data \<longleftrightarrow> page \<le> 1" "wp_DisableNext data \<longleftrightarrow> int (length (found f)) \<le> page * webhookPageSize"
    "wp_NextURL data = buildWebhookListURL (canonicalDateQuery (rq_query r) (wf_From f) (wf_To f)) (page + 1)"
    "wp_PrevURL data = buildWebhookListURL (canonicalDateQuery (rq_query r) (wf_From f) (wf_To f)) (page - 1)"
proof -
  have "page = parse_page webhookPageSize (get_value (rq_query r) ''page'')" using assms by (simp add: parse_filter_iff)
  then have range: "1 \<le> page" "page \<le> max_int64 div webhookPageSize"
    using parse_page_range [of webhookPageSize] by (simp_all add: webhookPageSize_def max_int64_def)
  have k: "0 < webhookPageSize" "webhookPageSize \<noteq> 1" by (simp_all add: webhookPageSize_def)
  note arith = page_arithmetic [OF range k(1)]
  have "wrap64 (page + 1) = page + 1" using arith(3) k(2) by blast
  then show ?thesis
    using that assms arith fetch_page [OF k(1) range(1)] range(1) by (simp add: WebhookPartial_def counted_rows Let_def)
qed

lemma list_page:
  assumes zone: "zones ''UTC'' = Some loc" and query: "distinct (map fst (rq_query r))"
    and parsed: "parseWebhookFilterAndPage zones r = Some (Inr (f, page))"
    and years: "in_years (wf_From f)" "in_years (wf_To f)"
    and shown: "WebhookPartial zones summary counted r = Some (Rendered (hs, data))"
    and size: "int (length (found f)) \<le> max_int64 - 2 * webhookPageSize"
    and link: "wp_NextURL data = ''/partials/webhooks?'' @ q" "rq_query r' = ParseQuery q"
  shows "wp_Webhooks data = map omit_columns (page_of (found f) webhookPageSize page) \<and>
    (wp_DisablePrev data \<longleftrightarrow> page = 1) \<and>
    (wp_DisableNext data \<longleftrightarrow> page_of (found f) webhookPageSize (page + 1) = []) \<and>
    (\<not> wp_DisableNext data \<longrightarrow>
      (\<exists>hs' data'. WebhookPartial zones summary counted r' = Some (Rendered (hs', data')) \<and>
         wp_Webhooks data' = map omit_columns (page_of (found f) webhookPageSize (page + 1)) \<and> wp_Webhooks data' \<noteq> []))"
proof -
  from list_renders [OF parsed] shown
  have range: "1 \<le> page" and fields: "wp_Webhooks data = map omit_columns (page_of (found f) webhookPageSize page)"
    "wp_DisablePrev data \<longleftrightarrow> page \<le> 1" "wp_DisableNext data \<longleftrightarrow> int (length (found f)) \<le> page * webhookPageSize"
    "wp_NextURL data = buildWebhookListURL (canonicalDateQuery (rq_query r) (wf_From f) (wf_To f)) (page + 1)"
    by (metis option.inject rendered.inject(2) prod.inject)+
  have k: "0 < webhookPageSize" by (simp add: webhookPageSize_def)
  note empty = page_of_empty [OF k range, of "found f"]
  have "\<exists>hs' data'. WebhookPartial zones summary counted r' = Some (Rendered (hs', data')) \<and>
         wp_Webhooks data' = map omit_columns (page_of (found f) webhookPageSize (page + 1)) \<and> wp_Webhooks data' \<noteq> []"
    if more: "\<not> wp_DisableNext data"
  proof -
    have "page * 10 + 20 \<le> max_int64" using more fields(3) size by (simp add: webhookPageSize_def)
    then have "page + 1 \<le> max_int64 div webhookPageSize" by (simp add: webhookPageSize_def max_int64_def)
    moreover have "q = webhookListQuery (canonicalDateQuery (rq_query r) (wf_From f) (wf_To f)) (page + 1)"
      using link(1) fields(4) by (simp add: buildWebhookListURL_def)
    ultimately have "parseWebhookFilterAndPage zones r' = Some (Inr (f, max 1 (page + 1)))"
      using page_link_reads_back [OF zone query parsed years] link(2) by blast
    then have "parseWebhookFilterAndPage zones r' = Some (Inr (f, page + 1))" using range by simp
    from list_renders [OF this] show ?thesis using more fields(3) empty by (metis map_is_Nil_conv)
  qed
  then show ?thesis using fields range empty by auto
qed

text \<open>The search of the page of dead letters.\<close>

lemma dlq_renders:
  assumes "webhookFilterDates zones (rq_query r) = Some (Inr (a, b))"
    and f: "f = \<lparr>wf_Source = query_text r ''source'', wf_Status = st_dead_lettered, wf_Query = query_text r ''q'',
      wf_From = a, wf_To = b, wf_Sort = []\<rparr>" and page: "page = parsePage (get_value (rq_query r) ''page'')"
  obtains data where "DLQUI zones summary counted r = Some (Rendered data)" "1 \<le> page"
    "dq_Webhooks data = map omit_columns (page_of (found f) 20 page)"
    "dq_DisablePrev data \<longleftrightarrow> page \<le> 1" "dq_DisableNext data \<longleftrightarrow> int (length (found f)) \<le> page * 20"
    "dq_NextURL data = buildDLQPageURLWithFilters (canonicalDateQuery (rq_query r) a b) (page + 1)"
    "dq_BulkMessage data = bulkReplayMessage (rq_query r)"
proof -
  have range: "1 \<le> page" "page \<le> max_int64 div 20"
    using parse_page_range [of 20] by (simp_all add: page parsePage_def max_int64_def)
  note arith = page_arithmetic [OF range]
  have "wrap64 (page + 1) = page + 1" using arith(3) by simp
  then show ?thesis
    using that assms(1) arith fetch_page [of 20 page f] range(1)
    by (simp add: DLQUI_def counted_rows Let_def f [symmetric] page [symmetric])
qed

lemma dlq_page:
  assumes zone: "zones ''UTC'' = Some loc" and query: "distinct (map fst (rq_query r))"
    and dates: "webhookFilterDates zones (rq_query r) = Some (Inr (a, b))" and years: "in_years a" "in_years b"
    and f: "f = \<lparr>wf_Source = query_text r ''source'', wf_Status = st_dead_lettered, wf_Query = query_text r ''q'',
      wf_From = a, wf_To = b, wf_Sort = []\<rparr>" and page: "page = parsePage (get_value (rq_query r) ''page'')"
    and shown: "DLQUI zones summary counted r = Some (Rendered data)"
    and size: "int (length (found f)) \<le> max_int64 - 40"
    and link: "dq_NextURL data = ''/dlq?'' @ q" "rq_query r' = ParseQuery q"
  shows "dq_Webhooks data = map omit_columns (page_of (found f) 20 page) \<and> (dq_DisablePrev data \<longleftrightarrow> page = 1) \<and>
    (dq_DisableNext data \<longleftrightarrow> page_of (found f) 20 (page + 1) = []) \<and>
    (\<not> dq_DisableNext data \<longrightarrow>
      (\<exists>data'. DLQUI zones summary counted r' = Some (Rendered data') \<and>
         dq_Webhooks data' = map omit_columns (page_of (found f) 20 (page + 1)) \<and> dq_Webhooks data' \<noteq> [] \<and>
         dq_BulkMessage data' = []))"
proof -
  from dlq_renders [OF dates f page] shown
  have range: "1 \<le> page" and fields: "dq_Webhooks data = map omit_columns (page_of (found f) 20 page)"
    "dq_DisablePrev data \<longleftrightarrow> page \<le> 1" "dq_DisableNext data \<longleftrightarrow> int (length (found f)) \<le> page * 20"
    "dq_NextURL data = buildDLQPageURLWithFilters (canonicalDateQuery (rq_query r) a b) (page + 1)"
    by (metis option.inject rendered.inject(2))+
  note empty = page_of_empty [of 20 page "found f", OF _ range]
  have "\<exists>data'. DLQUI zones summary counted r' = Some (Rendered data') \<and>
         dq_Webhooks data' = map omit_columns (page_of (found f) 20 (page + 1)) \<and> dq_Webhooks data' \<noteq> [] \<and>
         dq_BulkMessage data' = []"
    if more: "\<not> dq_DisableNext data"
  proof -
    have "page * 20 + 40 \<le> max_int64" using more fields(3) size by simp
    then have fits: "0 \<le> page + 1" "page + 1 \<le> max_int64 div 20" using range by (simp_all add: max_int64_def)
    note link_back = dlq_link_roundtrip [OF zone query dates years fits _ link(2)]
    from fields(4) link(1) link_back have next_request: "webhookFilterDates zones (rq_query r') = Some (Inr (a, b))"
      "query_text r' ''source'' = query_text r ''source''" "query_text r' ''q'' = query_text r ''q''"
      "page + 1 = parsePage (get_value (rq_query r') ''page'')" "bulkReplayMessage (rq_query r') = []"
      using range by simp_all
    have "f = \<lparr>wf_Source = query_text r' ''source'', wf_Status = st_dead_lettered, wf_Query = query_text r' ''q'',
      wf_From = a, wf_To = b, wf_Sort = []\<rparr>" by (simp add: f next_request(2,3))
    from dlq_renders [OF next_request(1) this next_request(4)] show ?thesis
      using more fields(3) empty next_request(5) by (metis map_is_Nil_conv zero_less_numeral)
  qed
  then show ?thesis using fields range empty by auto
qed

end

interpretation searched: slice_store "search_on lower d" id "\<lambda>f. applyWebhookSort (wf_Sort f) (matching lower f d)"
  for lower d
  by unfold_locales (simp add: search_on_def Filtered_def exec_def page_rows_def Let_def)

interpretation answered: search_store "summary_on lower d" "\<lambda>f. applyWebhookSort (wf_Sort f) (matching lower f d)" "count_on lower d"
  for lower d
  by unfold_locales
    (simp_all add: summary_on_def FilteredSummary_def count_on_def CountFiltered_def exec_def page_rows_def Let_def)

text \<open>The link of the JSON list is read back with the filter and the next page.\<close>

lemma api_link_roundtrip:
  assumes "zones ''UTC'' = Some loc" and "distinct (map fst (rq_query r))"
    and "parseWebhookFilterAndPage zones r = Some (Inr (f, p))" and "in_years (wf_From f)" and "in_years (wf_To f)"
    and range: "1 \<le> limit" "limit \<le> 100" "1 \<le> page" and fits: "(page + 1) * limit \<le> max_int64 - 1"
    and r': "rq_query r' = ParseQuery (encode_query (set_value ''limit'' (FormatInt limit) (set_value ''page'' (FormatInt (page + 1))
               (canonicalDateQuery (rq_query r) (wf_From f) (wf_To f)))))"
  shows "parseWebhookPagination (rq_query r') = Inr (page + 1, limit) \<and>
    (\<exists>p'. parseWebhookFilterAndPage zones r' = Some (Inr (f, p')))"
proof -
  let ?next = "set_value ''limit'' (FormatInt limit) (set_value ''page'' (FormatInt (page + 1)) (canonicalDateQuery (rq_query r) (wf_From f) (wf_To f)))"
  have page: "page + 1 \<le> (max_int64 - 1) div limit"
    using range(1) fits zdiv_mono1 [of "(page + 1) * limit" "max_int64 - 1" limit] by simp
  have get: "get_value (rq_query r') name = get_value ?next name" for name unfolding r' by (rule get_value_query) (simp add: assms(2))
  have "(page + 1) * 1 \<le> (page + 1) * limit" using range by (intro mult_left_mono) simp_all
  with fits have "(page + 1) * 1 \<le> max_int64 - 1" by (rule order_trans [rotated])
  then have "in_int64 (page + 1)" "in_int64 limit" using range by (simp_all add: int64_defs)
  then have "Atoi (FormatInt (page + 1)) = Some (page + 1)" "Atoi (FormatInt limit) = Some limit" by (simp_all add: ParseInt_FormatInt)
  moreover have "Atoi [] = None" by (simp add: ParseInt_def)
  ultimately have "FormatInt (page + 1) \<noteq> []" "FormatInt limit \<noteq> []"
    "Atoi (FormatInt (page + 1)) = Some (page + 1)" "Atoi (FormatInt limit) = Some limit" by auto
  then have "parseWebhookPagination (rq_query r') = Inr (page + 1, limit)"
    using range page by (simp add: parseWebhookPagination_def get)
  moreover have "webhookFilterDates zones (rq_query r') = Some (Inr (wf_From f, wf_To f))"
    by (rule dates_of_link [where zones = zones, OF assms(1,4,5)]) (simp_all add: get)
  moreover have "query_text r' name = query_text r name" if "name \<in> {''source'', ''status'', ''q'', ''sort''}" for name
    using that by (auto simp: query_text_def get)
  ultimately show ?thesis using assms(3) by (simp add: parse_filter_iff)
qed

section \<open>Properties\<close>

text \<open>
  C25: the list shows its page and leads to the next. The rows shown are those of the page asked
  for, without payloads; the way back is closed on the first page and the way on exactly when no
  rows follow, and otherwise following the link on shows the rows of the next page.
\<close>

theorem list_page_correct:
  assumes "zones ''UTC'' = Some loc" and "distinct (map fst (rq_query r))"
    and "parseWebhookFilterAndPage zones r = Some (Inr (f, page))" and "in_years (wf_From f)" and "in_years (wf_To f)"
    and "WebhookPartial zones (summary_on lower d) (count_on lower d) r = Some (Rendered (hs, data))"
    and "int (length (t_webhooks d)) \<le> max_int64 - 2 * webhookPageSize"
    and "wp_NextURL data = ''/partials/webhooks?'' @ q" and "rq_query r' = ParseQuery q"
  shows "wp_Webhooks data = map omit_columns (rows_of_page lower d f webhookPageSize page) \<and>
    (wp_DisablePrev data \<longleftrightarrow> page = 1) \<and>
    (wp_DisableNext data \<longleftrightarrow> rows_of_page lower d f webhookPageSize (page + 1) = []) \<and>
    (\<not> wp_DisableNext data \<longrightarrow>
      (\<exists>hs' data'. WebhookPartial zones (summary_on lower d) (count_on lower d) r' = Some (Rendered (hs', data')) \<and>
         wp_Webhooks data' = map omit_columns (rows_of_page lower d f webhookPageSize (page + 1)) \<and> wp_Webhooks data' \<noteq> []))"
proof -
  have "length (matching lower f d) \<le> length (t_webhooks d)" by (simp add: matching_def)
  then have "int (length (applyWebhookSort (wf_Sort f) (matching lower f d))) \<le> max_int64 - 2 * webhookPageSize" using assms(7) by simp
  from answered.list_page [OF assms(1-6) this assms(8,9)] show ?thesis by (simp add: rows_of_page_def)
qed

text \<open>
  C27: the page of dead letters shows dead letters, and leads through all of them. The rows shown are
  those of the page asked for, every one of them dead-lettered; the way on is closed exactly when no
  rows follow, and otherwise leads to the rows that follow, without the message of a bulk replay.
\<close>

theorem dlq_page_correct:
  assumes "zones ''UTC'' = Some loc" and "distinct (map fst (rq_query r))"
    and "webhookFilterDates zones (rq_query r) = Some (Inr (a, b))" and "in_years a" and "in_years b"
    and "f = \<lparr>wf_Source = query_text r ''source'', wf_Status = st_dead_lettered, wf_Query = query_text r ''q'',
      wf_From = a, wf_To = b, wf_Sort = []\<rparr>" and "page = parsePage (get_value (rq_query r) ''page'')"
    and "DLQUI zones (summary_on lower d) (count_on lower d) r = Some (Rendered data)"
    and "int (length (t_webhooks d)) \<le> max_int64 - 40"
    and "dq_NextURL data = ''/dlq?'' @ q" and "rq_query r' = ParseQuery q"
  shows "dq_Webhooks data = map omit_columns (rows_of_page lower d f 20 page) \<and>
    (\<forall>w \<in> set (dq_Webhooks data). wh_Status w = st_dead_lettered) \<and> (dq_DisablePrev data \<longleftrightarrow> page = 1) \<and>
    (dq_DisableNext data \<longleftrightarrow> rows_of_page lower d f 20 (page + 1) = []) \<and>
    (\<not> dq_DisableNext data \<longrightarrow>
      (\<exists>data'. DLQUI zones (summary_on lower d) (count_on lower d) r' = Some (Rendered data') \<and>
         dq_Webhooks data' = map omit_columns (rows_of_page lower d f 20 (page + 1)) \<and> dq_Webhooks data' \<noteq> [] \<and>
         dq_BulkMessage data' = []))"
proof -
  have "length (matching lower f d) \<le> length (t_webhooks d)" by (simp add: matching_def)
  then have "int (length (applyWebhookSort (wf_Sort f) (matching lower f d))) \<le> max_int64 - 40" using assms(9) by simp
  note page = answered.dlq_page [OF assms(1-8) this assms(10,11)]
  have "TrimSpace st_dead_lettered = st_dead_lettered" by code_simp
  then have "wh_Status w = st_dead_lettered" if "w \<in> set (matching lower f d)" for w
    using that by (auto simp: matching_def applyWebhookFilter_def assms(6) split: if_splits)
  then have "\<forall>w \<in> set (rows_of_page lower d f 20 page). wh_Status w = st_dead_lettered"
    by (auto simp: rows_of_page_def page_of_def dest!: in_set_takeD in_set_dropD)
  then show ?thesis using page by (auto simp: rows_of_page_def omit_columns_def)
qed

text \<open>
  C26: the JSON list shows its page and names the next. The rows are those of the page asked for, at
  most the limit; the \<open>Link\<close> header is sent exactly when rows follow, and following it asks for the
  next page of the same search with the same limit.
\<close>

theorem api_list_correct:
  assumes "zones ''UTC'' = Some loc" and "distinct (map fst (rq_query r))"
    and "parseWebhookPagination (rq_query r) = Inr (page, limit)"
    and "parseWebhookFilterAndPage zones r = Some (Inr (f, p))" and "in_years (wf_From f)" and "in_years (wf_To f)"
    and "int (length (t_webhooks d)) \<le> max_int64 - 101"
  shows "1 \<le> limit \<and> limit \<le> 100 \<and>
    (if rows_of_page lower d f limit (page + 1) = []
     then ListWebhooks zones (search_on lower d) r =
            Some (Rendered ([(''Content-Type'', ''application/json'')], rows_of_page lower d f limit page))
     else \<exists>q. ListWebhooks zones (search_on lower d) r =
            Some (Rendered ([(''Content-Type'', ''application/json''),
                             (''Link'', next_link q)],
                            rows_of_page lower d f limit page)) \<and>
          (\<forall>r'. rq_query r' = ParseQuery q \<longrightarrow>
             parseWebhookPagination (rq_query r') = Inr (page + 1, limit) \<and>
             (\<exists>p'. parseWebhookFilterAndPage zones r' = Some (Inr (f, p')))))"
proof -
  note range = pagination_range [OF assms(3)]
  let ?query = "encode_query (set_value ''limit'' (FormatInt limit) (set_value ''page'' (FormatInt (page + 1))
      (canonicalDateQuery (rq_query r) (wf_From f) (wf_To f))))"
  note list = searched.api_list [OF assms(3,4), of lower d, folded rows_of_page_def, unfolded list.map_id]
  show ?thesis
  proof (cases "rows_of_page lower d f limit (page + 1) = []")
    case True
    then show ?thesis using list range(1,2) by simp
  next
    case False
    then have "int (length (matching lower f d)) > page * limit"
      using page_empty_iff [of limit page lower d f] range by simp
    moreover have "length (matching lower f d) \<le> length (t_webhooks d)" by (simp add: matching_def)
    ultimately have fits: "(page + 1) * limit \<le> max_int64 - 1" using assms(7) range(2) by (simp add: algebra_simps)
    show ?thesis
      using False list range(1,2) api_link_roundtrip [OF assms(1,2,4-6) range(1-3) fits] by auto
  qed
qed

section \<open>A table of eleven rows\<close>

definition demo_rows :: db where
  "demo_rows = empty_db\<lparr>t_webhooks := map (\<lambda>k. empty_webhook\<lparr>wh_ID := int k\<rparr>) [1..<12], seq_webhooks := 11\<rparr>"

definition no_filter :: webhook_filter where
  "no_filter = \<lparr>wf_Source = [], wf_Status = [], wf_Query = [], wf_From = None, wf_To = None, wf_Sort = []\<rparr>"

definition demo_limit :: request where
  "demo_limit = no_request\<lparr>rq_query := [(''limit'', [''10''])]\<rparr>"

lemma demo_rows_match: "matching lower no_filter demo_rows = t_webhooks demo_rows" "length (t_webhooks demo_rows) = 11"
  by (simp_all add: matching_def applyWebhookFilter_def no_filter_def demo_rows_def)

lemma no_filter_parsed:
  "parseWebhookFilterAndPage utc_only no_request = Some (Inr (no_filter, 1))"
  "parseWebhookFilterAndPage utc_only demo_limit = Some (Inr (no_filter, 1))"
proof -
  have get: "get_value (rq_query no_request) name = []" "get_value (rq_query demo_limit) name = (if name = ''limit'' then ''10'' else [])" for name
    by (simp_all add: no_request_def demo_limit_def get_value_def)
  have "webhookFilterDates utc_only (rq_query no_request) = Some (Inr (None, None))"
    "webhookFilterDates utc_only (rq_query demo_limit) = Some (Inr (None, None))"
    by (rule dates_of_link [where zones = utc_only and loc = UTC]; simp add: utc_only_def get dateTimeInstant_def)+
  moreover have "parse_page webhookPageSize [] = 1" by (simp add: parse_page_def ParseInt_def)
  ultimately show "parseWebhookFilterAndPage utc_only no_request = Some (Inr (no_filter, 1))"
    "parseWebhookFilterAndPage utc_only demo_limit = Some (Inr (no_filter, 1))"
    by (simp_all add: parse_filter_iff no_filter_def query_text_def get TrimSpace_solid)
qed

theorem list_page_correct_witness:
  "\<exists>hs data q hs' data'.
     WebhookPartial utc_only (summary_on id demo_rows) (count_on id demo_rows) no_request = Some (Rendered (hs, data)) \<and>
     wp_NextURL data = ''/partials/webhooks?'' @ q \<and>
     WebhookPartial utc_only (summary_on id demo_rows) (count_on id demo_rows) (no_request\<lparr>rq_query := ParseQuery q\<rparr>) =
       Some (Rendered (hs', data')) \<and> wp_Webhooks data' \<noteq> []"
proof -
  obtain hs data where data: "WebhookPartial utc_only (summary_on id demo_rows) (count_on id demo_rows) no_request = Some (Rendered (hs, data))"
    and more: "wp_DisableNext data \<longleftrightarrow> int (length (matching id no_filter demo_rows)) \<le> 1 * webhookPageSize"
    and "wp_NextURL data = buildWebhookListURL (canonicalDateQuery (rq_query no_request) (wf_From no_filter) (wf_To no_filter)) (1 + 1)"
    by (rule answered.list_renders [OF no_filter_parsed(1), of id demo_rows]) (simp add: no_filter_def)
  then obtain q where q: "wp_NextURL data = ''/partials/webhooks?'' @ q" by (auto simp: buildWebhookListURL_def)
  have "\<not> wp_DisableNext data" using more by (simp add: demo_rows_match webhookPageSize_def)
  moreover have "distinct (map fst (rq_query no_request))" "in_years (wf_From no_filter)" "in_years (wf_To no_filter)"
    "int (length (t_webhooks demo_rows)) \<le> max_int64 - 2 * webhookPageSize"
    by (simp_all add: no_request_def no_filter_def demo_rows_match max_int64_def webhookPageSize_def)
  ultimately have "\<exists>hs' data'. WebhookPartial utc_only (summary_on id demo_rows) (count_on id demo_rows) (no_request\<lparr>rq_query := ParseQuery q\<rparr>) =
       Some (Rendered (hs', data')) \<and> wp_Webhooks data' \<noteq> []"
    using list_page_correct [OF _ _ no_filter_parsed(1) _ _ data _ q, of UTC "no_request\<lparr>rq_query := ParseQuery q\<rparr>"]
    by (simp add: utc_only_def) blast
  then show ?thesis using data q by blast
qed

theorem api_list_correct_witness:
  "\<exists>q. ListWebhooks utc_only (search_on id demo_rows) demo_limit =
     Some (Rendered ([(''Content-Type'', ''application/json''), (''Link'', next_link q)], rows_of_page id demo_rows no_filter 10 1))"
proof -
  have "parseWebhookPagination (rq_query demo_limit) = Inr (1, 10)"
    by (simp add: parseWebhookPagination_def demo_limit_def get_value_def ParseInt_def is_digit_def digits_val_def
        digit_val_def int64_defs)
  moreover have "rows_of_page id demo_rows no_filter 10 (1 + 1) \<noteq> []"
    using page_empty_iff [of 10 1 id demo_rows no_filter] by (simp add: demo_rows_match)
  moreover have "distinct (map fst (rq_query demo_limit))" "in_years (wf_From no_filter)" "in_years (wf_To no_filter)"
    "int (length (t_webhooks demo_rows)) \<le> max_int64 - 101"
    by (simp_all add: demo_limit_def no_filter_def demo_rows_match max_int64_def)
  ultimately show ?thesis
    using api_list_correct [OF _ _ _ no_filter_parsed(2), of UTC 1 10 demo_rows id] by (auto simp: utc_only_def)
qed

definition demo_dead :: db where
  "demo_dead = empty_db\<lparr>t_webhooks := map (\<lambda>k. empty_webhook\<lparr>wh_ID := int k, wh_Status := st_dead_lettered\<rparr>) [1..<22], seq_webhooks := 21\<rparr>"

theorem dlq_page_correct_witness:
  "\<exists>data q data'. DLQUI utc_only (summary_on id demo_dead) (count_on id demo_dead) no_request = Some (Rendered data) \<and>
     dq_NextURL data = ''/dlq?'' @ q \<and>
     DLQUI utc_only (summary_on id demo_dead) (count_on id demo_dead) (no_request\<lparr>rq_query := ParseQuery q\<rparr>) = Some (Rendered data') \<and>
     dq_Webhooks data' \<noteq> []"
proof -
  define f where "f = \<lparr>wf_Source = query_text no_request ''source'', wf_Status = st_dead_lettered, wf_Query = query_text no_request ''q'',
      wf_From = None, wf_To = None, wf_Sort = []\<rparr>"
  have none: "get_value (rq_query no_request) name = []" for name by (simp add: no_request_def get_value_def)
  then have "query_text no_request name = []" for name by (simp add: query_text_def TrimSpace_solid)
  moreover have "TrimSpace st_dead_lettered = st_dead_lettered" by code_simp
  ultimately have rows: "matching id f demo_dead = t_webhooks demo_dead" "length (t_webhooks demo_dead) = 21"
    by (simp_all add: matching_def applyWebhookFilter_def f_def demo_dead_def)
  have dates: "webhookFilterDates utc_only (rq_query no_request) = Some (Inr (None, None))"
    using no_filter_parsed(1) by (simp add: parse_filter_iff no_filter_def)
  have page: "1 = parsePage (get_value (rq_query no_request) ''page'')" by (simp add: none parsePage_def parse_page_def ParseInt_def)
  obtain data where data: "DLQUI utc_only (summary_on id demo_dead) (count_on id demo_dead) no_request = Some (Rendered data)"
    "dq_DisableNext data \<longleftrightarrow> int (length (applyWebhookSort (wf_Sort f) (matching id f demo_dead))) \<le> 1 * 20"
    "dq_NextURL data = buildDLQPageURLWithFilters (canonicalDateQuery (rq_query no_request) None None) (1 + 1)"
    by (rule answered.dlq_renders [OF dates f_def page])
  then obtain q where q: "dq_NextURL data = ''/dlq?'' @ q" by (auto simp: buildDLQPageURLWithFilters_def)
  have "distinct (map fst (rq_query no_request))" "in_years None" "\<not> dq_DisableNext data"
    "int (length (t_webhooks demo_dead)) \<le> max_int64 - 40"
    using data(2) by (simp_all add: no_request_def rows max_int64_def)
  then show ?thesis
    using dlq_page_correct [OF _ _ dates _ _ f_def page data(1) _ q, of UTC "no_request\<lparr>rq_query := ParseQuery q\<rparr>"] data(1) q
    by (simp add: utc_only_def) blast
qed

end
