(* ===== verification/Forms.thy ===== *)
theory Forms
  imports Mutations
begin

text \<open>
  The forwarding rules' pages and forms, \<open>internal/handler/forwarding.go\<close>. \<open>ParseRequestURI\<close> of
  \<open>net/url\<close> is an argument, a function from a string to the parts of a URL the code looks at. As in
  the code, a form without a secret keeps the one of the rule being edited unless the box to clear
  it is ticked.

  The properties say which rules a form can produce, and what a saved form does to the stored rules.
\<close>

record target_url =
  tu_Scheme :: string
  tu_Host :: string
  tu_has_User :: bool

definition validateTargetURL :: "(string \<Rightarrow> target_url option) \<Rightarrow> string \<Rightarrow> string option" where
  "validateTargetURL ParseRequestURI target =
     (if length target > 2048 then Some ''target URL is too long''
      else
        (case ParseRequestURI target of
           None \<Rightarrow> Some ''target must be an absolute http or https URL''
         | Some u \<Rightarrow>
             if tu_Host u = [] \<or> (tu_Scheme u \<noteq> ''http'' \<and> tu_Scheme u \<noteq> ''https'')
             then Some ''target must be an absolute http or https URL''
             else if tu_has_User u then Some ''target URL must not contain credentials''
             else None))"

definition parseTolerance :: "string \<Rightarrow> int \<Rightarrow> go_error + int" where
  "parseTolerance raw fallback =
     (if raw = [] then Inr fallback
      else
        (case Atoi raw of
           None \<Rightarrow> Inl (ErrText ''tolerance must be a non-negative integer'')
         | Some v \<Rightarrow> if v < 0 then Inl (ErrText ''tolerance must be a non-negative integer'') else Inr v))"

definition normalizeVerifyHeader :: "string \<Rightarrow> string \<Rightarrow> string" where
  "normalizeVerifyHeader value fallback = (let v = TrimSpace value in if v = [] then fallback else v)"

definition parsePositiveIntWithDefault :: "string \<Rightarrow> int \<Rightarrow> string \<Rightarrow> go_error + int" where
  "parsePositiveIntWithDefault raw fallback message =
     (if raw = [] then Inr fallback
      else
        (case Atoi raw of
           None \<Rightarrow> Inl (ErrText message)
         | Some v \<Rightarrow> if v \<le> 0 then Inl (ErrText message) else Inr v))"

text \<open>The settings of incoming signatures: secret, header and tolerance.\<close>

definition form_verification ::
    "request \<Rightarrow> forwarding_rule option \<Rightarrow> go_error + string \<times> string \<times> int" where
  "form_verification r existing =
     (let verifySecret = TrimSpace (FormValue r ''verify_secret'');
          verifyHeader = TrimSpace (FormValue r ''verify_header'');
          toleranceRaw = TrimSpace (FormValue r ''tolerance'');
          clearVerify = (FormValue r ''clear_verify_secret'' \<noteq> []);
          kept = (case existing of None \<Rightarrow> empty_rule | Some e \<Rightarrow> e)
      in if clearVerify then Inr ([], [], 0)
         else if verifySecret \<noteq> [] then
           (case parseTolerance toleranceRaw DefaultToleranceSeconds of
              Inl e \<Rightarrow> Inl e
            | Inr tolerance \<Rightarrow> Inr (verifySecret, normalizeVerifyHeader verifyHeader DefaultIncomingHeader, tolerance))
         else if existing \<noteq> None \<and> fr_VerifySecret kept \<noteq> [] then
           (case parseTolerance toleranceRaw (fr_ToleranceSeconds kept) of
              Inl e \<Rightarrow> Inl e
            | Inr tolerance \<Rightarrow>
                Inr (fr_VerifySecret kept,
                     normalizeVerifyHeader verifyHeader (normalizeVerifyHeader (fr_VerifyHeader kept) DefaultIncomingHeader),
                     tolerance))
         else Inr ([], [], 0))"

definition form_outgoing :: "request \<Rightarrow> forwarding_rule option \<Rightarrow> string" where
  "form_outgoing r existing =
     (let outgoingSecret = TrimSpace (FormValue r ''outgoing_secret'');
          clearOutgoing = (FormValue r ''clear_outgoing_secret'' \<noteq> [])
      in if clearOutgoing then []
         else if outgoingSecret \<noteq> [] then outgoingSecret
         else (case existing of None \<Rightarrow> [] | Some e \<Rightarrow> fr_OutgoingSecret e))"

definition parseForwardingRuleForm ::
    "(string \<Rightarrow> target_url option) \<Rightarrow> request \<Rightarrow> forwarding_rule option \<Rightarrow> go_error + forwarding_rule" where
  "parseForwardingRuleForm ParseRequestURI r existing =
     (let source = TrimSpace (FormValue r ''source''); target = TrimSpace (FormValue r ''target'')
      in if source = [] \<or> target = [] then Inl (ErrText ''source and target are required'')
         else if \<not> validSource source
         then Inl (ErrText ''source must be 1-64 letters, numbers, dots, underscores, or dashes'')
         else
           (case validateTargetURL ParseRequestURI target of
              Some e \<Rightarrow> Inl (ErrText e)
            | None \<Rightarrow>
                let rule = (case existing of None \<Rightarrow> empty_rule | Some e \<Rightarrow> e)\<lparr>fr_Source := source, fr_Target := target\<rparr>
                in case form_verification r existing of
                     Inl e \<Rightarrow> Inl e
                   | Inr (secret, header, tolerance) \<Rightarrow>
                       (case parsePositiveIntWithDefault (TrimSpace (FormValue r ''retry_max_attempts''))
                               DefaultMaxAttempts ''retry max attempts must be a positive integer'' of
                          Inl e \<Rightarrow> Inl e
                        | Inr attempts \<Rightarrow>
                            (case parsePositiveIntWithDefault (TrimSpace (FormValue r ''retry_backoff_seconds''))
                                    DefaultBackoffSeconds ''retry backoff seconds must be a positive integer'' of
                               Inl e \<Rightarrow> Inl e
                             | Inr backoff \<Rightarrow>
                                 Inr (rule\<lparr>fr_VerifySecret := secret, fr_VerifyHeader := header,
                                           fr_ToleranceSeconds := tolerance,
                                           fr_OutgoingSecret := form_outgoing r existing,
                                           fr_RetryMaxAttempts := attempts, fr_RetryBackoffSeconds := backoff\<rparr>)))))"

section \<open>Handlers\<close>

text \<open>\<open>error_text\<close> is the text the code writes of the error it got.\<close>

definition SaveForwardingRule_handler ::
    "(string \<Rightarrow> target_url option) \<Rightarrow> (forwarding_rule \<Rightarrow> 's \<Rightarrow> (go_error + unit) \<times> 's) \<Rightarrow> 's handler" where
  "SaveForwardingRule_handler ParseRequestURI save r s =
     (if rq_form r = None then (http_Error ''Invalid form'' 400, s)
      else
        (case parseForwardingRuleForm ParseRequestURI r None of
           Inl e \<Rightarrow> (http_Error (error_text e) 400, s)
         | Inr rule \<Rightarrow>
             (case save rule s of
                (Inl e, s') \<Rightarrow> (http_Error ''Failed to save forwarding rule'' 503, s')
              | (Inr _, s') \<Rightarrow> (http_Redirect ''/forwarding'' 303, s'))))"

text \<open>Between reading the rule and saving the edited one, \<open>others\<close> may change the store.\<close>

definition UpdateForwardingRule ::
    "(string \<Rightarrow> target_url option) \<Rightarrow> (string \<Rightarrow> 's \<Rightarrow> go_error + forwarding_rule) \<Rightarrow>
     (forwarding_rule \<Rightarrow> 's \<Rightarrow> (go_error + unit) \<times> 's) \<Rightarrow> ('s \<Rightarrow> 's) \<Rightarrow> 's handler" where
  "UpdateForwardingRule ParseRequestURI get save others r s =
     (if rq_form r = None then (http_Error ''Invalid form'' 400, s)
      else
        (case get (TrimSpace (FormValue r ''source'')) s of
           Inl e \<Rightarrow>
             if e = ErrNotFound then (http_Error ''Rule not found'' 404, s)
             else (http_Error ''Database unavailable'' 503, s)
         | Inr existing \<Rightarrow>
             (case parseForwardingRuleForm ParseRequestURI r (Some existing) of
                Inl e \<Rightarrow> (http_Error (error_text e) 400, s)
              | Inr rule \<Rightarrow>
                  (case save rule (others s) of
                     (Inl e, s') \<Rightarrow> (http_Error ''Failed to update forwarding rule'' 503, s')
                   | (Inr _, s') \<Rightarrow> (http_Redirect ''/forwarding'' 303, s')))))"

record edit_forwarding_data =
  ef_Rule :: forwarding_rule
  ef_CSRFToken :: string

definition EditForwardingForm ::
    "(string \<Rightarrow> 's \<Rightarrow> go_error + forwarding_rule) \<Rightarrow> request \<Rightarrow> 's \<Rightarrow> edit_forwarding_data rendered" where
  "EditForwardingForm get r s =
     (let source = get_value (rq_query r) ''source''
      in if source = [] then Refused (http_Error ''Missing source'' 400)
         else
           (case get source s of
              Inl e \<Rightarrow>
                if e = ErrNotFound then Refused (http_Error ''Rule not found'' 404)
                else Refused (http_Error ''Database unavailable'' 503)
            | Inr rule \<Rightarrow> Rendered \<lparr>ef_Rule = rule, ef_CSRFToken = rq_csrf r\<rparr>))"

record forwarding_page_data =
  fp_Rules :: "forwarding_rule list"
  fp_QueueCounts :: "string \<rightharpoonup> int"
  fp_CSRFToken :: string

definition ForwardingUI ::
    "('s \<Rightarrow> go_error + forwarding_rule list) \<Rightarrow> ('s \<Rightarrow> go_error + (string \<rightharpoonup> int)) \<Rightarrow> request \<Rightarrow> 's \<Rightarrow>
     forwarding_page_data rendered" where
  "ForwardingUI rules counts r s =
     (case rules s of
        Inl e \<Rightarrow> Refused (http_Error ''Database unavailable'' 503)
      | Inr rs \<Rightarrow>
          (case counts s of
             Inl e \<Rightarrow> Refused (http_Error ''Database unavailable'' 503)
           | Inr m \<Rightarrow> Rendered \<lparr>fp_Rules = rs, fp_QueueCounts = m, fp_CSRFToken = rq_csrf r\<rparr>))"

section \<open>The rules a form makes\<close>

text \<open>What every rule made by a form satisfies.\<close>

definition target_ok :: "(string \<Rightarrow> target_url option) \<Rightarrow> string \<Rightarrow> bool" where
  "target_ok ParseRequestURI target \<longleftrightarrow> target \<noteq> [] \<and> length target \<le> 2048 \<and>
     (case ParseRequestURI target of None \<Rightarrow> False
      | Some u \<Rightarrow> tu_Host u \<noteq> [] \<and> tu_Scheme u \<in> {''http'', ''https''} \<and> \<not> tu_has_User u)"

definition rule_ok :: "(string \<Rightarrow> target_url option) \<Rightarrow> forwarding_rule \<Rightarrow> bool" where
  "rule_ok ParseRequestURI rule \<longleftrightarrow>
     validSource (fr_Source rule) \<and> target_ok ParseRequestURI (fr_Target rule) \<and>
     0 < fr_RetryMaxAttempts rule \<and> 0 < fr_RetryBackoffSeconds rule \<and> 0 \<le> fr_ToleranceSeconds rule \<and>
     fr_RetryMaxAttempts rule \<le> max_int64 \<and> fr_RetryBackoffSeconds rule \<le> max_int64 \<and> fr_ToleranceSeconds rule \<le> max_int64 \<and>
     TrimSpace (fr_Target rule) = fr_Target rule \<and> TrimSpace (fr_VerifyHeader rule) = fr_VerifyHeader rule \<and>
     (fr_VerifySecret rule = [] \<longrightarrow> fr_VerifyHeader rule = [] \<and> fr_ToleranceSeconds rule = 0) \<and>
     (fr_VerifySecret rule \<noteq> [] \<longrightarrow> fr_VerifyHeader rule \<noteq> [])"

lemma validateTargetURL_None: "validateTargetURL p target = None \<Longrightarrow> target \<noteq> [] \<Longrightarrow> target_ok p target"
  by (auto simp: validateTargetURL_def target_ok_def split: if_splits option.splits)

lemma parsePositive_pos:
  "parsePositiveIntWithDefault raw fallback m = Inr v \<Longrightarrow> 0 < fallback \<and> fallback \<le> max_int64 \<Longrightarrow> 0 < v \<and> v \<le> max_int64"
  by (auto simp: parsePositiveIntWithDefault_def in_int64_def dest: ParseInt_in_int64 split: if_splits option.splits)

lemma parseTolerance_pos:
  "parseTolerance raw fallback = Inr v \<Longrightarrow> 0 \<le> fallback \<and> fallback \<le> max_int64 \<Longrightarrow> 0 \<le> v \<and> v \<le> max_int64"
  by (auto simp: parseTolerance_def in_int64_def dest: ParseInt_in_int64 split: if_splits option.splits)

lemma normalizeVerifyHeader_trimmed:
  "TrimSpace fallback = fallback \<Longrightarrow> TrimSpace (normalizeVerifyHeader value fallback) = normalizeVerifyHeader value fallback"
  by (simp add: normalizeVerifyHeader_def Let_def)

text \<open>A tolerance that was read from a form or set by default.\<close>

definition tolerance_ok :: "int \<Rightarrow> bool" where
  "tolerance_ok t \<longleftrightarrow> 0 \<le> t \<and> t \<le> max_int64"

lemma normalizeVerifyHeader_nonempty: "fallback \<noteq> [] \<Longrightarrow> normalizeVerifyHeader value fallback \<noteq> []"
  by (simp add: normalizeVerifyHeader_def Let_def)

lemma form_verification_ok:
  assumes "form_verification r existing = Inr (secret, header, tolerance)"
    and "case existing of None \<Rightarrow> True | Some e \<Rightarrow> tolerance_ok (fr_ToleranceSeconds e)"
  shows "tolerance_ok tolerance" "TrimSpace header = header" "secret = [] \<Longrightarrow> header = [] \<and> tolerance = 0" "secret \<noteq> [] \<Longrightarrow> header \<noteq> []"
    and "secret = (if FormValue r ''clear_verify_secret'' \<noteq> [] then []
       else if TrimSpace (FormValue r ''verify_secret'') \<noteq> [] then TrimSpace (FormValue r ''verify_secret'')
       else (case existing of None \<Rightarrow> [] | Some e \<Rightarrow> fr_VerifySecret e))"
proof -
  have d: "DefaultIncomingHeader \<noteq> []" "0 \<le> DefaultToleranceSeconds \<and> DefaultToleranceSeconds \<le> max_int64"
    by (simp_all add: DefaultIncomingHeader_def DefaultToleranceSeconds_def max_int64_def)
  have "TrimSpace DefaultIncomingHeader = DefaultIncomingHeader" by code_simp
  then have trimmed: "TrimSpace (normalizeVerifyHeader v DefaultIncomingHeader) = normalizeVerifyHeader v DefaultIncomingHeader" for v
    by (rule normalizeVerifyHeader_trimmed)
  show "TrimSpace header = header" using assms trimmed normalizeVerifyHeader_trimmed [OF trimmed]
    by (auto simp: form_verification_def Let_def split: if_splits option.splits sum.splits)
  show "tolerance_ok tolerance" using assms d
    by (auto simp: form_verification_def Let_def tolerance_ok_def max_int64_def dest!: parseTolerance_pos
        split: if_splits option.splits sum.splits)
  show "secret = [] \<Longrightarrow> header = [] \<and> tolerance = 0" "secret \<noteq> [] \<Longrightarrow> header \<noteq> []"
    "secret = (if FormValue r ''clear_verify_secret'' \<noteq> [] then []
       else if TrimSpace (FormValue r ''verify_secret'') \<noteq> [] then TrimSpace (FormValue r ''verify_secret'')
       else (case existing of None \<Rightarrow> [] | Some e \<Rightarrow> fr_VerifySecret e))"
    using assms d
    by (auto simp: form_verification_def Let_def normalizeVerifyHeader_nonempty
        split: if_splits option.splits sum.splits)
qed

lemma parseForwardingRuleForm_Inr:
  assumes "parseForwardingRuleForm p r existing = Inr rule"
  obtains secret header tolerance attempts backoff where
    "validSource (TrimSpace (FormValue r ''source''))" "target_ok p (TrimSpace (FormValue r ''target''))"
    "form_verification r existing = Inr (secret, header, tolerance)" "0 < attempts \<and> attempts \<le> max_int64"
    "0 < backoff \<and> backoff \<le> max_int64"
    "rule = (case existing of None \<Rightarrow> empty_rule | Some e \<Rightarrow> e)\<lparr>fr_Source := TrimSpace (FormValue r ''source''),
       fr_Target := TrimSpace (FormValue r ''target''), fr_VerifySecret := secret, fr_VerifyHeader := header,
       fr_ToleranceSeconds := tolerance, fr_OutgoingSecret := form_outgoing r existing,
       fr_RetryMaxAttempts := attempts, fr_RetryBackoffSeconds := backoff\<rparr>"
proof -
  have d: "0 < DefaultMaxAttempts \<and> DefaultMaxAttempts \<le> max_int64" "0 < DefaultBackoffSeconds \<and> DefaultBackoffSeconds \<le> max_int64"
    by (simp_all add: DefaultMaxAttempts_def DefaultBackoffSeconds_def max_int64_def)
  show thesis
    using assms that d unfolding parseForwardingRuleForm_def Let_def
    by (simp split: if_splits option.splits sum.splits prod.splits
        add: validateTargetURL_None parsePositive_pos)
      (metis parsePositive_pos validateTargetURL_None)+
qed

lemma parsed_rule_ok:
  assumes "parseForwardingRuleForm p r existing = Inr rule"
    and "case existing of None \<Rightarrow> True | Some e \<Rightarrow> tolerance_ok (fr_ToleranceSeconds e)"
  shows "rule_ok p rule"
  using assms(1)
proof (rule parseForwardingRuleForm_Inr)
  fix secret header tolerance attempts backoff
  assume h: "validSource (TrimSpace (FormValue r ''source''))" "target_ok p (TrimSpace (FormValue r ''target''))"
    "form_verification r existing = Inr (secret, header, tolerance)" "0 < attempts \<and> attempts \<le> max_int64" "0 < backoff \<and> backoff \<le> max_int64"
    and rule: "rule = (case existing of None \<Rightarrow> empty_rule | Some e \<Rightarrow> e)\<lparr>fr_Source := TrimSpace (FormValue r ''source''),
       fr_Target := TrimSpace (FormValue r ''target''), fr_VerifySecret := secret, fr_VerifyHeader := header,
       fr_ToleranceSeconds := tolerance, fr_OutgoingSecret := form_outgoing r existing,
       fr_RetryMaxAttempts := attempts, fr_RetryBackoffSeconds := backoff\<rparr>"
  show "rule_ok p rule"
    using h form_verification_ok(1-4) [OF h(3) assms(2)] by (simp add: rule rule_ok_def tolerance_ok_def)
qed

lemma parsed_new: "parseForwardingRuleForm p r None = Inr rule \<Longrightarrow> rule_ok p rule"
  by (rule parsed_rule_ok [of p r None]) simp_all

lemma parsed_edit:
  "parseForwardingRuleForm p r (Some e) = Inr rule \<Longrightarrow> rule_ok p e \<Longrightarrow> rule_ok p rule"
  by (rule parsed_rule_ok [of p r "Some e"]) (simp_all add: rule_ok_def tolerance_ok_def)

section \<open>Properties\<close>

text \<open>
  A form read independently of the code: a number field that may be left empty, and the list of
  what can be wrong with a form, each with its message, in the order in which it is reported.
\<close>

definition form_number :: "request \<Rightarrow> string \<Rightarrow> int \<Rightarrow> int \<Rightarrow> int option" where
  "form_number r name fallback least =
     (if TrimSpace (FormValue r name) = [] then Some fallback
      else (case Atoi (TrimSpace (FormValue r name)) of
              Some v \<Rightarrow> if least \<le> v then Some v else None
            | None \<Rightarrow> None))"

definition form_problems ::
    "(string \<Rightarrow> target_url option) \<Rightarrow> string \<Rightarrow> string \<Rightarrow> int option \<Rightarrow> int option \<Rightarrow> int option \<Rightarrow> (bool \<times> string) list" where
  "form_problems ParseRequestURI source target tolerance attempts backoff =
     [(source = [] \<or> target = [], ''source and target are required''),
      (\<not> validSource source, ''source must be 1-64 letters, numbers, dots, underscores, or dashes''),
      (2048 < length target, ''target URL is too long''),
      (\<nexists>u. ParseRequestURI target = Some u \<and> tu_Host u \<noteq> [] \<and> tu_Scheme u \<in> {''http'', ''https''},
         ''target must be an absolute http or https URL''),
      (\<exists>u. ParseRequestURI target = Some u \<and> tu_has_User u, ''target URL must not contain credentials''),
      (tolerance = None, ''tolerance must be a non-negative integer''),
      (attempts = None, ''retry max attempts must be a positive integer''),
      (backoff = None, ''retry backoff seconds must be a positive integer'')]"

lemma validateTargetURL_spec:
  "validateTargetURL p target =
     (if 2048 < length target then Some ''target URL is too long''
      else if \<nexists>u. p target = Some u \<and> tu_Host u \<noteq> [] \<and> tu_Scheme u \<in> {''http'', ''https''}
      then Some ''target must be an absolute http or https URL''
      else if \<exists>u. p target = Some u \<and> tu_has_User u then Some ''target URL must not contain credentials''
      else None)"
  by (cases "p target") (auto simp: validateTargetURL_def)

lemma parsePositive_spec:
  "parsePositiveIntWithDefault (TrimSpace (FormValue r name)) fallback m =
     (case form_number r name fallback 1 of None \<Rightarrow> Inl (ErrText m) | Some v \<Rightarrow> Inr v)"
  by (auto simp: parsePositiveIntWithDefault_def form_number_def split: option.split)

lemma parseTolerance_spec:
  "parseTolerance (TrimSpace (FormValue r ''tolerance'')) fallback =
     (case form_number r ''tolerance'' fallback 0 of
        None \<Rightarrow> Inl (ErrText ''tolerance must be a non-negative integer'') | Some v \<Rightarrow> Inr v)"
  by (auto simp: parseTolerance_def form_number_def split: option.split)

text \<open>The signature settings a form asks for: the secret, the header and the tolerance.\<close>

lemma form_verification_spec:
  fixes r :: request and existing :: "forwarding_rule option"
  defines "kept \<equiv> (case existing of None \<Rightarrow> empty_rule | Some e \<Rightarrow> e)"
    and "brought \<equiv> TrimSpace (FormValue r ''verify_secret'')"
    and "header \<equiv> TrimSpace (FormValue r ''verify_header'')"
  defines "secret \<equiv> (if FormValue r ''clear_verify_secret'' \<noteq> [] then [] else if brought \<noteq> [] then brought else fr_VerifySecret kept)"
  shows "form_verification r existing =
    (if secret = [] then Inr ([], [], 0)
     else (case form_number r ''tolerance'' (if brought \<noteq> [] then 300 else fr_ToleranceSeconds kept) 0 of
        None \<Rightarrow> Inl (ErrText ''tolerance must be a non-negative integer'')
      | Some t \<Rightarrow> Inr (secret,
          if header \<noteq> [] then header
          else if brought = [] \<and> TrimSpace (fr_VerifyHeader kept) \<noteq> [] then TrimSpace (fr_VerifyHeader kept)
          else ''Stripe-Signature'', t)))"
proof -
  have "existing = None \<Longrightarrow> fr_VerifySecret kept = []" by (simp add: kept_def empty_rule_def)
  then show ?thesis
    unfolding form_verification_def parseTolerance_spec Let_def secret_def
    unfolding kept_def [symmetric] brought_def [symmetric] header_def [symmetric]
    by (cases "existing = None")
      (auto simp: normalizeVerifyHeader_def DefaultIncomingHeader_def DefaultToleranceSeconds_def header_def split: option.split)
qed

text \<open>
  C20: what a rule's form means. The form is refused with the message of the first thing wrong with
  it, in this order: source or target missing, an invalid source, a target that is too long, is
  not an absolute http or https URL, or has credentials, a tolerance, a number of attempts or a
  backoff that is not a number in range (the tolerance counts only when the rule will have a
  secret). Otherwise it is accepted, and every column of the rule is determined: source and target
  from the form; the verification secret from the form, else the one of the rule being edited, none
  if it is to be cleared; with a secret the header and tolerance of the form, with their
  defaults, else neither; the outgoing secret likewise; the retry settings of the form, 3 attempts
  and 2 seconds by default. Identity and pause flag are those of the rule being edited. Such a rule
  is well formed.
\<close>

theorem rule_form_correct:
  assumes "kept = (case existing of None \<Rightarrow> empty_rule | Some e \<Rightarrow> e)"
    and "source = TrimSpace (FormValue r ''source'')" and "target = TrimSpace (FormValue r ''target'')"
    and "brought = TrimSpace (FormValue r ''verify_secret'')"
    and "secret = (if FormValue r ''clear_verify_secret'' \<noteq> [] then [] else if brought \<noteq> [] then brought else fr_VerifySecret kept)"
    and "header = TrimSpace (FormValue r ''verify_header'')"
    and "tolerance = (if secret = [] then Some 0
           else form_number r ''tolerance'' (if brought \<noteq> [] then 300 else fr_ToleranceSeconds kept) 0)"
    and "attempts = form_number r ''retry_max_attempts'' 3 1" and "backoff = form_number r ''retry_backoff_seconds'' 2 1"
  shows "parseForwardingRuleForm p r existing =
    (case find fst (form_problems p source target tolerance attempts backoff) of
       Some problem \<Rightarrow> Inl (ErrText (snd problem))
     | None \<Rightarrow> Inr \<lparr>fr_ID = fr_ID kept, fr_Source = source, fr_Target = target, fr_Paused = fr_Paused kept,
         fr_VerifySecret = secret,
         fr_VerifyHeader =
           (if secret = [] then [] else if header \<noteq> [] then header
            else if brought = [] \<and> TrimSpace (fr_VerifyHeader kept) \<noteq> [] then TrimSpace (fr_VerifyHeader kept)
            else ''Stripe-Signature''),
         fr_ToleranceSeconds = the tolerance,
         fr_OutgoingSecret =
           (if FormValue r ''clear_outgoing_secret'' \<noteq> [] then []
            else if TrimSpace (FormValue r ''outgoing_secret'') \<noteq> [] then TrimSpace (FormValue r ''outgoing_secret'')
            else fr_OutgoingSecret kept),
         fr_RetryMaxAttempts = the attempts, fr_RetryBackoffSeconds = the backoff\<rparr>) \<and>
    (\<forall>rule. parseForwardingRuleForm p r existing = Inr rule \<longrightarrow>
       0 \<le> fr_ToleranceSeconds kept \<and> fr_ToleranceSeconds kept \<le> max_int64 \<longrightarrow> rule_ok p rule)"
proof (intro conjI allI impI)
  show "rule_ok p rule" if "parseForwardingRuleForm p r existing = Inr rule"
    "0 \<le> fr_ToleranceSeconds kept \<and> fr_ToleranceSeconds kept \<le> max_int64" for rule
    using parsed_rule_ok [OF that(1)] that(2) by (simp add: assms(1) tolerance_ok_def split: option.splits)
  have outgoing: "form_outgoing r existing =
      (if FormValue r ''clear_outgoing_secret'' \<noteq> [] then []
       else if TrimSpace (FormValue r ''outgoing_secret'') \<noteq> [] then TrimSpace (FormValue r ''outgoing_secret'')
       else fr_OutgoingSecret kept)"
    by (simp add: form_outgoing_def assms(1) empty_rule_def split: option.split)
  have verification: "form_verification r existing =
      (case tolerance of None \<Rightarrow> Inl (ErrText ''tolerance must be a non-negative integer'')
       | Some t \<Rightarrow> Inr (secret,
           if secret = [] then [] else if header \<noteq> [] then header
           else if brought = [] \<and> TrimSpace (fr_VerifyHeader kept) \<noteq> [] then TrimSpace (fr_VerifyHeader kept)
           else ''Stripe-Signature'', t))"
    using form_verification_spec [of r existing, folded assms(1,4,6), folded assms(5)]
    by (auto simp: assms(7) split: option.split)
  have settings: "parsePositiveIntWithDefault (TrimSpace (FormValue r ''retry_max_attempts'')) DefaultMaxAttempts m =
      (case attempts of None \<Rightarrow> Inl (ErrText m) | Some v \<Rightarrow> Inr v)"
    "parsePositiveIntWithDefault (TrimSpace (FormValue r ''retry_backoff_seconds'')) DefaultBackoffSeconds m =
      (case backoff of None \<Rightarrow> Inl (ErrText m) | Some v \<Rightarrow> Inr v)" for m
    unfolding parsePositive_spec by (simp_all add: assms(8,9) DefaultMaxAttempts_def DefaultBackoffSeconds_def)
  show "parseForwardingRuleForm p r existing =
    (case find fst (form_problems p source target tolerance attempts backoff) of
       Some problem \<Rightarrow> Inl (ErrText (snd problem))
     | None \<Rightarrow> Inr \<lparr>fr_ID = fr_ID kept, fr_Source = source, fr_Target = target, fr_Paused = fr_Paused kept,
         fr_VerifySecret = secret,
         fr_VerifyHeader =
           (if secret = [] then [] else if header \<noteq> [] then header
            else if brought = [] \<and> TrimSpace (fr_VerifyHeader kept) \<noteq> [] then TrimSpace (fr_VerifyHeader kept)
            else ''Stripe-Signature''),
         fr_ToleranceSeconds = the tolerance,
         fr_OutgoingSecret =
           (if FormValue r ''clear_outgoing_secret'' \<noteq> [] then []
            else if TrimSpace (FormValue r ''outgoing_secret'') \<noteq> [] then TrimSpace (FormValue r ''outgoing_secret'')
            else fr_OutgoingSecret kept),
         fr_RetryMaxAttempts = the attempts, fr_RetryBackoffSeconds = the backoff\<rparr>)"
    unfolding parseForwardingRuleForm_def Let_def validateTargetURL_spec verification settings outgoing form_problems_def
    unfolding assms(1-3) [symmetric]
    by (cases "p target"; cases tolerance; cases attempts; cases backoff) simp_all
qed

definition demo_urls :: "string \<Rightarrow> target_url option" where
  "demo_urls s = (if starts_with ''https://'' s then Some \<lparr>tu_Scheme = ''https'', tu_Host = drop 8 s, tu_has_User = False\<rparr> else None)"

definition demo_form :: request where
  "demo_form = no_request\<lparr>rq_method := ''POST'', rq_form :=
     Some ([(''source'', ['' stripe'']), (''target'', [''https://a'']), (''retry_max_attempts'', [''5''])], [])\<rparr>"

definition demo_old_rule :: forwarding_rule where
  "demo_old_rule = demo_secret_rule\<lparr>fr_Target := ''https://b'', fr_Paused := True, fr_VerifyHeader := ''X-Sig'', fr_OutgoingSecret := ''o''\<rparr>"

definition demo_new_rule :: forwarding_rule where
  "demo_new_rule = demo_old_rule\<lparr>fr_Target := ''https://a'', fr_RetryMaxAttempts := 5, fr_RetryBackoffSeconds := 2\<rparr>"

lemma demo_form_parsed: "parseForwardingRuleForm demo_urls demo_form (Some demo_old_rule) = Inr demo_new_rule"
proof -
  have trim: "TrimSpace '' stripe'' = ''stripe''" "TrimSpace ''https://a'' = ''https://a''" "TrimSpace ''5'' = ''5''"
    "TrimSpace ''X-Sig'' = ''X-Sig''" "TrimSpace [] = []" by code_simp+
  have num: "Atoi ''5'' = Some 5" and src: "validSource ''stripe''" by code_simp+
  have field: "FormValue demo_form n =
      (if n = ''source'' then '' stripe'' else if n = ''target'' then ''https://a'' else if n = ''retry_max_attempts'' then ''5'' else [])" for n
    by (simp add: FormValue_def demo_form_def get_value_def)
  have url: "validateTargetURL demo_urls ''https://a'' = None"
    by (simp add: validateTargetURL_def demo_urls_def)
  show ?thesis
    by (simp add: parseForwardingRuleForm_def form_verification_def form_outgoing_def field trim num src url
        parseTolerance_def parsePositiveIntWithDefault_def normalizeVerifyHeader_def DefaultBackoffSeconds_def
        demo_old_rule_def demo_new_rule_def demo_secret_rule_def empty_rule_def)
qed

theorem rule_form_correct_witness:
  "rule_ok demo_urls demo_new_rule \<and> fr_VerifySecret demo_new_rule = ''k'' \<and> fr_Paused demo_new_rule \<and>
   parseForwardingRuleForm demo_urls no_request None = Inl (ErrText ''source and target are required'')"
proof (intro conjI)
  have "0 \<le> fr_ToleranceSeconds demo_old_rule \<and> fr_ToleranceSeconds demo_old_rule \<le> max_int64"
    by (simp add: max_int64_def demo_old_rule_def demo_secret_rule_def)
  then show "rule_ok demo_urls demo_new_rule"
    using rule_form_correct [OF refl refl refl refl refl refl refl refl refl, of demo_urls demo_form "Some demo_old_rule"]
      demo_form_parsed by simp
  have empty: "FormValue no_request n = []" "TrimSpace [] = []" for n
    by (simp add: FormValue_def no_request_def get_value_def, code_simp)
  show "parseForwardingRuleForm demo_urls no_request None = Inl (ErrText ''source and target are required'')"
    using rule_form_correct [OF refl refl refl refl refl refl refl refl refl, of demo_urls no_request None]
    by (simp add: empty form_problems_def)
qed (simp_all add: demo_new_rule_def demo_old_rule_def demo_secret_rule_def)

text \<open>All stored rules.\<close>

definition rules_ok :: "(string \<Rightarrow> target_url option) \<Rightarrow> db \<Rightarrow> bool" where
  "rules_ok p d \<longleftrightarrow> list_all (rule_ok p) (t_rules d)"

lemma update_rule_columns_ok:
  "rule_ok p old \<Longrightarrow> rule_ok p rule \<Longrightarrow> rule_ok p (update_rule_columns rule old)"
  by (simp add: rule_ok_def update_rule_columns_def)

text \<open>
  The stores of the rule handlers: a rule that is found is a stored one; saving stores the rule under
  a key, or gives its settings to a stored one; pausing changes nothing else; deleting adds nothing.
\<close>

locale rule_store =
  fixes get :: "string \<Rightarrow> 's \<Rightarrow> go_error + forwarding_rule"
    and save :: "forwarding_rule \<Rightarrow> 's \<Rightarrow> (go_error + unit) \<times> 's"
    and set_paused :: "string \<Rightarrow> bool \<Rightarrow> 's \<Rightarrow> (go_error + unit) \<times> 's"
    and delete :: "string \<Rightarrow> 's \<Rightarrow> (go_error + unit) \<times> 's"
    and rules :: "'s \<Rightarrow> forwarding_rule list"
  assumes get_stored: "get source s = Inr r \<Longrightarrow> r \<in> set (rules s)"
    and save_rules: "save rule s = (res, s') \<Longrightarrow> r \<in> set (rules s') \<Longrightarrow>
      r \<in> set (rules s) \<or> (\<exists>k. r = rule\<lparr>fr_ID := k\<rparr>) \<or> (\<exists>old \<in> set (rules s). r = update_rule_columns rule old)"
    and pause_rules: "set_paused source paused s = (res, s') \<Longrightarrow> r \<in> set (rules s') \<Longrightarrow>
      r \<in> set (rules s) \<or> (\<exists>old \<in> set (rules s). r = old\<lparr>fr_Paused := paused\<rparr>)"
    and delete_rules: "delete source s = (res, s') \<Longrightarrow> set (rules s') \<subseteq> set (rules s)"
begin

text \<open>The handlers keep every rule well formed, whatever the request.\<close>

lemma saved_ok:
  assumes "list_all (rule_ok p) (rules s)" and "rule_ok p rule" and "save rule s = (res, s')"
  shows "list_all (rule_ok p) (rules s')"
proof -
  have "rule_ok p (rule\<lparr>fr_ID := k\<rparr>)" for k using assms(2) by (simp add: rule_ok_def)
  then show ?thesis
    using assms(1,2) save_rules [OF assms(3)] update_rule_columns_ok [of p _ rule] by (fastforce simp: list_all_iff)
qed

lemma save_handler_ok:
  assumes "list_all (rule_ok p) (rules s)" and "SaveForwardingRule_handler p save r s = (rp, s')"
  shows "list_all (rule_ok p) (rules s')"
  using assms saved_ok [OF assms(1) parsed_new]
  by (auto simp: SaveForwardingRule_handler_def split: sum.splits prod.splits if_splits)

lemma update_handler_ok:
  assumes "list_all (rule_ok p) (rules s)" and "list_all (rule_ok p) (rules (others s))"
    and "UpdateForwardingRule p get save others r s = (rp, s')"
  shows "list_all (rule_ok p) (rules s')"
proof -
  have "rule_ok p e" if "get source s = Inr e" for source e
    using get_stored [OF that] assms(1) by (simp add: list_all_iff)
  then show ?thesis
    using assms saved_ok [OF assms(2) parsed_edit]
    by (auto simp: UpdateForwardingRule_def split: sum.splits prod.splits if_splits)
qed

lemma pause_handler_ok:
  assumes "list_all (rule_ok p) (rules s)" and "SetForwardingPaused_handler set_paused paused r s = (rp, s')"
  shows "list_all (rule_ok p) (rules s')"
proof -
  have "rule_ok p e \<Longrightarrow> rule_ok p (e\<lparr>fr_Paused := paused\<rparr>)" for e by (simp add: rule_ok_def)
  then have "list_all (rule_ok p) (rules e)" if "set_paused source paused s = (res, e)" for source res e
    using pause_rules [OF that] assms(1) by (fastforce simp: list_all_iff)
  then show ?thesis
    using assms by (auto simp: SetForwardingPaused_handler_def Let_def split: sum.splits prod.splits if_splits)
qed

lemma delete_handler_ok:
  assumes "list_all (rule_ok p) (rules s)" and "DeleteForwardingRule_handler delete r s = (rp, s')"
  shows "list_all (rule_ok p) (rules s')"
proof -
  have "list_all (rule_ok p) (rules e)" if "delete source s = (res, e)" for source res e
    using delete_rules [OF that] assms(1) by (auto simp: list_all_iff)
  then show ?thesis
    using assms by (auto simp: DeleteForwardingRule_handler_def Let_def split: sum.splits prod.splits if_splits)
qed

end

interpretation db_rules: rule_store "GetForwardingRule b" "SaveForwardingRule f" "SetForwardingPaused f" "DeleteForwardingRule f" t_rules
  for b f
proof unfold_locales
  show "GetForwardingRule b source d = Inr r \<Longrightarrow> r \<in> set (t_rules d)" for source d r
    by (auto simp: GetForwardingRule_def dest!: find_Some_in split: if_splits option.splits)
  show "r \<in> set (t_rules d) \<or> (\<exists>k. r = rule\<lparr>fr_ID := k\<rparr>) \<or> (\<exists>old \<in> set (t_rules d). r = update_rule_columns rule old)"
    if saved: "SaveForwardingRule f rule d = (res, d')" and r: "r \<in> set (t_rules d')" for rule d res d' r
    using saved unfolding SaveForwardingRule_def
  proof (cases rule: transaction_cases)
    case (rolled_back e)
    then show ?thesis using r by simp
  next
    case (applied u)
    then have "upsert_rule rule d = Inr (u, d')" by (simp split: if_splits)
    then show ?thesis using r by (rule set_upsert)
  qed
  show "r \<in> set (t_rules d) \<or> (\<exists>old \<in> set (t_rules d). r = old\<lparr>fr_Paused := paused\<rparr>)"
    if paused: "SetForwardingPaused f source paused d = (res, d')" and r: "r \<in> set (t_rules d')" for source paused d res d' r
    using SetForwardingPaused_cases [OF paused]
  proof
    assume "d' = d\<lparr>t_rules := update_rows (\<lambda>r. fr_Source r = source) (\<lambda>r. r\<lparr>fr_Paused := paused\<rparr>) (t_rules d)\<rparr>"
    then have "t_rules d' = update_rows (\<lambda>r. fr_Source r = source) (\<lambda>r. r\<lparr>fr_Paused := paused\<rparr>) (t_rules d)" by simp
    with r show ?thesis using in_update_rows by metis
  qed (use r in simp)
  show "DeleteForwardingRule f source d = (res, d') \<Longrightarrow> set (t_rules d') \<subseteq> set (t_rules d)" for source d res d'
    by (auto simp: DeleteForwardingRule_def transaction_def exec_def split: if_splits commit_outcome.splits)
qed

lemma rules_ok_handlers:
  assumes "rules_ok p d" and "\<And>e. rules_ok p e \<Longrightarrow> rules_ok p (others e)"
  shows "rules_ok p (snd (SaveForwardingRule_handler p (SaveForwardingRule f) r d)) \<and>
    rules_ok p (snd (UpdateForwardingRule p (GetForwardingRule b) (SaveForwardingRule f) others r d)) \<and>
    rules_ok p (snd (SetForwardingPaused_handler (SetForwardingPaused f) paused r d)) \<and>
    rules_ok p (snd (DeleteForwardingRule_handler (DeleteForwardingRule f) r d))"
  using assms(1) assms(2) [OF assms(1)] unfolding rules_ok_def
  by (intro conjI db_rules.save_handler_ok [OF _ prod.collapse [symmetric]] db_rules.update_handler_ok [OF _ _ prod.collapse [symmetric]]
      db_rules.pause_handler_ok [OF _ prod.collapse [symmetric]] db_rules.delete_handler_ok [OF _ prod.collapse [symmetric]])

text \<open>
  C21: every stored rule is well formed. If all stored rules are what a form can produce, they
  still are after any of the handlers that change rules, whatever the request, the database's
  faults and, between the two steps of an update, the others' changes.
\<close>

theorem rules_stay_well_formed:
  assumes "rules_ok p d" and "\<And>e. rules_ok p e \<Longrightarrow> rules_ok p (others e)"
  shows "rules_ok p (snd (SaveForwardingRule_handler p (SaveForwardingRule f) r d)) \<and>
    rules_ok p (snd (UpdateForwardingRule p (GetForwardingRule b) (SaveForwardingRule f) others r d)) \<and>
    rules_ok p (snd (SetForwardingPaused_handler (SetForwardingPaused f) paused r d)) \<and>
    rules_ok p (snd (DeleteForwardingRule_handler (DeleteForwardingRule f) r d))"
  by (rule rules_ok_handlers [OF assms])

theorem rules_stay_well_formed_witness:
  "rules_ok demo_urls (snd (SaveForwardingRule_handler demo_urls (SaveForwardingRule no_faults) demo_form empty_db))"
proof -
  have "rules_ok demo_urls empty_db" by (simp add: rules_ok_def empty_db_def)
  from rules_stay_well_formed [OF this, of "\<lambda>d. d" no_faults demo_form] show ?thesis by blast
qed

end
