(* ===== verification/LoginLimiter.thy ===== *)
theory LoginLimiter
  imports GoLib
begin

text \<open>
  \<open>internal/handler/login_limiter.go\<close>: the per-client limiter of failed logins. The map
  holds pointers to entries and a reservation keeps the pointer of its entry, so the entries
  live in an explicit store: \<open>attempts\<close> maps a client key to a reference, \<open>heap\<close> a
  reference to its entry. Each operation takes the value \<open>l.now()\<close> returned.

  The mutex makes \<open>reserve\<close> and \<open>finish\<close> atomic, so every concurrent execution is a
  sequence of these steps with the reservations still in flight: the step relation
  \<open>lim_step\<close>. Its invariant says that no entry in use is dropped, that \<open>pending\<close> counts
  the reservations in flight and that failures and in-flight checks stay within the limit.
\<close>

definition loginMaxAttempts :: int where "loginMaxAttempts = 10"
definition loginWindow :: duration where "loginWindow = 15 * minute"

record login_attempt =
  failures :: int
  pending :: int
  windowEnd :: time

record login_limiter =
  attempts :: "string \<Rightarrow> nat option"
  heap :: "nat \<Rightarrow> login_attempt"
  next_ref :: nat
  nextSweep :: time

datatype login_outcome = loginAborted | loginFailed | loginSucceeded

record login_reservation =
  res_entry :: nat
  res_windowEnd :: time

definition new_attempt :: login_attempt where
  "new_attempt = \<lparr>failures = 0, pending = 0, windowEnd = zero_time\<rparr>"

definition newLoginLimiter :: login_limiter where
  "newLoginLimiter = \<lparr>attempts = (\<lambda>_. None), heap = (\<lambda>_. new_attempt), next_ref = 0, nextSweep = zero_time\<rparr>"

definition sweepLocked :: "time \<Rightarrow> login_limiter \<Rightarrow> login_limiter" where
  "sweepLocked now l =
     (if now < nextSweep l then l
      else l\<lparr>attempts := (\<lambda>key. case attempts l key of
                 None \<Rightarrow> None
               | Some e \<Rightarrow> if pending (heap l e) = 0 \<and> \<not> now < windowEnd (heap l e) then None else Some e),
             nextSweep := now + loginWindow\<rparr>)"

definition entry_for :: "string \<Rightarrow> login_limiter \<Rightarrow> nat \<times> login_limiter" where
  \<comment> \<open>\<open>l.attempts[key]\<close>, allocating an empty entry for a new key\<close>
  "entry_for key l =
     (case attempts l key of
        Some e \<Rightarrow> (e, l)
      | None \<Rightarrow>
          (next_ref l,
           l\<lparr>attempts := (attempts l)(key \<mapsto> next_ref l),
             heap := (heap l)(next_ref l := new_attempt),
             next_ref := Suc (next_ref l)\<rparr>))"

definition renew_window :: "time \<Rightarrow> login_attempt \<Rightarrow> login_attempt" where
  "renew_window now a =
     (if \<not> now < windowEnd a then a\<lparr>failures := 0, windowEnd := now + loginWindow\<rparr> else a)"

definition reserve ::
    "string \<Rightarrow> time \<Rightarrow> login_limiter \<Rightarrow> login_reservation option \<times> int \<times> login_limiter" where
  "reserve key now l0 =
     (let l1 = sweepLocked now l0;
          (e, l2) = entry_for key l1;
          a = renew_window now (heap l2 e);
          l3 = l2\<lparr>heap := (heap l2)(e := a)\<rparr>
      in if failures a \<ge> loginMaxAttempts then
           (let remaining = windowEnd a - now
            in (None, (remaining + second - 1) div second, l3))
         else if failures a + pending a \<ge> loginMaxAttempts then (None, 1, l3)
         else
           (Some \<lparr>res_entry = e, res_windowEnd = windowEnd a\<rparr>, 0,
            l3\<lparr>heap := (heap l3)(e := a\<lparr>pending := pending a + 1\<rparr>)\<rparr>))"

definition finish :: "login_reservation \<Rightarrow> login_outcome \<Rightarrow> time \<Rightarrow> login_limiter \<Rightarrow> login_limiter" where
  "finish r outcome now l =
     (let e = res_entry r;
          a = (heap l e)\<lparr>pending := pending (heap l e) - 1\<rparr>;
          a' = (if \<not> now < res_windowEnd r \<or> windowEnd a \<noteq> res_windowEnd r then a
                else (case outcome of
                        loginFailed \<Rightarrow> a\<lparr>failures := failures a + 1\<rparr>
                      | loginSucceeded \<Rightarrow> a\<lparr>failures := 0\<rparr>
                      | loginAborted \<Rightarrow> a))
      in l\<lparr>heap := (heap l)(e := a')\<rparr>)"

subsection \<open>Executions\<close>

type_synonym lim_state = "login_limiter \<times> login_reservation list"

inductive lim_step :: "lim_state \<Rightarrow> lim_state \<Rightarrow> bool" where
  admitted: "reserve key now l = (Some r, k, l') \<Longrightarrow> lim_step (l, rs) (l', r # rs)"
| blocked: "reserve key now l = (None, k, l') \<Longrightarrow> lim_step (l, rs) (l', rs)"
| finished: "r \<in> set rs \<Longrightarrow> lim_step (l, rs) (finish r outcome now l, remove1 r rs)"

inductive lim_reachable :: "lim_state \<Rightarrow> bool" where
  lim_init: "lim_reachable (newLoginLimiter, [])"
| lim_next: "lim_reachable s \<Longrightarrow> lim_step s t \<Longrightarrow> lim_reachable t"

definition in_flight :: "login_reservation list \<Rightarrow> nat \<Rightarrow> nat" where
  "in_flight rs e = length (filter (\<lambda>r. res_entry r = e) rs)"

definition entry_ok :: "login_limiter \<Rightarrow> login_reservation list \<Rightarrow> nat \<Rightarrow> bool" where
  "entry_ok l rs e \<longleftrightarrow>
     e < next_ref l \<and> pending (heap l e) = int (in_flight rs e) \<and>
     0 \<le> failures (heap l e) \<and> failures (heap l e) + pending (heap l e) \<le> loginMaxAttempts"

fun lim_inv :: "lim_state \<Rightarrow> bool" where
  "lim_inv (l, rs) \<longleftrightarrow>
     (\<forall>key e. attempts l key = Some e \<longrightarrow> entry_ok l rs e) \<and>
     (\<forall>k k' e. attempts l k = Some e \<longrightarrow> attempts l k' = Some e \<longrightarrow> k = k') \<and>
     (\<forall>r \<in> set rs. \<exists>key. attempts l key = Some (res_entry r))"

declare lim_inv.simps [simp del]

lemma lim_invI:
  assumes "\<And>key e. attempts l key = Some e \<Longrightarrow> entry_ok l rs e"
    and "\<And>k k' e. attempts l k = Some e \<Longrightarrow> attempts l k' = Some e \<Longrightarrow> k = k'"
    and "\<And>r. r \<in> set rs \<Longrightarrow> \<exists>key. attempts l key = Some (res_entry r)"
  shows "lim_inv (l, rs)"
  using assms unfolding lim_inv.simps by blast

lemma lim_invD:
  assumes "lim_inv (l, rs)"
  shows "attempts l key = Some e \<Longrightarrow> entry_ok l rs e"
    and "attempts l k = Some e \<Longrightarrow> attempts l k' = Some e \<Longrightarrow> k = k'"
    and "r \<in> set rs \<Longrightarrow> \<exists>key. attempts l key = Some (res_entry r)"
  using assms unfolding lim_inv.simps by auto

lemma in_flight_simps [simp]:
  "in_flight [] e = 0"
  "in_flight (r # rs) e = (if res_entry r = e then Suc (in_flight rs e) else in_flight rs e)"
  by (simp_all add: in_flight_def)

lemma in_flight_remove1:
  "r \<in> set rs \<Longrightarrow> int (in_flight (remove1 r rs) e) =
     (if res_entry r = e then int (in_flight rs e) - 1 else int (in_flight rs e))"
  by (induction rs) auto

lemma in_flight_pos: "r \<in> set rs \<Longrightarrow> 1 \<le> in_flight rs (res_entry r)"
  by (induction rs) auto

subsection \<open>The steps keep the invariant\<close>

lemma lim_inv_init: "lim_inv (newLoginLimiter, [])"
  by (rule lim_invI) (simp_all add: newLoginLimiter_def)

lemma attempts_sweep:
  "attempts (sweepLocked now l) key = Some e \<longleftrightarrow>
     attempts l key = Some e \<and>
     (now < nextSweep l \<or> pending (heap l e) \<noteq> 0 \<or> now < windowEnd (heap l e))"
  by (auto simp: sweepLocked_def split: option.splits)

lemma sweep_frame [simp]:
  "heap (sweepLocked now l) = heap l" "next_ref (sweepLocked now l) = next_ref l"
  by (simp_all add: sweepLocked_def)

lemma lim_inv_sweep:
  assumes inv: "lim_inv (l, rs)"
  shows "lim_inv (sweepLocked now l, rs)"
proof (rule lim_invI)
  fix key e assume "attempts (sweepLocked now l) key = Some e"
  then have "attempts l key = Some e" by (simp add: attempts_sweep)
  from lim_invD(1) [OF inv this] show "entry_ok (sweepLocked now l) rs e"
    by (simp add: entry_ok_def)
next
  fix k k' e
  assume "attempts (sweepLocked now l) k = Some e" "attempts (sweepLocked now l) k' = Some e"
  then show "k = k'" using lim_invD(2) [OF inv] by (simp add: attempts_sweep)
next
  fix r assume r: "r \<in> set rs"
  then obtain key where key: "attempts l key = Some (res_entry r)"
    using lim_invD(3) [OF inv] by blast
  have "pending (heap l (res_entry r)) \<noteq> 0"
    using lim_invD(1) [OF inv key] in_flight_pos [OF r] by (simp add: entry_ok_def)
  with key show "\<exists>key. attempts (sweepLocked now l) key = Some (res_entry r)"
    by (auto simp: attempts_sweep)
qed

lemma in_flight_fresh:
  assumes "lim_inv (l, rs)" shows "in_flight rs (next_ref l) = 0"
proof -
  have "res_entry r \<noteq> next_ref l" if "r \<in> set rs" for r
    using lim_invD(3) [OF assms that] lim_invD(1) [OF assms] by (fastforce simp: entry_ok_def)
  then show ?thesis by (simp add: in_flight_def filter_empty_conv)
qed

lemma lim_inv_entry_for:
  assumes inv: "lim_inv (l, rs)" and e: "entry_for key l = (e, l')"
  shows "lim_inv (l', rs)" and "attempts l' key = Some e"
proof -
  have "lim_inv (l', rs) \<and> attempts l' key = Some e"
  proof (cases "attempts l key")
    case (Some e')
    then show ?thesis using inv e by (simp add: entry_for_def)
  next
    case None
    let ?n = "next_ref l"
    have l': "l' = l\<lparr>attempts := (attempts l)(key \<mapsto> ?n), heap := (heap l)(?n := new_attempt),
                     next_ref := Suc ?n\<rparr>" and "e = ?n"
      using None e by (auto simp: entry_for_def)
    have less: "x < ?n" if "attempts l k = Some x" for k x
      using lim_invD(1) [OF inv that] by (simp add: entry_ok_def)
    have "lim_inv (l', rs)" unfolding l'
    proof (rule lim_invI)
      fix k x
      assume *: "attempts (l\<lparr>attempts := (attempts l)(key \<mapsto> ?n), heap := (heap l)(?n := new_attempt),
                     next_ref := Suc ?n\<rparr>) k = Some x"
      show "entry_ok (l\<lparr>attempts := (attempts l)(key \<mapsto> ?n), heap := (heap l)(?n := new_attempt),
                     next_ref := Suc ?n\<rparr>) rs x"
      proof (cases "k = key")
        case True
        with * in_flight_fresh [OF inv] show ?thesis
          by (auto simp: entry_ok_def new_attempt_def loginMaxAttempts_def)
      next
        case False
        with * have "attempts l k = Some x" by simp
        from lim_invD(1) [OF inv this] less [OF this] show ?thesis by (simp add: entry_ok_def)
      qed
    next
      fix r assume "r \<in> set rs"
      with lim_invD(3) [OF inv] obtain k where "attempts l k = Some (res_entry r)" by blast
      with None show "\<exists>k. attempts (l\<lparr>attempts := (attempts l)(key \<mapsto> ?n), heap := (heap l)(?n := new_attempt),
                     next_ref := Suc ?n\<rparr>) k = Some (res_entry r)"
        by (intro exI [of _ k]) auto
    next
      fix k k' x
      assume "attempts (l\<lparr>attempts := (attempts l)(key \<mapsto> ?n), heap := (heap l)(?n := new_attempt),
                     next_ref := Suc ?n\<rparr>) k = Some x"
        and "attempts (l\<lparr>attempts := (attempts l)(key \<mapsto> ?n), heap := (heap l)(?n := new_attempt),
                     next_ref := Suc ?n\<rparr>) k' = Some x"
      then show "k = k'"
        using less [of k x] less [of k' x] lim_invD(2) [OF inv, of k x k']
        by (cases "k = key"; cases "k' = key") auto
    qed
    with \<open>e = ?n\<close> l' show ?thesis by simp
  qed
  then show "lim_inv (l', rs)" and "attempts l' key = Some e" by blast+
qed

text \<open>
  Writing one entry in place: the invariant survives when the new entry agrees with the new
  list of reservations and the other entries' counts are unchanged.
\<close>

lemma lim_inv_write:
  assumes inv: "lim_inv (l, rs)" and e: "attempts l key = Some e"
    and a: "pending a = int (in_flight rs' e)" "0 \<le> failures a"
      "failures a + pending a \<le> loginMaxAttempts"
    and other: "\<And>x. x \<noteq> e \<Longrightarrow> in_flight rs' x = in_flight rs x"
    and sub: "\<And>r. r \<in> set rs' \<Longrightarrow> r \<in> set rs \<or> res_entry r = e"
  shows "lim_inv (l\<lparr>heap := (heap l)(e := a)\<rparr>, rs')"
proof (rule lim_invI)
  fix k x assume "attempts (l\<lparr>heap := (heap l)(e := a)\<rparr>) k = Some x"
  then have "entry_ok l rs x" using lim_invD(1) [OF inv] by simp
  then show "entry_ok (l\<lparr>heap := (heap l)(e := a)\<rparr>) rs' x"
    using a other by (cases "x = e") (simp_all add: entry_ok_def)
next
  fix r assume "r \<in> set rs'"
  then show "\<exists>k. attempts (l\<lparr>heap := (heap l)(e := a)\<rparr>) k = Some (res_entry r)"
    using sub lim_invD(3) [OF inv] e by fastforce
qed (use lim_invD(2) [OF inv] in simp)

lemma renew_window_simps [simp]:
  "pending (renew_window now a) = pending a"
  "0 \<le> failures a \<Longrightarrow> 0 \<le> failures (renew_window now a)"
  "now < windowEnd (renew_window now a)"
  by (auto simp: renew_window_def loginWindow_def minute_def second_def)

lemma renew_window_failures_le: "0 \<le> failures a \<Longrightarrow> failures (renew_window now a) \<le> failures a"
  by (simp add: renew_window_def)

text \<open>What \<open>reserve\<close> does, in terms of the state after the sweep and the entry lookup.\<close>

lemma reserve_prepared:
  assumes inv: "lim_inv (l, rs)"
  obtains e l2 a where
    "entry_for key (sweepLocked now l) = (e, l2)" "a = renew_window now (heap l2 e)"
    "lim_inv (l2\<lparr>heap := (heap l2)(e := a)\<rparr>, rs)"
    "attempts (l2\<lparr>heap := (heap l2)(e := a)\<rparr>) key = Some e"
    "entry_ok (l2\<lparr>heap := (heap l2)(e := a)\<rparr>) rs e"
proof -
  obtain e l2 where el: "entry_for key (sweepLocked now l) = (e, l2)" by fastforce
  note inv2 = lim_inv_entry_for [OF lim_inv_sweep [OF inv] el]
  let ?a = "renew_window now (heap l2 e)"
  have ok: "entry_ok l2 rs e" by (rule lim_invD(1) [OF inv2])
  have "failures ?a \<le> failures (heap l2 e)" using ok
    by (intro renew_window_failures_le) (simp add: entry_ok_def)
  then have inv3: "lim_inv (l2\<lparr>heap := (heap l2)(e := ?a)\<rparr>, rs)"
    by (intro lim_inv_write [OF inv2]) (use ok in \<open>auto simp: entry_ok_def\<close>)
  have at: "attempts (l2\<lparr>heap := (heap l2)(e := ?a)\<rparr>) key = Some e" using inv2(2) by simp
  show thesis by (rule that [OF el refl inv3 at lim_invD(1) [OF inv3 at]])
qed

lemma lim_inv_reserve:
  assumes inv: "lim_inv (l, rs)" and r: "reserve key now l = (res, k, l')"
  shows "lim_inv (l', case res of None \<Rightarrow> rs | Some x \<Rightarrow> x # rs)"
proof -
  obtain e l2 a where el: "entry_for key (sweepLocked now l) = (e, l2)"
    and a: "a = renew_window now (heap l2 e)"
    and inv3: "lim_inv (l2\<lparr>heap := (heap l2)(e := a)\<rparr>, rs)"
    and at: "attempts (l2\<lparr>heap := (heap l2)(e := a)\<rparr>) key = Some e"
    and ok: "entry_ok (l2\<lparr>heap := (heap l2)(e := a)\<rparr>) rs e"
    by (rule reserve_prepared [OF inv])
  show ?thesis
  proof (cases res)
    case None
    then have "l' = l2\<lparr>heap := (heap l2)(e := a)\<rparr>"
      using r by (auto simp: reserve_def el a [symmetric] Let_def split: if_splits)
    then show ?thesis using None inv3 by simp
  next
    case (Some x)
    then have room: "failures a + pending a < loginMaxAttempts" and x: "res_entry x = e"
      and l': "l' = (l2\<lparr>heap := (heap l2)(e := a)\<rparr>)
                 \<lparr>heap := (heap (l2\<lparr>heap := (heap l2)(e := a)\<rparr>))(e := a\<lparr>pending := pending a + 1\<rparr>)\<rparr>"
      using r by (auto simp: reserve_def el a [symmetric] Let_def not_le split: if_splits)
    have "lim_inv (l', x # rs)" unfolding l'
      by (rule lim_inv_write [OF inv3 at]) (use ok room x in \<open>auto simp: entry_ok_def\<close>)
    then show ?thesis by (simp add: Some)
  qed
qed

lemma lim_inv_finish:
  assumes inv: "lim_inv (l, rs)" and r: "r \<in> set rs"
  shows "lim_inv (finish r outcome now l, remove1 r rs)"
proof -
  obtain key where key: "attempts l key = Some (res_entry r)" using lim_invD(3) [OF inv r] by blast
  note ok = lim_invD(1) [OF inv key, unfolded entry_ok_def]
  have pos: "1 \<le> in_flight rs (res_entry r)" by (rule in_flight_pos [OF r])
  define a where "a = heap (finish r outcome now l) (res_entry r)"
  have "pending a = int (in_flight (remove1 r rs) (res_entry r))"
    using ok by (auto simp: a_def finish_def Let_def in_flight_remove1 [OF r] split: login_outcome.splits)
  moreover have "0 \<le> failures a" and "failures a + pending a \<le> loginMaxAttempts"
    using ok pos by (auto simp: a_def finish_def Let_def split: login_outcome.splits)
  moreover have "in_flight (remove1 r rs) x = in_flight rs x" if "x \<noteq> res_entry r" for x
    using in_flight_remove1 [OF r, of x] that by simp
  ultimately have "lim_inv (l\<lparr>heap := (heap l)(res_entry r := a)\<rparr>, remove1 r rs)"
    by (intro lim_inv_write [OF inv key]) (auto dest: notin_set_remove1 set_remove1_subset [THEN subsetD])
  moreover have "finish r outcome now l = l\<lparr>heap := (heap l)(res_entry r := a)\<rparr>"
    by (simp add: a_def finish_def Let_def)
  ultimately show ?thesis by simp
qed

lemma lim_inv_step: "lim_step s t \<Longrightarrow> lim_inv s \<Longrightarrow> lim_inv t"
proof (induction rule: lim_step.induct)
  case (admitted key now l r k l' rs)
  from lim_inv_reserve [OF admitted(2,1)] show ?case by simp
next
  case (blocked key now l k l' rs)
  from lim_inv_reserve [OF blocked(2,1)] show ?case by simp
next
  case (finished r rs l outcome now)
  then show ?case by (simp add: lim_inv_finish)
qed

lemma lim_reachable_inv: "lim_reachable s \<Longrightarrow> lim_inv s"
  by (induction rule: lim_reachable.induct) (auto intro: lim_inv_init lim_inv_step)

subsection \<open>Properties\<close>

text \<open>
  C37: in every reachable state of the limiter, for every client: the entry of an in-flight
  login check is still in the map, \<open>pending\<close> is the number of checks in flight, and recorded
  failures plus checks in flight never exceed the limit of ten.
\<close>

theorem limiter_invariant:
  assumes "lim_reachable (l, rs)"
  shows "(\<forall>key e. attempts l key = Some e \<longrightarrow>
            pending (heap l e) = int (in_flight rs e) \<and>
            0 \<le> failures (heap l e) \<and>
            failures (heap l e) + int (in_flight rs e) \<le> loginMaxAttempts) \<and>
         (\<forall>r \<in> set rs. \<exists>!key. attempts l key = Some (res_entry r))"
proof -
  note inv = lim_reachable_inv [OF assms]
  show ?thesis
    using lim_invD(1) [OF inv] lim_invD(3) [OF inv] lim_invD(2) [OF inv]
    unfolding entry_ok_def by metis
qed

text \<open>
  The run of the witness: two clients are admitted, the first fails and the second is still
  being checked.
\<close>

definition demo_run :: "login_limiter \<times> login_reservation list" where
  "demo_run =
     (let (r1, _, l1) = reserve ''10.0.0.1'' 0 newLoginLimiter;
          (r2, _, l2) = reserve ''10.0.0.2'' second l1
      in (finish (the r1) loginFailed (2 * second) l2, [the r2]))"

lemma demo_run_reachable: "lim_reachable demo_run"
proof -
  obtain r1 k1 l1 where 1: "reserve ''10.0.0.1'' 0 newLoginLimiter = (Some r1, k1, l1)"
    by (simp add: reserve_def newLoginLimiter_def sweepLocked_def entry_for_def renew_window_def
        new_attempt_def loginMaxAttempts_def time_units zero_time_def loginWindow_def)
  obtain r2 k2 l2 where 2: "reserve ''10.0.0.2'' second l1 = (Some r2, k2, l2)"
    and ne: "r1 \<noteq> r2"
    using 1 by (auto simp: reserve_def newLoginLimiter_def sweepLocked_def entry_for_def renew_window_def
        new_attempt_def loginMaxAttempts_def time_units zero_time_def loginWindow_def)
  have "lim_reachable (l2, [r2, r1])"
    by (rule lim_next [OF lim_next [OF lim_init admitted [OF 1]] admitted [OF 2]])
  then have "lim_reachable (finish r1 loginFailed (2 * second) l2, remove1 r1 [r2, r1])"
    by (rule lim_next) (rule finished, simp)
  then show ?thesis using ne by (simp add: demo_run_def 1 2)
qed

theorem limiter_invariant_witness:
  "\<exists>!key. attempts (fst demo_run) key = Some (res_entry (hd (snd demo_run)))"
proof -
  have "hd (snd demo_run) \<in> set (snd demo_run)" by (simp add: demo_run_def split: prod.splits)
  then show ?thesis using limiter_invariant [of "fst demo_run" "snd demo_run"] demo_run_reachable by simp
qed

text \<open>
  A client that used up its ten failures is refused until its window ends, without any
  change of its failures or window, and \<open>Retry-After\<close> is the number of seconds to the end of
  the window rounded up, at least one and at most 900.
\<close>

theorem exhausted_client_blocked:
  assumes "attempts l key = Some e" and "loginMaxAttempts \<le> failures (heap l e)"
    and "now < windowEnd (heap l e)" and "windowEnd (heap l e) \<le> now + loginWindow"
    and "reserve key now l = (res, retryAfter, l')"
  shows "res = None \<and> heap l' e = heap l e \<and> 1 \<le> retryAfter \<and> retryAfter \<le> 900 \<and>
         windowEnd (heap l e) \<le> now + retryAfter * second \<and>
         now + (retryAfter - 1) * second < windowEnd (heap l e)"
proof -
  let ?rem = "windowEnd (heap l e) - now"
  have "attempts (sweepLocked now l) key = Some e" using assms by (simp add: attempts_sweep)
  then have "entry_for key (sweepLocked now l) = (e, sweepLocked now l)" by (simp add: entry_for_def)
  moreover have "renew_window now (heap l e) = heap l e" using assms by (simp add: renew_window_def)
  ultimately have "res = None" and "retryAfter = (?rem + second - 1) div second"
    and "heap l' e = heap l e"
    using assms(2,5) by (auto simp: reserve_def Let_def)
  moreover have "0 < ?rem" and "?rem \<le> 900 * second"
    using assms by (simp_all add: loginWindow_def time_units)
  moreover note ceil_div_bounds [of second ?rem]
  ultimately show ?thesis by (simp add: second_def)
qed

definition demo_blocked :: login_limiter where
  "demo_blocked = \<lparr>attempts = [''ip'' \<mapsto> 0],
     heap = (\<lambda>_. \<lparr>failures = 10, pending = 0, windowEnd = loginWindow\<rparr>),
     next_ref = 1, nextSweep = loginWindow\<rparr>"

theorem exhausted_client_blocked_witness:
  "\<exists>l'. reserve ''ip'' (second div 2) demo_blocked = (None, 900, l')"
proof -
  obtain res k l' where r: "reserve ''ip'' (second div 2) demo_blocked = (res, k, l')"
    by (cases "reserve ''ip'' (second div 2) demo_blocked")
  have "res = None \<and> heap l' 0 = heap demo_blocked 0 \<and> 1 \<le> k \<and> k \<le> 900 \<and>
        windowEnd (heap demo_blocked 0) \<le> second div 2 + k * second \<and>
        second div 2 + (k - 1) * second < windowEnd (heap demo_blocked 0)"
    by (rule exhausted_client_blocked [OF _ _ _ _ r])
      (simp_all add: demo_blocked_def loginMaxAttempts_def loginWindow_def time_units)
  then have "res = None" and "k = 900"
    by (simp_all add: demo_blocked_def loginWindow_def time_units)
  with r show ?thesis by simp
qed

end
