(* ===== verification/Auth.thy ===== *)
theory Auth
  imports Web Store LoginLimiter
begin

text \<open>
  \<open>internal/handler/auth.go\<close> and \<open>clientIP\<close> of \<open>login_limiter.go\<close>: logging in and out, and the
  middlewares that protect the admin pages. Signed cookies (\<open>securecookie\<close>) are a \<open>codec\<close>, a pair of
  partial functions of the instant they are called at: encoding fails for a value that does not
  fit into a cookie, decoding for one that is not signed or has expired. \<open>rq_at\<close> of a request is the
  instant its cookies are decoded. \<open>matches\<close> stands for a nil result of \<open>bcrypt.CompareHashAndPassword\<close>,
  \<open>ParseAddr\<close> for \<open>netip.ParseAddr\<close> followed by \<open>Unmap\<close> and \<open>String\<close>, and \<open>login_page\<close> for the login
  template. \<open>login_env\<close> is what a login meets: random bytes, the clock, the database's behaviour, and
  what other requests do to the limiter while this one checks the password.
\<close>

definition sessionMaxAgeSeconds :: int where "sessionMaxAgeSeconds = 12 * 60 * 60"
definition loginCSRFMaxAgeSeconds :: int where "loginCSRFMaxAgeSeconds = 10 * 60"

record 'v codec =
  Encode :: "time \<Rightarrow> string \<Rightarrow> 'v \<Rightarrow> string option"
  Decode :: "time \<Rightarrow> string \<Rightarrow> string \<Rightarrow> 'v option"

text \<open>
  What \<open>securecookie\<close> promises of a value it could encode: it decodes to that value until \<open>MaxAge\<close>
  seconds have passed.
\<close>

definition keeps_for :: "int \<Rightarrow> 'v codec \<Rightarrow> bool" where
  "keeps_for age c \<longleftrightarrow>
     (\<forall>name issued now v t. Encode c issued name v = Some t \<longrightarrow> issued \<le> now \<longrightarrow> now \<le> issued + age * second \<longrightarrow>
        Decode c now name t = Some v)"

record session_data =
  sd_User :: string
  sd_CSRFToken :: string

record auth =
  au_cookies :: "session_data codec"
  au_loginCookies :: "string codec"
  au_secure :: bool
  au_trustProxyHeaders :: bool

text \<open>\<open>securecookie.New\<close> and \<open>MaxAge\<close> are arguments; the fresh limiter is the second result.\<close>

definition NewAuth ::
    "(string \<Rightarrow> int \<Rightarrow> session_data codec) \<Rightarrow> (string \<Rightarrow> int \<Rightarrow> string codec) \<Rightarrow> string \<Rightarrow> bool \<Rightarrow> bool \<Rightarrow>
     go_error + auth \<times> login_limiter" where
  "NewAuth new_cookies new_loginCookies sessionKey secure trustProxyHeaders =
     (if length sessionKey < 32 then Inl (ErrText ''SESSION_KEY must contain at least 32 characters'')
      else Inr (\<lparr>au_cookies = new_cookies sessionKey sessionMaxAgeSeconds,
                 au_loginCookies = new_loginCookies sessionKey loginCSRFMaxAgeSeconds,
                 au_secure = secure, au_trustProxyHeaders = trustProxyHeaders\<rparr>, newLoginLimiter))"

section \<open>The client's address\<close>

definition after_last :: "char \<Rightarrow> string \<Rightarrow> string" where
  "after_last c s = rev (takeWhile (\<lambda>x. x \<noteq> c) (rev s))"

text \<open>The host of \<open>net.SplitHostPort\<close>, or nothing when it fails.\<close>

definition split_host :: "string \<Rightarrow> string option" where
  "split_host s =
     (if CHR '':'' \<notin> set s then None
      else
        (let port = after_last (CHR '':'') s; i = length s - length port - 1
         in if s \<noteq> [] \<and> hd s = CHR ''['' then
              (let h = takeWhile (\<lambda>x. x \<noteq> CHR '']'') (tl s); e = length h + 1
               in if CHR '']'' \<notin> set s \<or> e + 1 \<noteq> i \<or> CHR ''['' \<in> set (tl s) \<or> CHR '']'' \<in> set (drop (e + 1) s)
                  then None else Some h)
            else
              (let h = take i s
               in if CHR '':'' \<in> set h \<or> CHR ''['' \<in> set s \<or> CHR '']'' \<in> set s then None else Some h)))"

definition clientIP :: "(string \<Rightarrow> string option) \<Rightarrow> request \<Rightarrow> bool \<Rightarrow> string" where
  "clientIP ParseAddr r trustProxyHeaders =
     (let forwarded = (if \<not> trustProxyHeaders then None
            else (case map_of (rq_header r) ''X-Forwarded-For'' of
                    None \<Rightarrow> None
                  | Some vs \<Rightarrow> if vs = [] then None else ParseAddr (TrimSpace (after_last (CHR '','') (last vs)))))
      in case forwarded of
           Some ip \<Rightarrow> ip
         | None \<Rightarrow>
             let host = (case split_host (rq_remote r) of Some h \<Rightarrow> h | None \<Rightarrow> rq_remote r)
             in case ParseAddr host of Some ip \<Rightarrow> ip | None \<Rightarrow> host)"

section \<open>Tokens\<close>

definition base64_char :: "nat \<Rightarrow> char" where
  "base64_char n = ''ABCDEFGHIJKLMNOPQRSTUVWXYZabcdefghijklmnopqrstuvwxyz0123456789-_'' ! n"

text \<open>\<open>base64.RawURLEncoding\<close>: no padding.\<close>

fun base64url :: "bytes \<Rightarrow> string" where
  "base64url [] = []"
| "base64url [a] = [base64_char (byte a div 4), base64_char (byte a mod 4 * 16)]"
| "base64url [a, b] =
     [base64_char (byte a div 4), base64_char (byte a mod 4 * 16 + byte b div 16), base64_char (byte b mod 16 * 4)]"
| "base64url (a # b # c # rest) =
     [base64_char (byte a div 4), base64_char (byte a mod 4 * 16 + byte b div 16),
      base64_char (byte b mod 16 * 4 + byte c div 64), base64_char (byte c mod 64)] @ base64url rest"

text \<open>The random source gives 32 bytes, or fails.\<close>

definition randomToken :: "bytes option \<Rightarrow> string option" where
  "randomToken random = map_option base64url random"

section \<open>Middlewares\<close>

definition redirectToLogin :: "request \<Rightarrow> reply" where
  "redirectToLogin r =
     (if Header_Get (rq_header r) ''HX-Request'' = ''true''
      then with_header ''HX-Redirect'' ''/login'' (http_Error ''Session expired. Please sign in again.'' 401)
      else http_Redirect ''/login'' 303)"

definition RequireAuth :: "auth \<Rightarrow> 's handler \<Rightarrow> 's handler" where
  "RequireAuth a next r s =
     (case get_cookie r ''session'' of
        None \<Rightarrow> (redirectToLogin r, s)
      | Some v \<Rightarrow>
          (case Decode (au_cookies a) (rq_at r) ''session'' v of
             None \<Rightarrow> (redirectToLogin r, s)
           | Some session \<Rightarrow>
               if sd_User session = [] \<or> sd_CSRFToken session = [] then (redirectToLogin r, s)
               else next (r\<lparr>rq_csrf := sd_CSRFToken session\<rparr>) s))"

definition CSRFToken :: "request \<Rightarrow> string" where
  "CSRFToken r = rq_csrf r"

definition RequireCSRF :: "'s handler \<Rightarrow> 's handler" where
  "RequireCSRF next r s =
     (let expected = CSRFToken r;
          from_header = TrimSpace (Header_Get (rq_header r) ''X-CSRF-Token'')
      in if from_header = [] \<and> rq_form r = None then (http_Error ''Invalid form'' 400, s)
         else
           (let provided = (if from_header = [] then TrimSpace (FormValue r ''csrf_token'') else from_header)
            in if expected = [] \<or> provided = [] \<or> expected \<noteq> provided
               then (http_Error ''Invalid CSRF token'' 403, s)
               else next r s))"

section \<open>Logging in and out\<close>

definition with_cookie :: "cookie \<Rightarrow> reply \<Rightarrow> reply" where
  "with_cookie c rp = rp\<lparr>rp_cookies := rp_cookies rp @ [c]\<rparr>"

definition Logout :: "auth \<Rightarrow> 's handler" where
  "Logout a r s =
     (with_cookie \<lparr>ck_Name = ''session'', ck_Value = [], ck_Path = ''/'', ck_MaxAge = -1, ck_Secure = au_secure a\<rparr>
        (http_Redirect ''/login'' 303), s)"

definition validLoginCSRF :: "auth \<Rightarrow> request \<Rightarrow> bool" where
  "validLoginCSRF a r \<longleftrightarrow>
     (case get_cookie r ''login_csrf'' of
        None \<Rightarrow> False
      | Some v \<Rightarrow>
          (case Decode (au_loginCookies a) (rq_at r) ''login_csrf'' v of
             None \<Rightarrow> False
           | Some expected \<Rightarrow>
               let provided = TrimSpace (FormValue r ''csrf_token'')
               in expected \<noteq> [] \<and> provided \<noteq> [] \<and> expected = provided))"

record login_env =
  lg_random :: "bytes option"
  lg_encode_at :: time
  lg_find_fails :: bool
  lg_reserve_at :: time
  lg_finish_at :: time
  lg_others :: "login_limiter \<Rightarrow> login_limiter"

definition login_form :: "auth \<Rightarrow> (string \<Rightarrow> string) \<Rightarrow> login_env \<Rightarrow> reply" where
  "login_form a login_page env =
     (case randomToken (lg_random env) of
        None \<Rightarrow> http_Error ''Failed to create login form'' 500
      | Some csrfToken \<Rightarrow>
          (case Encode (au_loginCookies a) (lg_encode_at env) ''login_csrf'' csrfToken of
             None \<Rightarrow> http_Error ''Failed to create login form'' 500
           | Some encodedToken \<Rightarrow>
               with_cookie \<lparr>ck_Name = ''login_csrf'', ck_Value = encodedToken, ck_Path = ''/login'',
                   ck_MaxAge = loginCSRFMaxAgeSeconds, ck_Secure = au_secure a\<rparr>
                 (http_OK (login_page csrfToken))))"

definition new_session :: "auth \<Rightarrow> login_env \<Rightarrow> string \<Rightarrow> reply" where
  "new_session a env email =
     (case randomToken (lg_random env) of
        None \<Rightarrow> http_Error ''Failed to create session'' 500
      | Some csrfToken \<Rightarrow>
          (case Encode (au_cookies a) (lg_encode_at env) ''session'' \<lparr>sd_User = email, sd_CSRFToken = csrfToken\<rparr> of
             None \<Rightarrow> http_Error ''Failed to create session'' 500
           | Some encoded \<Rightarrow>
               with_cookie \<lparr>ck_Name = ''login_csrf'', ck_Value = [], ck_Path = ''/login'', ck_MaxAge = -1,
                   ck_Secure = au_secure a\<rparr>
                 (with_cookie \<lparr>ck_Name = ''session'', ck_Value = encoded, ck_Path = ''/'',
                     ck_MaxAge = sessionMaxAgeSeconds, ck_Secure = au_secure a\<rparr>
                   (http_Redirect ''/'' 303))))"

text \<open>What the password check answers, and the outcome it leaves for the limiter.\<close>

definition check_login ::
    "(string \<Rightarrow> string \<Rightarrow> bool) \<Rightarrow> auth \<Rightarrow> login_env \<Rightarrow> db \<Rightarrow> request \<Rightarrow> reply \<times> login_outcome" where
  "check_login matches a env d r =
     (let email = TrimSpace (FormValue r ''username''); password = FormValue r ''password''
      in case FindUserByEmail (lg_find_fails env) email d of
           Inl e \<Rightarrow>
             if e = ErrNotFound then (http_Error ''Unauthorized'' 401, loginFailed)
             else (http_Error ''Database unavailable'' 503, loginAborted)
         | Inr user \<Rightarrow>
             if \<not> matches (us_Password user) password then (http_Error ''Unauthorized'' 401, loginFailed)
             else (new_session a env email, loginSucceeded))"

definition Login ::
    "(string \<Rightarrow> string \<Rightarrow> bool) \<Rightarrow> (string \<Rightarrow> string option) \<Rightarrow> (string \<Rightarrow> string) \<Rightarrow> auth \<Rightarrow> login_env \<Rightarrow> db \<Rightarrow>
     login_limiter handler" where
  "Login matches ParseAddr login_page a env d r l =
     (if rq_method r = ''GET'' then (login_form a login_page env, l)
      else if rq_form r = None then (http_Error ''Invalid form'' 400, l)
      else if \<not> validLoginCSRF a r then (http_Error ''Invalid CSRF token'' 403, l)
      else
        (case reserve (clientIP ParseAddr r (au_trustProxyHeaders a)) (lg_reserve_at env) l of
           (None, retryAfter, l') \<Rightarrow>
             (with_header ''Retry-After'' (FormatInt retryAfter) (http_Error ''Too many failed login attempts'' 429), l')
         | (Some reservation, _, l') \<Rightarrow>
             let (rp, outcome) = check_login matches a env d r
             in (rp, finish reservation outcome (lg_finish_at env) (lg_others env l'))))"

section \<open>Properties\<close>

lemma base64_char_solid: "n < 64 \<Longrightarrow> solid (base64_char n)"
proof -
  assume n: "n < 64"
  have "list_all solid ''ABCDEFGHIJKLMNOPQRSTUVWXYZabcdefghijklmnopqrstuvwxyz0123456789-_''" by code_simp
  then show ?thesis unfolding base64_char_def using n by (auto simp: list_all_length)
qed

lemma base64url_solid: "c \<in> set (base64url bs) \<Longrightarrow> solid c"
proof (induction bs rule: base64url.induct)
  case (2 a)
  have "byte a div 4 < 64" using byte_less [of a] by simp
  then show ?case using 2 by (auto intro: base64_char_solid)
next
  case (3 a b)
  have "byte a div 4 < 64" "byte a mod 4 * 16 + byte b div 16 < 64" "byte b mod 16 * 4 < 64"
    using byte_less [of a] byte_less [of b] by linarith+
  then show ?case using 3 by (auto intro: base64_char_solid)
next
  case (4 a b c rest)
  have "byte a div 4 < 64" "byte a mod 4 * 16 + byte b div 16 < 64" "byte b mod 16 * 4 + byte c div 64 < 64" "byte c mod 64 < 64"
    using byte_less [of a] byte_less [of b] byte_less [of c] by linarith+
  then show ?case using 4 by (auto intro: base64_char_solid)
qed simp

lemma base64url_trimmed: "TrimSpace (base64url bs) = base64url bs"
  by (rule TrimSpace_all_solid) (rule base64url_solid)

text \<open>Who sends the cookie and the token of the form back passes its check.\<close>

lemma login_form_accepted:
  assumes "lg_random env = Some random" and "base64url random \<noteq> []"
    and "ck \<in> set (rp_cookies (login_form a page env))"
    and codec: "keeps_for age (au_loginCookies a)"
    and now: "lg_encode_at env \<le> rq_at r" "rq_at r \<le> lg_encode_at env + age * second"
    and "get_cookie r ''login_csrf'' = Some (ck_Value ck)" and "FormValue r ''csrf_token'' = base64url random"
  shows "validLoginCSRF a r" and "rp_body (login_form a page env) = page (base64url random)"
proof -
  obtain t where t: "Encode (au_loginCookies a) (lg_encode_at env) ''login_csrf'' (base64url random) = Some t"
    using assms(1,3) by (cases "Encode (au_loginCookies a) (lg_encode_at env) ''login_csrf'' (base64url random)")
      (simp_all add: login_form_def randomToken_def http_Error_def)
  then have "ck_Value ck = t" using assms(1,3) by (simp add: login_form_def randomToken_def with_cookie_def http_OK_def)
  moreover have "Decode (au_loginCookies a) (rq_at r) ''login_csrf'' t = Some (base64url random)"
    using codec t now by (simp add: keeps_for_def)
  ultimately show "validLoginCSRF a r" using assms(2,7,8) by (simp add: validLoginCSRF_def base64url_trimmed)
  show "rp_body (login_form a page env) = page (base64url random)"
    using t assms(1) by (simp add: login_form_def randomToken_def with_cookie_def http_OK_def)
qed

lemma redirectToLogin_status: "rp_status (redirectToLogin r) \<in> {303, 401}"
  by (simp add: redirectToLogin_def)

lemma RequireAuth_cases:
  obtains (refused) "RequireAuth a next r s = (redirectToLogin r, s)"
  | (session) v session where "get_cookie r ''session'' = Some v" "Decode (au_cookies a) (rq_at r) ''session'' v = Some session"
      "sd_User session \<noteq> []" "sd_CSRFToken session \<noteq> []"
      "RequireAuth a next r s = next (r\<lparr>rq_csrf := sd_CSRFToken session\<rparr>) s"
proof (cases "get_cookie r ''session''")
  case (Some v)
  show thesis
  proof (cases "Decode (au_cookies a) (rq_at r) ''session'' v")
    case dec: (Some session)
    then show thesis
      using Some refused session [of v session]
      by (cases "sd_User session = [] \<or> sd_CSRFToken session = []") (auto simp: RequireAuth_def)
  qed (use Some refused in \<open>simp add: RequireAuth_def\<close>)
qed (use refused in \<open>simp add: RequireAuth_def\<close>)

text \<open>
  No mutation without a session and its token. A handler behind both middlewares runs only
  for a request whose session cookie decodes to a named user with a CSRF token, and that repeats
  this very token in its header or form; every other request is answered 303, 400, 401 or 403
  and leaves the state as it is.
\<close>

theorem mutation_needs_session_and_token:
  "(\<exists>rp. RequireAuth a (RequireCSRF next) r s = (rp, s) \<and> rp_status rp \<in> {303, 400, 401, 403}) \<or>
   (\<exists>v session. get_cookie r ''session'' = Some v \<and> Decode (au_cookies a) (rq_at r) ''session'' v = Some session \<and>
      sd_User session \<noteq> [] \<and> sd_CSRFToken session \<noteq> [] \<and>
      sd_CSRFToken session \<in> {TrimSpace (Header_Get (rq_header r) ''X-CSRF-Token''), TrimSpace (FormValue r ''csrf_token'')} \<and>
      RequireAuth a (RequireCSRF next) r s = next (r\<lparr>rq_csrf := sd_CSRFToken session\<rparr>) s)"
proof (cases rule: RequireAuth_cases [of a "RequireCSRF next" r s])
  case refused
  then show ?thesis using redirectToLogin_status [of r] by blast
next
  case (session v session)
  then show ?thesis
    by (auto simp: RequireCSRF_def CSRFToken_def FormValue_def Let_def split: if_splits option.splits)
qed

text \<open>What opening a session answers, and what settling a check does to the limiter's entry.\<close>

lemma no_cookies: "rp_cookies (http_Error m k) = []" "rp_cookies (with_header h v (http_Error m k)) = []"
  by (simp_all add: http_Error_def with_header_def)

lemma new_session_cases:
  "case lg_random env of
     None \<Rightarrow> rp_status (new_session a env email) = 500 \<and> rp_cookies (new_session a env email) = []
   | Some random \<Rightarrow>
       (case Encode (au_cookies a) (lg_encode_at env) ''session'' \<lparr>sd_User = email, sd_CSRFToken = base64url random\<rparr> of
          None \<Rightarrow> rp_status (new_session a env email) = 500 \<and> rp_cookies (new_session a env email) = []
        | Some v \<Rightarrow> rp_status (new_session a env email) = 303 \<and>
            rp_cookies (new_session a env email) =
              [\<lparr>ck_Name = ''session'', ck_Value = v, ck_Path = ''/'', ck_MaxAge = sessionMaxAgeSeconds, ck_Secure = au_secure a\<rparr>,
               \<lparr>ck_Name = ''login_csrf'', ck_Value = [], ck_Path = ''/login'', ck_MaxAge = -1, ck_Secure = au_secure a\<rparr>])"
  by (simp add: new_session_def randomToken_def with_cookie_def http_Redirect_def http_Error_def split: option.split)

lemma finish_entry:
  fixes l :: login_limiter and reservation :: login_reservation and outcome :: login_outcome and now :: time
  defines "e \<equiv> res_entry reservation" and "l' \<equiv> finish reservation outcome now l"
  shows "attempts l' = attempts l \<and> (\<forall>k. k \<noteq> e \<longrightarrow> heap l' k = heap l k) \<and>
    pending (heap l' e) = pending (heap l e) - 1 \<and> windowEnd (heap l' e) = windowEnd (heap l e) \<and>
    failures (heap l' e) =
      (if now < res_windowEnd reservation \<and> windowEnd (heap l e) = res_windowEnd reservation
       then (if outcome = loginFailed then failures (heap l e) + 1
             else if outcome = loginSucceeded then 0 else failures (heap l e))
       else failures (heap l e))"
  by (cases outcome) (simp_all add: e_def l'_def finish_def Let_def)

text \<open>
  C19: every login is answered and settled by what the password check found. A form that cannot be
  read, and one without a valid login token, are refused without touching the limiter; a login
  the limiter does not admit is told when to come back. An admitted one is settled exactly once,
  on the limiter as the other requests left it meanwhile: its check is no longer pending, and
  within its window a failed check (401: no such account or a wrong password) counts one failure,
  a correct password clears the failures, and a database that does not answer (503) changes
  nothing. Only a correct password of the account with that email sets cookies: the signed
  session of that account with a fresh token, and the removal of the login token.
\<close>

theorem login_correct:
  assumes "Login matches ParseAddr login_page a env d r l = (rp, l')" and "rq_method r \<noteq> ''GET''"
    and "reserve (clientIP ParseAddr r (au_trustProxyHeaders a)) (lg_reserve_at env) l = (admitted, wait, l1)"
    and "account = find (\<lambda>u. us_Email u = TrimSpace (FormValue r ''username'')) (sort_key us_ID (t_users d))"
  shows "if rq_form r = None then rp_status rp = 400 \<and> rp_cookies rp = [] \<and> l' = l
    else if \<not> validLoginCSRF a r then rp_status rp = 403 \<and> rp_cookies rp = [] \<and> l' = l
    else (case admitted of
      None \<Rightarrow> rp_status rp = 429 \<and> rp_cookies rp = [] \<and> (''Retry-After'', FormatInt wait) \<in> set (rp_header rp) \<and> l' = l1
    | Some reservation \<Rightarrow>
        (\<exists>outcome e l2.
           e = res_entry reservation \<and> l2 = lg_others env l1 \<and>
           attempts l' = attempts l2 \<and> (\<forall>k. k \<noteq> e \<longrightarrow> heap l' k = heap l2 k) \<and>
           pending (heap l' e) = pending (heap l2 e) - 1 \<and> windowEnd (heap l' e) = windowEnd (heap l2 e) \<and>
           failures (heap l' e) =
             (if lg_finish_at env < res_windowEnd reservation \<and> windowEnd (heap l2 e) = res_windowEnd reservation
              then (if outcome = loginFailed then failures (heap l2 e) + 1
                    else if outcome = loginSucceeded then 0 else failures (heap l2 e))
              else failures (heap l2 e)) \<and>
           (if lg_find_fails env then outcome = loginAborted \<and> rp_status rp = 503 \<and> rp_cookies rp = []
            else if \<exists>user. account = Some user \<and> matches (us_Password user) (FormValue r ''password'')
            then outcome = loginSucceeded \<and>
              (case lg_random env of
                 None \<Rightarrow> rp_status rp = 500 \<and> rp_cookies rp = []
               | Some random \<Rightarrow>
                   (case Encode (au_cookies a) (lg_encode_at env) ''session''
                           \<lparr>sd_User = us_Email (the account), sd_CSRFToken = base64url random\<rparr> of
                      None \<Rightarrow> rp_status rp = 500 \<and> rp_cookies rp = []
                    | Some v \<Rightarrow> rp_status rp = 303 \<and>
                        rp_cookies rp =
                          [\<lparr>ck_Name = ''session'', ck_Value = v, ck_Path = ''/'', ck_MaxAge = 12 * 60 * 60, ck_Secure = au_secure a\<rparr>,
                           \<lparr>ck_Name = ''login_csrf'', ck_Value = [], ck_Path = ''/login'', ck_MaxAge = -1, ck_Secure = au_secure a\<rparr>]))
            else outcome = loginFailed \<and> rp_status rp = 401 \<and> rp_cookies rp = [])))"
proof (cases "rq_form r = None \<or> \<not> validLoginCSRF a r")
  case True
  then show ?thesis using assms(1,2) by (auto simp: Login_def no_cookies)
next
  case False
  let ?email = "TrimSpace (FormValue r ''username'')"
  show ?thesis
  proof (cases admitted)
    case None
    then show ?thesis using assms(1-3) False by (auto simp: Login_def no_cookies with_header_def http_Error_def)
  next
    case (Some reservation)
    obtain outcome where checked: "check_login matches a env d r = (rp, outcome)"
      and l': "l' = finish reservation outcome (lg_finish_at env) (lg_others env l1)"
      using assms(1-3) False Some by (auto simp: Login_def split: prod.splits)
    have email: "us_Email user = ?email" if "account = Some user" for user
      using that assms(4) by (auto dest: find_Some_in)
    have verdict: "if lg_find_fails env then outcome = loginAborted \<and> rp_status rp = 503 \<and> rp_cookies rp = []
            else if \<exists>user. account = Some user \<and> matches (us_Password user) (FormValue r ''password'')
            then outcome = loginSucceeded \<and> rp = new_session a env (us_Email (the account))
            else outcome = loginFailed \<and> rp_status rp = 401 \<and> rp_cookies rp = []"
      using checked email
      by (cases account)
        (auto simp: check_login_def FindUserByEmail_def assms(4) [symmetric] Let_def no_cookies split: if_splits)
    note settled = finish_entry [of reservation outcome "lg_finish_at env" "lg_others env l1", folded l']
    have reply: "(if lg_find_fails env then outcome = loginAborted \<and> rp_status rp = 503 \<and> rp_cookies rp = []
            else if \<exists>user. account = Some user \<and> matches (us_Password user) (FormValue r ''password'')
            then outcome = loginSucceeded \<and>
              (case lg_random env of
                 None \<Rightarrow> rp_status rp = 500 \<and> rp_cookies rp = []
               | Some random \<Rightarrow>
                   (case Encode (au_cookies a) (lg_encode_at env) ''session''
                           \<lparr>sd_User = us_Email (the account), sd_CSRFToken = base64url random\<rparr> of
                      None \<Rightarrow> rp_status rp = 500 \<and> rp_cookies rp = []
                    | Some v \<Rightarrow> rp_status rp = 303 \<and>
                        rp_cookies rp =
                          [\<lparr>ck_Name = ''session'', ck_Value = v, ck_Path = ''/'', ck_MaxAge = 12 * 60 * 60, ck_Secure = au_secure a\<rparr>,
                           \<lparr>ck_Name = ''login_csrf'', ck_Value = [], ck_Path = ''/login'', ck_MaxAge = -1, ck_Secure = au_secure a\<rparr>]))
            else outcome = loginFailed \<and> rp_status rp = 401 \<and> rp_cookies rp = [])"
      using verdict new_session_cases [of a env "us_Email (the account)"] unfolding sessionMaxAgeSeconds_def
      by (cases "lg_find_fails env"; cases "\<exists>user. account = Some user \<and> matches (us_Password user) (FormValue r ''password'')")
        (simp_all only: if_True if_False simp_thms)
    have read: "rq_form r \<noteq> None" "validLoginCSRF a r" using False by auto
    show ?thesis
      by (simp only: Some option.case read if_False not_True_eq_False,
          rule exI [of _ outcome], rule exI [of _ "res_entry reservation"], rule exI [of _ "lg_others env l1"])
         (intro conjI refl, (use settled in blast)+, rule reply)
  qed
qed

definition demo_auth :: auth where
  "demo_auth = \<lparr>au_cookies = \<lparr>Encode = (\<lambda>instant name s. Some (sd_User s)), Decode = (\<lambda>instant name v. None)\<rparr>,
     au_loginCookies = \<lparr>Encode = (\<lambda>instant name v. Some v), Decode = (\<lambda>instant name v. Some v)\<rparr>,
     au_secure = True, au_trustProxyHeaders = False\<rparr>"

definition demo_login :: request where
  "demo_login = no_request\<lparr>rq_method := ''POST'', rq_cookies := [(''login_csrf'', ''t'')], rq_remote := ''10.0.0.1:80'',
     rq_form := Some ([(''username'', [''ab'']), (''password'', [''p'']), (''csrf_token'', [''t''])], [])\<rparr>"

definition demo_login_env :: login_env where
  "demo_login_env = \<lparr>lg_random = Some ''abc'', lg_encode_at = 0, lg_find_fails = False, lg_reserve_at = 0, lg_finish_at = second, lg_others = (\<lambda>l. l)\<rparr>"

definition demo_account :: db where
  "demo_account = empty_db\<lparr>t_users := [\<lparr>us_ID = 1, us_Email = ''ab'', us_Password = ''p'', us_IsAdmin = True\<rparr>], seq_users := 1\<rparr>"

lemma demo_login_fields:
  "rq_method demo_login = ''POST''" "rq_form demo_login \<noteq> None" "validLoginCSRF demo_auth demo_login"
  "check_login (=) demo_auth demo_login_env demo_account demo_login = (new_session demo_auth demo_login_env ''ab'', loginSucceeded)"
  "TrimSpace (FormValue demo_login ''username'') = ''ab''" "FormValue demo_login ''password'' = ''p''"
proof -
  have t: "TrimSpace ''t'' = ''t''" "TrimSpace ''ab'' = ''ab''" by code_simp+
  then show "rq_method demo_login = ''POST''" "rq_form demo_login \<noteq> None" "validLoginCSRF demo_auth demo_login"
    "check_login (=) demo_auth demo_login_env demo_account demo_login = (new_session demo_auth demo_login_env ''ab'', loginSucceeded)"
    "TrimSpace (FormValue demo_login ''username'') = ''ab''" "FormValue demo_login ''password'' = ''p''"
    by (simp_all add: demo_login_def no_request_def validLoginCSRF_def get_cookie_def demo_auth_def FormValue_def
        get_value_def check_login_def FindUserByEmail_def demo_login_env_def demo_account_def)
qed

theorem login_correct_witness:
  "rp_status (fst (Login (=) Some (\<lambda>t. t) demo_auth demo_login_env demo_account demo_login newLoginLimiter)) = 303 \<and>
   (let l' = snd (Login (=) Some (\<lambda>t. t) demo_auth demo_login_env demo_account demo_login newLoginLimiter)
    in pending (heap l' 0) = 0 \<and> failures (heap l' 0) = 0)"
proof -
  let ?run = "Login (=) Some (\<lambda>t. t) demo_auth demo_login_env demo_account demo_login newLoginLimiter"
  let ?user = "\<lparr>us_ID = 1, us_Email = ''ab'', us_Password = ''p'', us_IsAdmin = True\<rparr>"
  obtain reservation wait l1 where admitted:
      "reserve (clientIP Some demo_login (au_trustProxyHeaders demo_auth)) (lg_reserve_at demo_login_env) newLoginLimiter =
        (Some reservation, wait, l1)" "res_entry reservation = 0" "pending (heap l1 0) = 1" "failures (heap l1 0) = 0"
    by (simp add: reserve_def newLoginLimiter_def sweepLocked_def entry_for_def renew_window_def
        new_attempt_def loginMaxAttempts_def time_units zero_time_def loginWindow_def demo_login_env_def)
  have account: "Some ?user = find (\<lambda>u. us_Email u = TrimSpace (FormValue demo_login ''username'')) (sort_key us_ID (t_users demo_account))"
    using demo_login_fields(5) by (simp add: demo_account_def)
  show ?thesis
    using login_correct [OF prod.collapse [symmetric, of ?run] _ admitted(1) account]
      demo_login_fields(1-3,6) admitted(2-4)
    by (auto simp: demo_login_env_def demo_auth_def Let_def split: if_splits)
qed

text \<open>
  The limiter's guarantees hold for real logins. If the limiter was in a reachable state, it
  is after any login request, also when other requests use it while the password is checked: the
  handler settles every reservation it takes.
\<close>

theorem login_runs_limiter:
  assumes "lim_reachable (l, rs)" and "Login matches ParseAddr login_page a env d r l = (rp, l')"
    and "\<And>l1 rs1. lim_reachable (l1, rs1) \<Longrightarrow> \<exists>rs2. set rs1 \<subseteq> set rs2 \<and> lim_reachable (lg_others env l1, rs2)"
  shows "\<exists>rs'. lim_reachable (l', rs')"
proof -
  let ?key = "clientIP ParseAddr r (au_trustProxyHeaders a)"
  obtain res wait l1 where reserved: "reserve ?key (lg_reserve_at env) l = (res, wait, l1)" by (metis prod_cases3)
  consider "l' = l" | "res = None" "l' = l1"
    | reservation outcome where "res = Some reservation" "l' = finish reservation outcome (lg_finish_at env) (lg_others env l1)"
    using assms(2) reserved by (auto simp: Login_def split: if_splits prod.splits option.splits)
  then show ?thesis
  proof cases
    case 1
    then show ?thesis using assms(1) by blast
  next
    case 2
    then show ?thesis using lim_next [OF assms(1) blocked] reserved by blast
  next
    case (3 reservation outcome)
    then have "lim_reachable (l1, reservation # rs)" using lim_next [OF assms(1) admitted] reserved by blast
    from assms(3) [OF this] obtain rs2 where "reservation \<in> set rs2" "lim_reachable (lg_others env l1, rs2)" by auto
    then show ?thesis using lim_next [OF _ finished] 3 by blast
  qed
qed

theorem login_runs_limiter_witness:
  "\<exists>rs'. lim_reachable (snd (Login (=) Some (\<lambda>t. t) demo_auth demo_login_env demo_account demo_login newLoginLimiter), rs')"
  by (rule login_runs_limiter [OF lim_init prod.collapse [symmetric]]) (auto simp: demo_login_env_def)

end
