(* ===== verification/Connection.thy ===== *)
theory Connection
  imports Store Urls
begin

text \<open>
  The connection of \<open>internal/storage/db.go\<close>: the URL that \<open>Open\<close> builds from its configuration, with
  \<open>net.JoinHostPort\<close> and \<open>URL.String\<close> of the standard library, the steps of \<open>Open\<close>, \<open>Ping\<close> and \<open>Close\<close>.

  The driver is a \<open>postgres\<close>: what connecting to a URL gives, what migrating the tables makes of the
  database, and whether the search function could be created. \<open>read_url\<close> is how a client of such a URL
  reads it; the lemmas show that it finds what the configuration says, whatever the credentials hold.
\<close>

record database_config =
  dc_Host :: string
  dc_Port :: string
  dc_User :: string
  dc_Password :: string
  dc_Name :: string
  dc_SSLMode :: string

section \<open>The URL\<close>

text \<open>The bytes a part of a URL keeps as they are; every other becomes a percent sign and two digits.\<close>

definition keeps_userinfo :: "char \<Rightarrow> bool" where
  "keeps_userinfo c \<longleftrightarrow> unreserved c \<or> c \<in> set ''$&+,;=''"

definition keeps_host :: "char \<Rightarrow> bool" where
  "keeps_host c \<longleftrightarrow> unreserved c \<or> c \<in> set ''!$&()*+,;=:[]<>'' \<or> byte c \<in> {34, 39}"

definition keeps_path :: "char \<Rightarrow> bool" where
  "keeps_path c \<longleftrightarrow> unreserved c \<or> c \<in> set ''$&+,/:;=@''"

definition percent :: "(char \<Rightarrow> bool) \<Rightarrow> char \<Rightarrow> string" where
  "percent keep c = (if keep c then [c] else [CHR ''%'', hex_upper (byte c div 16), hex_upper (byte c mod 16)])"

definition escape :: "(char \<Rightarrow> bool) \<Rightarrow> string \<Rightarrow> string" where
  "escape keep s = concat (map (percent keep) s)"

definition EscapedPath :: "string \<Rightarrow> string" where
  "EscapedPath path = (if path = ''*'' then ''*'' else escape keeps_path path)"

definition JoinHostPort :: "string \<Rightarrow> string \<Rightarrow> string" where
  "JoinHostPort host port =
     (if CHR '':'' \<in> set host then ''['' @ host @ '']:'' @ port else host @ '':'' @ port)"

text \<open>\<open>URL.String\<close> for a URL with a scheme, a user and a nonempty host.\<close>

definition url_string :: "string \<Rightarrow> string \<Rightarrow> string \<Rightarrow> string \<Rightarrow> string \<Rightarrow> string \<Rightarrow> string" where
  "url_string scheme user password host path query =
     (let p = EscapedPath path
      in scheme @ ''://'' @ escape keeps_userinfo user @ '':'' @ escape keeps_userinfo password @ ''@'' @ escape keeps_host host @
         (if p \<noteq> [] \<and> hd p \<noteq> CHR ''/'' then ''/'' @ p else p) @ (if query = [] then [] else ''?'' @ query))"

definition database_url :: "database_config \<Rightarrow> string" where
  "database_url c =
     url_string ''postgres'' (dc_User c) (dc_Password c) (JoinHostPort (dc_Host c) (dc_Port c)) (dc_Name c)
       (encode_query (set_value ''sslmode'' (dc_SSLMode c) (ParseQuery [])))"

section \<open>Opening and closing\<close>

record postgres =
  pg_Open :: "string \<Rightarrow> go_error + db"
  pg_AutoMigrate :: "db \<Rightarrow> go_error + db"
  pg_initPayloadSearch :: "go_error option"

definition Open :: "postgres \<Rightarrow> database_config \<Rightarrow> go_error + db" where
  "Open pg c =
     (case pg_Open pg (database_url c) of
        Inl e \<Rightarrow> Inl e
      | Inr d \<Rightarrow>
          (case pg_AutoMigrate pg d of
             Inl e \<Rightarrow> Inl e
           | Inr d' \<Rightarrow>
               (case pg_initPayloadSearch pg of
                  Some e \<Rightarrow> Inl (ErrText (''initialize payload search: '' @ error_text e))
                | None \<Rightarrow> Inr d')))"

text \<open>The pool of connections that \<open>conn.DB\<close> gives, by what it answers.\<close>

record pool =
  po_PingContext :: "go_error option"
  po_Close :: "go_error option"

definition Ping :: "go_error + pool \<Rightarrow> go_error option" where
  "Ping conn = (case conn of Inl e \<Rightarrow> Some e | Inr p \<Rightarrow> po_PingContext p)"

definition Close :: "go_error + pool \<Rightarrow> go_error option" where
  "Close conn = (case conn of Inl e \<Rightarrow> Some e | Inr p \<Rightarrow> po_Close p)"

lemma Open_Inr: "Open pg c = Inr d' \<longleftrightarrow>
    pg_initPayloadSearch pg = None \<and> (\<exists>d. pg_Open pg (database_url c) = Inr d \<and> pg_AutoMigrate pg d = Inr d')"
  by (auto simp: Open_def split: sum.splits option.splits)

section \<open>Reading the URL\<close>

text \<open>Cutting at the last occurrence, and the host and port of an authority.\<close>

definition cut_last :: "char \<Rightarrow> string \<Rightarrow> (string \<times> string) option" where
  "cut_last c s = map_option (\<lambda>(a, b). (rev b, rev a)) (cut_at c (rev s))"

definition without_brackets :: "string \<Rightarrow> string" where
  "without_brackets h = (case h of c # t \<Rightarrow> if c = CHR ''['' then butlast t else h | [] \<Rightarrow> [])"

definition read_authority :: "string \<Rightarrow> (string \<times> string \<times> string \<times> string) option" where
  "read_authority a =
     (case cut_last (CHR ''@'') a of
        None \<Rightarrow> None
      | Some (userinfo, hostport) \<Rightarrow>
          (case (cut_at (CHR '':'') userinfo, cut_last (CHR '':'') hostport) of
             (Some (u, pw), Some (h, port)) \<Rightarrow>
               (case (unescape_path u, unescape_path pw, unescape_path h) of
                  (Some user, Some password, Some host) \<Rightarrow> Some (user, password, without_brackets host, port)
                | _ \<Rightarrow> None)
           | _ \<Rightarrow> None))"

definition read_url :: "string \<Rightarrow> database_config option" where
  "read_url s =
     (if take 11 s \<noteq> ''postgres://'' then None
      else
        (let (hier, query) = (case cut_at (CHR ''?'') (drop 11 s) of None \<Rightarrow> (drop 11 s, []) | Some parts \<Rightarrow> parts);
             (authority, path) = (case cut_at (CHR ''/'') hier of None \<Rightarrow> (hier, []) | Some parts \<Rightarrow> parts)
         in case (read_authority authority, unescape_path path) of
              (Some (user, password, host, port), Some name) \<Rightarrow>
                Some \<lparr>dc_Host = host, dc_Port = port, dc_User = user, dc_Password = password, dc_Name = name,
                      dc_SSLMode = get_value (ParseQuery query) ''sslmode''\<rparr>
            | _ \<Rightarrow> None))"

lemma decode_percent: "\<not> keep (CHR ''%'') \<Longrightarrow> unescape_path (percent keep c @ s) = map_option (\<lambda>t. c # t) (unescape_path s)"
  by (auto simp: percent_def unhex_hex_upper byte_div_less byte_split)

lemma decode_escape: "\<not> keep (CHR ''%'') \<Longrightarrow> unescape_path (escape keep s) = Some s"
  by (induction s) (simp_all add: escape_def decode_percent)

text \<open>An escaped part holds kept bytes, percent signs and digits.\<close>

lemma escape_chars: "c \<in> set (escape keep s) \<Longrightarrow> keep c \<or> c = CHR ''%'' \<or> (\<exists>d < 16. c = hex_upper d)"
proof -
  assume "c \<in> set (escape keep s)"
  then obtain b where "c \<in> set (percent keep b)" by (auto simp: escape_def)
  then consider "keep b" "c = b" | "c = CHR ''%''" | "c = hex_upper (byte b div 16)" | "c = hex_upper (byte b mod 16)"
    by (auto simp: percent_def split: if_splits)
  moreover have "byte b div 16 < 16" "byte b mod 16 < 16" by (simp_all add: byte_div_less)
  ultimately show ?thesis by cases blast+
qed

lemma hex_upper_plain: "d < 16 \<Longrightarrow> unreserved (hex_upper d)"
  by (auto simp: hex_upper_def unreserved_def byte_def Let_def)

lemma escape_absent:
  assumes "\<not> keep c" and "c \<noteq> CHR ''%''" and "\<not> unreserved c"
  shows "c \<notin> set (escape keep s)"
  using assms escape_chars [of c keep s] hex_upper_plain by blast

lemma escape_plain: "list_all keep s \<Longrightarrow> escape keep s = s"
  by (induction s) (simp_all add: escape_def percent_def)

lemma keeps_facts [simp]:
  "\<not> keeps_userinfo (CHR ''%'')" "\<not> keeps_path (CHR ''%'')"
  "CHR ''@'' \<notin> set (escape keeps_userinfo s)" "CHR '':'' \<notin> set (escape keeps_userinfo s)"
  "CHR ''/'' \<notin> set (escape keeps_userinfo s)" "CHR ''?'' \<notin> set (escape keeps_userinfo s)"
  "CHR ''?'' \<notin> set (escape keeps_path s)"
  by (rule escape_absent | simp add: keeps_userinfo_def keeps_path_def unreserved_def byte_def Let_def)+

lemma cut_last_append: "c \<notin> set b \<Longrightarrow> cut_last c (a @ c # b) = Some (a, b)"
  by (simp add: cut_last_def cut_at_append)

lemma unescape_plain: "CHR ''%'' \<notin> set s \<Longrightarrow> unescape_path s = Some s"
  by (induction s) auto

lemma decode_EscapedPath: "unescape_path (EscapedPath path) = Some path"
  by (simp add: EscapedPath_def decode_escape)

lemma EscapedPath_chars: "CHR ''?'' \<notin> set (EscapedPath path)"
  by (simp add: EscapedPath_def)

lemma EscapedPath_hd:
  assumes "path \<noteq> []" and "hd path \<noteq> CHR ''/''"
  shows "EscapedPath path \<noteq> [] \<and> hd (EscapedPath path) \<noteq> CHR ''/''"
  using assms by (cases path) (auto simp: EscapedPath_def escape_def percent_def)

text \<open>A host's name or address, an IPv6 address included, and a port.\<close>

definition host_byte :: "char \<Rightarrow> bool" where
  "host_byte c \<longleftrightarrow> unreserved c \<or> c = CHR '':''"

lemma not_unreserved [simp]:
  "\<not> unreserved (CHR '':'')" "\<not> unreserved (CHR ''@'')" "\<not> unreserved (CHR ''/'')" "\<not> unreserved (CHR ''?'')"
  "\<not> unreserved (CHR ''['')" "\<not> unreserved (CHR '']'')" "\<not> unreserved (CHR ''%'')"
  by (simp_all add: unreserved_def byte_def Let_def)

lemma host_port_read:
  assumes "list_all host_byte host" and "list_all unreserved port"
  obtains h where "JoinHostPort host port = h @ '':'' @ port" "escape keeps_host (JoinHostPort host port) = h @ '':'' @ port"
    "CHR ''@'' \<notin> set h" "CHR ''/'' \<notin> set h" "CHR ''?'' \<notin> set h" "unescape_path h = Some h" "without_brackets h = host"
proof -
  define h where "h = (if CHR '':'' \<in> set host then ''['' @ host @ '']'' else host)"
  have h: "JoinHostPort host port = h @ '':'' @ port" by (simp add: JoinHostPort_def h_def)
  have chars: "c \<in> set h \<Longrightarrow> unreserved c \<or> c \<in> {CHR '':'', CHR ''['', CHR '']''}" for c
  proof -
    assume "c \<in> set h"
    then have "c \<in> set host \<or> c \<in> {CHR ''['', CHR '']'', CHR '':''}" by (simp add: h_def split: if_splits, blast)
    moreover have "c \<in> set host \<Longrightarrow> host_byte c" using assms(1) unfolding list_all_iff by blast
    ultimately show ?thesis unfolding host_byte_def by blast
  qed
  have "list_all keeps_host (JoinHostPort host port)"
    unfolding list_all_iff h
  proof
    fix c assume "c \<in> set (h @ '':'' @ port)"
    then have "c \<in> set h \<or> c = CHR '':'' \<or> c \<in> set port" by auto
    then have "unreserved c \<or> c \<in> {CHR '':'', CHR ''['', CHR '']''}" using chars assms(2) unfolding list_all_iff by blast
    then show "keeps_host c" by (auto simp: keeps_host_def)
  qed
  then have "escape keeps_host (JoinHostPort host port) = h @ '':'' @ port" using h by (simp add: escape_plain)
  moreover have "CHR ''@'' \<notin> set h" "CHR ''/'' \<notin> set h" "CHR ''?'' \<notin> set h" "CHR ''%'' \<notin> set h"
    using chars by fastforce+
  moreover have "without_brackets h = host"
    using assms(1) by (cases host) (auto simp: h_def without_brackets_def host_byte_def)
  ultimately show ?thesis using that h unescape_plain by blast
qed

text \<open>
  C34: the server connects with the credentials it was given. Whatever characters user, password
  and mode hold, the URL the database is opened with is read back as the configuration, for a host
  by name or address, a port, and a database whose name does not begin with a slash.
\<close>

theorem database_url_roundtrip:
  assumes "list_all host_byte (dc_Host c)" and "list_all unreserved (dc_Port c)"
    and "dc_Name c \<noteq> []" and "hd (dc_Name c) \<noteq> CHR ''/''"
  shows "read_url (database_url c) = Some c"
proof -
  let ?user = "escape keeps_userinfo (dc_User c)" and ?password = "escape keeps_userinfo (dc_Password c)"
  let ?query = "encode_query (set_value ''sslmode'' (dc_SSLMode c) (ParseQuery []))"
  obtain h where h: "escape keeps_host (JoinHostPort (dc_Host c) (dc_Port c)) = h @ '':'' @ dc_Port c"
    "CHR ''@'' \<notin> set h" "CHR ''/'' \<notin> set h" "CHR ''?'' \<notin> set h" "unescape_path h = Some h" "without_brackets h = dc_Host c"
    using host_port_read [OF assms(1,2)] by metis
  have port: "CHR '':'' \<notin> set (dc_Port c)" "CHR ''@'' \<notin> set (dc_Port c)" "CHR ''/'' \<notin> set (dc_Port c)" "CHR ''?'' \<notin> set (dc_Port c)"
    using assms(2) by (auto simp: list_all_iff)
  define authority where "authority = (?user @ CHR '':'' # ?password) @ CHR ''@'' # (h @ CHR '':'' # dc_Port c)"
  have read: "read_authority authority = Some (dc_User c, dc_Password c, dc_Host c, dc_Port c)"
    using h port by (simp add: authority_def read_authority_def cut_last_append cut_at_append decode_escape del: append_assoc)
  have absent: "CHR ''/'' \<notin> set authority" "CHR ''?'' \<notin> set authority" using h port by (simp_all add: authority_def)
  have none: "ParseQuery [] = []" by (simp add: ParseQuery_def decode_pair_def)
  then have q: "?query \<noteq> []"
    by (simp add: encode_query_def query_pairs_def encode_pair_def set_value_def del_value_def)
  have mode: "get_value (ParseQuery ?query) ''sslmode'' = dc_SSLMode c"
    by (simp add: none get_value_query set_value_def del_value_def) (simp add: get_value_def)
  have "database_url c = ''postgres://'' @ (authority @ CHR ''/'' # EscapedPath (dc_Name c)) @ CHR ''?'' # ?query"
    using q EscapedPath_hd [OF assms(3,4)] by (simp add: database_url_def url_string_def h(1) authority_def Let_def)
  then show ?thesis
    using q mode absent read by (simp add: read_url_def cut_at_append EscapedPath_chars decode_EscapedPath del: append_assoc)
qed

definition demo_database :: database_config where
  "demo_database = \<lparr>dc_Host = ''::1'', dc_Port = ''5432'', dc_User = ''hub'', dc_Password = ''p@ss:/?w%'', dc_Name = ''hub'',
     dc_SSLMode = ''disable''\<rparr>"

theorem database_url_roundtrip_witness:
  "read_url (database_url demo_database) = Some demo_database"
  by (rule database_url_roundtrip)
    (simp_all add: demo_database_def host_byte_def unreserved_def byte_def Let_def)

end
