(* ===== verification/Access.thy ===== *)
theory Access
  imports Server
begin

text \<open>
  Who can change what, and who can learn what: the middlewares and the table of routes taken
  together. A request runs the handler of at most one route; what stands before the handler lets
  a mutation through with a session and its token only, and a page with a session.
\<close>

section \<open>Who can change what\<close>

text \<open>The session a request carries.\<close>

definition session_of :: "app \<Rightarrow> request \<Rightarrow> session_data option" where
  "session_of app r =
     (case get_cookie r ''session'' of
        None \<Rightarrow> None
      | Some v \<Rightarrow>
          (case Decode (au_cookies (ap_auth app)) (rq_at r) ''session'' v of
             None \<Rightarrow> None
           | Some session \<Rightarrow> if sd_User session = [] \<or> sd_CSRFToken session = [] then None else Some session))"

lemma RequireAuth_session:
  "RequireAuth (ap_auth app) next r s =
     (case session_of app r of
        None \<Rightarrow> (redirectToLogin r, s)
      | Some session \<Rightarrow> next (r\<lparr>rq_csrf := sd_CSRFToken session\<rparr>) s)"
  by (simp add: RequireAuth_def session_of_def split: option.split)

lemma session_of_upd [simp]:
  "session_of app (r\<lparr>rq_path_values := vs\<rparr>) = session_of app r" "session_of app (r\<lparr>rq_path := p\<rparr>) = session_of app r"
  by (simp_all add: session_of_def get_cookie_def cong: option.case_cong)

definition shows_token :: "session_data \<Rightarrow> request \<Rightarrow> bool" where
  "shows_token session r \<longleftrightarrow>
     sd_CSRFToken session \<in> {TrimSpace (Header_Get (rq_header r) ''X-CSRF-Token''), TrimSpace (FormValue r ''csrf_token'')}"

lemma RequireCSRF_refuses:
  assumes "\<not> (CSRFToken r \<noteq> [] \<and> CSRFToken r \<in> {TrimSpace (Header_Get (rq_header r) ''X-CSRF-Token''), TrimSpace (FormValue r ''csrf_token'')})"
  shows "snd (RequireCSRF next r s) = s"
  using assms by (auto simp: RequireCSRF_def Let_def)

lemma limit_form_keeps [simp]:
  "rq_header (limit_form app n body r) = rq_header r" "CSRFToken (limit_form app n body r) = CSRFToken r"
  "rq_cookies (limit_form app n body r) = rq_cookies r"
  by (simp_all add: limit_form_def CSRFToken_def)

lemma FormValue_limit: "FormValue (limit_form app n body r) name \<in> {[], FormValue r name}"
  by (simp add: limit_form_def FormValue_def)

text \<open>A mutation goes through with a session and its token only.\<close>

lemma protect_mutation:
  assumes "rt_Access rt = ProtectedMutation"
  shows "snd (protect app body rt h r s) = s \<or>
    (\<exists>session. session_of app r = Some session \<and> shows_token session r)"
proof (cases "session_of app r")
  case None
  then show ?thesis using assms by (simp add: protect_def RequireAuth_session)
next
  case (Some session)
  then have some: "sd_CSRFToken session \<noteq> []" by (auto simp: session_of_def split: option.splits if_splits)
  show ?thesis
  proof (rule disjCI)
    assume "\<nexists>session. session_of app r = Some session \<and> shows_token session r"
    then have no: "\<not> shows_token session r" using Some by simp
    let ?r = "r\<lparr>rq_csrf := sd_CSRFToken session\<rparr>"
    have "FormValue ?r n = FormValue r n" for n by (simp add: FormValue_def)
    then have "snd (RequireCSRF h ?r s) = s" "snd (RequireCSRF h (limit_form app MaxBulkReplayBodyBytes body ?r) s) = s"
      using no some FormValue_limit [of app MaxBulkReplayBodyBytes body ?r "''csrf_token''"]
      by (auto intro!: RequireCSRF_refuses simp: shows_token_def CSRFToken_def [of ?r])
    then show "snd (protect app body rt h r s) = s" using assms Some by (simp add: protect_def RequireAuth_session)
  qed
qed

lemma state_kept [simp]:
  "sv_db (snd (on_limiter g r s)) = sv_db s" "sv_limiter (snd (on_db h r s)) = sv_limiter s" "snd (reads k r s) = s"
  by (simp_all add: on_db_def on_limiter_def reads_def split: prod.split)

lemma Logout_keeps [simp]: "snd (Logout a r s) = s" by (simp add: Logout_def)

text \<open>Which endpoints can change the database, and which the limiter.\<close>

definition changes_db :: "endpoint \<Rightarrow> bool" where
  "changes_db e \<longleftrightarrow> e \<in> {ReceiveHook, Replay, BulkReplay, Delete, Pause True, Pause False, SaveRule, UpdateRule, DeleteRule}"

lemma endpoint_keeps_db: "\<not> changes_db e \<Longrightarrow> sv_db (snd (endpoint_handler app env body e r s)) = sv_db s"
  by (cases e) (auto simp: changes_db_def)

lemma endpoint_keeps_limiter:
  "e \<noteq> LoginPage \<or> rq_method r = ''GET'' \<Longrightarrow> sv_limiter (snd (endpoint_handler app env body e r s)) = sv_limiter s"
  by (cases e) (auto simp: on_limiter_def Login_def split: prod.split)

lemma changing_routes:
  "list_all (\<lambda>rt. changes_db (rt_Endpoint rt) \<longrightarrow> rt_Method rt = ''POST'' \<and>
     (rt_Access rt = ProtectedMutation \<or> rt_Endpoint rt = ReceiveHook \<and> rt_Access rt = Public)) routes"
  "list_all (\<lambda>rt. rt_Endpoint rt = LoginPage \<longrightarrow> rt_Access rt = Public) routes"
  "list_all (\<lambda>rt. rt_Access rt = Public \<longrightarrow> rt_Endpoint rt \<in> {Static, Healthz, Readyz, LoginPage, ReceiveHook}) routes"
  by (simp_all add: routes_def exact_def changes_db_def)

text \<open>What a protected handler does is what its handler does, or nothing.\<close>

lemma protect_cases:
  obtains (refused) "snd (protect app body rt h r s) = s"
  | (admitted) r' where "protect app body rt h r s = h r' s" "rq_method r' = rq_method r"
proof -
  have csrf: "RequireCSRF h q s = h q s \<or> snd (RequireCSRF h q s) = s" for q
    by (simp add: RequireCSRF_def Let_def)
  have same_method: "rq_method (limit_form app n body q) = rq_method q" for n q by (simp add: limit_form_def)
  have "snd (protect app body rt h r s) = s \<or> (\<exists>r'. protect app body rt h r s = h r' s \<and> rq_method r' = rq_method r)"
  proof (cases "session_of app r")
    case None
    then show ?thesis by (cases "rt_Access rt") (auto simp: protect_def RequireAuth_session)
  next
    case (Some session)
    let ?r = "r\<lparr>rq_csrf := sd_CSRFToken session\<rparr>"
    have "rq_method ?r = rq_method r" by simp
    then show ?thesis
      using Some csrf [of ?r] csrf [of "limit_form app MaxBulkReplayBodyBytes body ?r"] same_method [of MaxBulkReplayBodyBytes ?r]
      by (cases "rt_Access rt") (auto simp: protect_def RequireAuth_session)
  qed
  then show thesis using refused admitted by blast
qed

lemma serve_state:
  "snd (serve app env w s) = snd (mux app env (wi_body w) (wi_EscapedPath w)
     ((wi_request w)\<lparr>rq_path := decoded (wi_EscapedPath w)\<rparr>) s)"
  by (simp add: serve_def with_security_def)

lemma serve_status:
  "rp_status (fst (serve app env w s)) = rp_status (fst (mux app env (wi_body w) (wi_EscapedPath w)
     ((wi_request w)\<lparr>rq_path := decoded (wi_EscapedPath w)\<rparr>) s))"
  by (simp add: serve_def with_security_def)

lemma shows_token_upd [simp]:
  "shows_token session (r\<lparr>rq_path_values := vs\<rparr>) = shows_token session r"
  "shows_token session (r\<lparr>rq_path := p\<rparr>) = shows_token session r"
  by (simp_all add: shows_token_def FormValue_def)

text \<open>Either a request leaves the state alone, or it is the run of one handler of the table.\<close>

lemma serve_cases:
  obtains (idle) "snd (serve app env w s) = s"
  | (run) rt vs r where "dispatch (rq_method (wi_request w)) (wi_EscapedPath w) = Run rt vs" "rt \<in> set routes"
      "serves (rq_method (wi_request w)) rt" "rq_method r = rq_method (wi_request w)"
      "snd (serve app env w s) = snd (endpoint_handler app env (wi_body w) (rt_Endpoint rt) r s)"
proof (cases "dispatch (rq_method (wi_request w)) (wi_EscapedPath w)")
  case (Run rt vs)
  let ?r = "(wi_request w)\<lparr>rq_path := decoded (wi_EscapedPath w), rq_path_values := vs\<rparr>"
  have "snd (serve app env w s) = snd (protect app (wi_body w) rt (endpoint_handler app env (wi_body w) (rt_Endpoint rt)) ?r s)"
    using Run by (simp add: serve_state mux_def)
  then show thesis
    using idle run Run dispatch_Run [OF Run]
    by (cases rule: protect_cases [of app "wi_body w" rt "endpoint_handler app env (wi_body w) (rt_Endpoint rt)" ?r s]) auto
qed (use idle in \<open>simp_all add: serve_state mux_def\<close>)

text \<open>
  C4: only authorised requests change anything. The database changes for a \<open>POST\<close> alone, and then the
  request carries a session and repeats its token, or it is a webhook that was stored (or whose
  commit is in doubt); the login limiter changes for login attempts alone.
\<close>

theorem only_authorised_changes:
  "(sv_db (snd (serve app env w s)) = sv_db s \<or>
    rq_method (wi_request w) = ''POST'' \<and>
    ((\<exists>session. session_of app (wi_request w) = Some session \<and> shows_token session (wi_request w)) \<or>
     (\<exists>rt vs. dispatch ''POST'' (wi_EscapedPath w) = Run rt vs \<and> rt_Endpoint rt = ReceiveHook \<and>
        rp_status (fst (serve app env w s)) \<in> {202, 503}))) \<and>
   (sv_limiter (snd (serve app env w s)) = sv_limiter s \<or>
    rq_method (wi_request w) \<noteq> ''GET'' \<and>
    (\<exists>rt vs. dispatch (rq_method (wi_request w)) (wi_EscapedPath w) = Run rt vs \<and> rt_Endpoint rt = LoginPage))"
proof (cases rule: serve_cases [of app env w s])
  case (run rt vs r)
  note table = changing_routes [unfolded list_all_iff, rule_format, OF run(2)]
  have lim: "sv_limiter (snd (serve app env w s)) = sv_limiter s \<or> rq_method (wi_request w) \<noteq> ''GET'' \<and> rt_Endpoint rt = LoginPage"
    using endpoint_keeps_limiter [of "rt_Endpoint rt" r] run(4,5) by auto
  let ?q = "(wi_request w)\<lparr>rq_path := decoded (wi_EscapedPath w), rq_path_values := vs\<rparr>"
  show ?thesis
  proof (cases "changes_db (rt_Endpoint rt)")
    case False
    then show ?thesis using endpoint_keeps_db run lim by auto
  next
    case True
    then have post: "rq_method (wi_request w) = ''POST''" using table(1) run(3) by (auto simp: serves_def)
    show ?thesis
    proof (cases "rt_Access rt = ProtectedMutation")
      case mut: True
      have "snd (serve app env w s) = s \<or> (\<exists>session. session_of app (wi_request w) = Some session \<and> shows_token session (wi_request w))"
        using protect_mutation [OF mut, of app "wi_body w" "endpoint_handler app env (wi_body w) (rt_Endpoint rt)" ?q s] run(1)
        by (simp add: serve_state mux_def)
      then show ?thesis using post lim run(1) by auto
    next
      case False
      then have hook: "rt_Endpoint rt = ReceiveHook" "rt_Access rt = Public" using table(1) True by auto
      obtain rp d' where out: "ReceiveWebhook (ap_maxBodyBytes app) (su_hook env) ?q (wi_body w) (sv_db s) = (rp, d')" by fastforce
      then have "sv_db (snd (serve app env w s)) = d'" "rp_status (fst (serve app env w s)) = rp_status rp"
        using run(1) hook by (simp_all add: serve_state serve_status mux_def protect_def on_db_def)
      moreover have "d' = sv_db s \<or> rp_status rp \<in> {202, 503}"
        using out by (cases rule: Receive_cases) (auto simp: store_webhook_def split: sum.splits prod.splits)
      ultimately show ?thesis using post lim run(1) hook by auto
    qed
  qed
qed simp

text \<open>
  C5: a request without a session learns nothing of what is stored. Unless it is a webhook or a
  login attempt, its reply is the same whatever the database and the limiter hold, it changes
  neither, and on a protected route it is sent to the login page.
\<close>

theorem anonymous_learns_nothing:
  assumes "session_of app (wi_request w) = None"
    and "\<And>rt vs. dispatch (rq_method (wi_request w)) (wi_EscapedPath w) = Run rt vs \<Longrightarrow>
      rt_Endpoint rt \<noteq> ReceiveHook \<and> (rt_Endpoint rt = LoginPage \<longrightarrow> rq_method (wi_request w) = ''GET'')"
  shows "fst (serve app env w s) = fst (serve app env w t) \<and> snd (serve app env w s) = s \<and>
    (\<forall>rt vs. dispatch (rq_method (wi_request w)) (wi_EscapedPath w) = Run rt vs \<longrightarrow> Protected \<le> rt_Access rt \<longrightarrow>
       rp_status (fst (serve app env w s)) \<in> {303, 401})"
proof -
  let ?q = "(wi_request w)\<lparr>rq_path := decoded (wi_EscapedPath w)\<rparr>"
  have "\<exists>rp. (\<forall>s. mux app env (wi_body w) (wi_EscapedPath w) ?q s = (rp, s)) \<and>
    (\<forall>rt vs. dispatch (rq_method (wi_request w)) (wi_EscapedPath w) = Run rt vs \<longrightarrow> rt_Access rt \<noteq> Public \<longrightarrow> rp_status rp \<in> {303, 401})"
  proof (cases "dispatch (rq_method (wi_request w)) (wi_EscapedPath w)")
    case (Run rt vs)
    let ?r = "?q\<lparr>rq_path_values := vs\<rparr>"
    show ?thesis
    proof (cases "rt_Access rt = Public")
      case True
      have "rt \<in> set routes" using dispatch_Run [OF Run] by simp
      then have "rt_Endpoint rt \<in> {Static, Healthz, Readyz, LoginPage}"
        using changing_routes(3) True assms(2) [OF Run] by (auto simp: list_all_iff)
      moreover have "rt_Endpoint rt = LoginPage \<Longrightarrow> rq_method (wi_request w) = ''GET''" using assms(2) [OF Run] by simp
      ultimately show ?thesis
        using Run True by (auto simp: mux_def protect_def reads_def on_limiter_def Login_def split: prod.split)
    next
      case False
      then have "protect app (wi_body w) rt h ?r s = (redirectToLogin ?r, s)" for h s
        using assms(1) by (cases "rt_Access rt") (simp_all add: protect_def RequireAuth_session)
      then show ?thesis using Run redirectToLogin_status by (simp add: mux_def)
    qed
  qed (simp_all add: mux_def)
  then show ?thesis by (auto simp: serve_def with_security_def Protected_le)
qed

definition demo_sessions :: auth where
  "demo_sessions = demo_auth\<lparr>au_cookies := \<lparr>Encode = (\<lambda>instant name s. Some (sd_User s)),
     Decode = (\<lambda>instant name v. Some \<lparr>sd_User = v, sd_CSRFToken = ''t''\<rparr>)\<rparr>\<rparr>"

definition demo_app :: app where
  "demo_app = \<lparr>ap_auth = demo_sessions, ap_maxBodyBytes = 100, ap_matches = (=), ap_ParseAddr = Some,
     ap_ParseRequestURI = demo_urls, ap_zones = utc_only, ap_lower = (\<lambda>s. s), ap_form_body = (\<lambda>r. True),
     ap_render = (\<lambda>p. []), ap_login_page = (\<lambda>t. t), ap_static = (\<lambda>r. NotFound), ap_moved = (\<lambda>r. http_Redirect ''/'' 301)\<rparr>"

definition demo_env :: surroundings where
  "demo_env = \<lparr>su_hook = demo_hook_env, su_login = demo_login_env, su_pool = Inr \<lparr>po_PingContext = None, po_Close = None\<rparr>, su_faults = no_faults,
     su_read_fails = (\<lambda>i. False), su_now = 0, su_others = (\<lambda>d. d)\<rparr>"

definition demo_server :: server where "demo_server = \<lparr>sv_db = empty_db, sv_limiter = newLoginLimiter\<rparr>"

definition demo_post :: wire where
  "demo_post = \<lparr>wi_request = demo_plain_hook, wi_EscapedPath = ''/hook/stripe'', wi_body = demo_hook_body\<rparr>"

definition demo_visit :: request where
  "demo_visit = no_request\<lparr>rq_cookies := [(''session'', ''ab'')]\<rparr>"

lemma demo_session: "session_of demo_app demo_visit = Some \<lparr>sd_User = ''ab'', sd_CSRFToken = ''t''\<rparr>"
  by (simp add: session_of_def demo_app_def demo_sessions_def demo_visit_def get_cookie_def)

lemma demo_dispatch:
  "dispatch ''POST'' ''/hook/stripe'' = Run (posts [Lit ''hook'', Wild ''source''] Public ReceiveHook) [(''source'', ''stripe'')]"
  "dispatch ''GET'' ''/dashboard'' = Run (gets [Lit ''dashboard''] Protected Dashboard) []"
  by code_simp+


theorem anonymous_learns_nothing_witness:
  "\<forall>s t. fst (serve demo_app demo_env \<lparr>wi_request = no_request, wi_EscapedPath = ''/dashboard'', wi_body = demo_hook_body\<rparr> s) =
     fst (serve demo_app demo_env \<lparr>wi_request = no_request, wi_EscapedPath = ''/dashboard'', wi_body = demo_hook_body\<rparr> t)"
proof -
  have "session_of demo_app no_request = None" by (simp add: session_of_def get_cookie_def no_request_def)
  moreover have "rq_method no_request = ''GET''" by (simp add: no_request_def)
  ultimately show ?thesis
    using anonymous_learns_nothing [of demo_app "\<lparr>wi_request = no_request, wi_EscapedPath = ''/dashboard'', wi_body = demo_hook_body\<rparr>" demo_env]
      demo_dispatch(2) by (simp add: exact_def)
qed

section \<open>Probing the login page\<close>

text \<open>
  A \<open>HEAD\<close> request has the route of \<open>GET\<close>, but \<open>Login\<close> shows its form to \<open>GET\<close> only: the probe of the
  login page is taken for an attempt without a token and refused.
\<close>

lemma dispatch_head_login: "dispatch ''HEAD'' ''/login'' = Run (gets [Lit ''login''] Public LoginPage) []"
  by code_simp

lemma head_login_refused:
  assumes "rq_method (wi_request w) = ''HEAD''" and "wi_EscapedPath w = ''/login''"
    and "rq_form (wi_request w) \<noteq> None" and "get_cookie (wi_request w) ''login_csrf'' = None"
  shows "rp_status (fst (serve app env w s)) = 403"
proof -
  have "get_cookie ((wi_request w)\<lparr>rq_path := p, rq_path_values := vs\<rparr>) ''login_csrf'' = None" for p vs
    using assms(4) by (simp add: get_cookie_def)
  then have "\<not> validLoginCSRF (ap_auth app) ((wi_request w)\<lparr>rq_path := p, rq_path_values := vs\<rparr>)" for p vs
    by (simp add: validLoginCSRF_def)
  then show ?thesis
    using assms(1-3) dispatch_head_login
    by (simp add: serve_def mux_def exact_def protect_def on_limiter_def Login_def with_security_def http_Error_def)
qed

end
