(* ===== verification/Program.thy ===== *)
theory Program
  imports Access
begin

text \<open>
  The server as part of the whole program: every request is a sequence of steps of the transition
  system of theory System, so its invariants hold with the server in it, beside those of the rules
  and of the login limiter; and a webhook accepted at the public route is the one the pages show.
\<close>

section \<open>Requests are steps of the system\<close>

text \<open>What others do between two statements of a request; sequences do not go back.\<close>

definition quiet :: "(db \<Rightarrow> db) \<Rightarrow> bool" where
  "quiet g \<longleftrightarrow> others_ok g \<and> (\<forall>d. seq_rules d \<le> seq_rules (g d))"

lemma one_step:
  "sys_steps S S' \<Longrightarrow> sys_step S' (S'\<lparr>sys_db := d'\<rparr>) \<Longrightarrow> \<exists>S''. sys_steps S S'' \<and> sys_db S'' = d'"
  using more_step by fastforce

lemma handler_states:
  "snd (ReplayWebhook m r d) = d \<or> (\<exists>k. snd (ReplayWebhook m r d) = snd (m k d))"
  "snd (DeleteWebhook_handler m r d) = d \<or> (\<exists>k. snd (DeleteWebhook_handler m r d) = snd (m k d))"
  "snd (BulkReplayWebhooks b r d) = d \<or> (\<exists>ids. snd (BulkReplayWebhooks b r d) = snd (b ids d))"
  "snd (SetForwardingPaused_handler p paused r d) = d \<or> (\<exists>src. snd (SetForwardingPaused_handler p paused r d) = snd (p src paused d))"
  "snd (DeleteForwardingRule_handler m' r d) = d \<or> (\<exists>src. snd (DeleteForwardingRule_handler m' r d) = snd (m' src d))"
  "snd (SaveForwardingRule_handler p' sv r d) = d \<or>
    (\<exists>rule. parseForwardingRuleForm p' r None = Inr rule \<and> snd (SaveForwardingRule_handler p' sv r d) = snd (sv rule d))"
  "snd (UpdateForwardingRule p' get sv g r d) = d \<or>
    (\<exists>src e rule. get src d = Inr e \<and> parseForwardingRuleForm p' r (Some e) = Inr rule \<and>
       snd (UpdateForwardingRule p' get sv g r d) = snd (sv rule (g d)))"
  by (auto simp: ReplayWebhook_def DeleteWebhook_handler_def BulkReplayWebhooks_def SetForwardingPaused_handler_def
      DeleteForwardingRule_handler_def SaveForwardingRule_handler_def UpdateForwardingRule_def Let_def
      split: sum.splits prod.splits) (metis snd_conv)+

lemma parsed_ID: "parseForwardingRuleForm p r existing = Inr rule \<Longrightarrow>
    fr_ID rule = (case existing of None \<Rightarrow> 0 | Some e \<Rightarrow> fr_ID e)"
  by (erule parseForwardingRuleForm_Inr) (simp add: empty_rule_def split: option.split)

lemma hook_step:
  assumes "ReceiveWebhook n env r body d = (rp, d')"
  shows "d' = d \<or> (\<exists>h res. webhook_ok h \<and> wh_ID h = 0 \<and> wh_Status h = st_pending \<and> Save (hk_save env) h d = (res, d'))"
  using assms
proof (cases rule: Receive_cases)
  case (stored source payload)
  then have "\<exists>res. Save (hk_save env) (received_webhook source (rq_header r) payload (hk_now env)) d = (res, d')"
    by (auto simp: store_webhook_def split: sum.splits prod.splits)
  then show ?thesis using received_webhook_ok by blast
qed simp

lemma on_db_state [simp]: "sv_db (snd (on_db h r s)) = snd (h r (sv_db s))"
  by (simp add: on_db_def split: prod.split)

lemma op_steps:
  assumes "out = sys_db S \<or> (\<exists>x. out = snd (f x (sys_db S)))"
    and "\<And>x res d'. f x (sys_db S) = (res, d') \<Longrightarrow> sys_step S (S\<lparr>sys_db := d'\<rparr>)"
  shows "\<exists>S'. sys_steps S S' \<and> sys_db S' = out"
  using assms(1)
proof (elim disjE exE)
  fix x assume "out = snd (f x (sys_db S))"
  then show ?thesis using one_step [OF no_step assms(2) [of x "fst (f x (sys_db S))" out]] by simp
qed (use no_step in blast)

text \<open>Saving a rule of a form: the key it is given is none that a later row takes.\<close>

lemma rule_keys:
  "db_inv d \<Longrightarrow> 0 \<le> seq_rules d \<and> (\<forall>q \<in> set (t_rules d). 0 < fr_ID q \<and> fr_ID q \<le> seq_rules d)"
  by (auto simp: db_inv_def rules_inv_def keys_ok_def)

lemma save_form_steps:
  assumes inv: "db_inv (sys_db S)"
  shows "\<exists>S'. sys_steps S S' \<and> sys_db S' = snd (SaveForwardingRule_handler p (SaveForwardingRule f) r (sys_db S))"
  using handler_states(6) [of p "SaveForwardingRule f" r "sys_db S"]
proof (elim disjE exE conjE)
  fix rule assume parsed: "parseForwardingRuleForm p r None = Inr rule"
    and st: "snd (SaveForwardingRule_handler p (SaveForwardingRule f) r (sys_db S)) = snd (SaveForwardingRule f rule (sys_db S))"
  have "rule_key_ok rule (sys_db S)" using parsed_ID [OF parsed] rule_keys [OF inv] by (simp add: rule_key_ok_def)
  then show ?thesis using one_step [OF no_step save_rule [OF _ prod.collapse [symmetric], of rule S f]] st by simp
qed (use no_step in metis)

lemma update_form_steps:
  assumes inv: "db_inv (sys_db S)" and others: "quiet others"
  shows "\<exists>S'. sys_steps S S' \<and>
    sys_db S' = snd (UpdateForwardingRule p (GetForwardingRule b) (SaveForwardingRule f) others r (sys_db S))"
  using handler_states(7) [of p "GetForwardingRule b" "SaveForwardingRule f" others r "sys_db S"]
proof (elim disjE exE conjE)
  fix src old rule assume g: "GetForwardingRule b src (sys_db S) = Inr old" and parsed: "parseForwardingRuleForm p r (Some old) = Inr rule"
    and st: "snd (UpdateForwardingRule p (GetForwardingRule b) (SaveForwardingRule f) others r (sys_db S)) =
      snd (SaveForwardingRule f rule (others (sys_db S)))"
  have "old \<in> set (t_rules (sys_db S))" by (rule db_rules.get_stored [OF g])
  then have key: "rule_key_ok rule (others (sys_db S))"
    using rule_keys [OF inv] parsed_ID [OF parsed] others by (auto simp: rule_key_ok_def quiet_def intro: order_trans)
  obtain S1 where S1: "sys_steps S S1" "sys_db S1 = others (sys_db S)"
    using others unfolding quiet_def others_ok_def by metis
  show ?thesis using one_step [OF S1(1) save_rule [OF _ prod.collapse [symmetric], of rule S1 f]] key S1(2) st by simp
qed (use no_step in metis)

lemma endpoint_steps:
  assumes "db_inv (sys_db S)" and "sys_db S = sv_db s" and "quiet (su_others env)"
  shows "\<exists>S'. sys_steps S S' \<and> sys_db S' = sv_db (snd (endpoint_handler app env body e r s))"
proof -
  let ?d = "sv_db s" and ?f = "su_faults env"
  let ?out = "sv_db (snd (endpoint_handler app env body e r s))"
  have stay: ?thesis if "?out = ?d" using that no_step assms(2) by metis
  show ?thesis
  proof (cases "changes_db e")
    case False
    then show ?thesis by (intro stay endpoint_keeps_db)
  next
    case True
    then consider "e = ReceiveHook" | "e = Replay" | "e = BulkReplay" | "e = Delete" | p where "e = Pause p"
      | "e = SaveRule" | "e = UpdateRule" | "e = DeleteRule" by (auto simp: changes_db_def)
    then show ?thesis
    proof cases
      case 1
      then have out: "?out = snd (ReceiveWebhook (ap_maxBodyBytes app) (su_hook env) r body ?d)" by simp
      show ?thesis
        using hook_step [OF prod.collapse [symmetric], of "ap_maxBodyBytes app" "su_hook env" r body ?d]
          out stay one_step [OF no_step receive] assms(2) by metis
    next
      case 2
      show ?thesis by (rule op_steps [where f = "ResetWebhookDeliveryState ?f", OF _ reset]) (simp_all add: 2 assms(2) handler_states)
    next
      case 3
      show ?thesis by (rule op_steps [where f = "BulkReplayDeadLetters ?f", OF _ bulk]) (simp_all add: 3 assms(2) handler_states)
    next
      case 4
      show ?thesis by (rule op_steps [where f = "DeleteWebhook ?f", OF _ delete]) (simp_all add: 4 assms(2) handler_states)
    next
      case (5 p)
      show ?thesis
        by (rule op_steps [where f = "\<lambda>src. SetForwardingPaused ?f src p", OF _ pause]) (simp_all add: 5 assms(2) handler_states)
    next
      case 6
      show ?thesis using save_form_steps [OF assms(1)] by (simp add: 6 assms(2))
    next
      case 7
      show ?thesis using update_form_steps [OF assms(1,3)] by (simp add: 7 assms(2))
    next
      case 8
      show ?thesis by (rule op_steps [where f = "DeleteForwardingRule ?f", OF _ delete_rule]) (simp_all add: 8 assms(2) handler_states)
    qed
  qed
qed

lemma serve_steps:
  assumes "db_inv (sys_db S)" and "sys_db S = sv_db s" and "quiet (su_others env)"
  shows "\<exists>S'. sys_steps S S' \<and> sys_db S' = sv_db (snd (serve app env w s))"
proof (cases rule: serve_cases [of app env w s])
  case idle
  then show ?thesis using no_step assms(2) by metis
next
  case (run rt vs r)
  then show ?thesis using endpoint_steps [OF assms] by simp
qed

text \<open>
  C7: every request is a sequence of steps of the system, whatever it contains, whoever sends it, and
  whatever the database's faults; so what holds of the system holds with the server in it.
\<close>

theorem requests_refine_system:
  assumes "sys_reachable S" and "sys_db S = sv_db s" and "quiet (su_others env)"
  shows "\<exists>S'. sys_steps S S' \<and> sys_reachable S' \<and> sys_db S' = sv_db (snd (serve app env w s))"
proof -
  obtain S' where S': "sys_steps S S'" "sys_db S' = sv_db (snd (serve app env w s))"
    using serve_steps [OF _ assms(2,3)] reachable_inv [OF assms(1)] by blast
  then have "sys_reachable S'" using assms(1) sys_steps_trans by (auto simp: sys_reachable_def)
  then show ?thesis using S' by blast
qed

section \<open>The running program\<close>

text \<open>
  The server beside the workers: requests, and steps of the rest of the program, which touches no
  rule. \<open>meets\<close> says what the surroundings of a request may do.
\<close>

definition meets :: "app \<Rightarrow> surroundings \<Rightarrow> bool" where
  "meets app env \<longleftrightarrow> quiet (su_others env) \<and>
     (\<forall>d. rules_ok (ap_ParseRequestURI app) d \<longrightarrow> rules_ok (ap_ParseRequestURI app) (su_others env d)) \<and>
     (\<forall>l rs. lim_reachable (l, rs) \<longrightarrow> (\<exists>rs'. set rs \<subseteq> set rs' \<and> lim_reachable (lg_others (su_login env) l, rs')))"

inductive running :: "app \<Rightarrow> sys \<Rightarrow> login_limiter \<Rightarrow> bool" for app where
  started: "sys_reachable S \<Longrightarrow> rules_ok (ap_ParseRequestURI app) (sys_db S) \<Longrightarrow> running app S newLoginLimiter"
| other: "running app S l \<Longrightarrow> sys_step S S' \<Longrightarrow> t_rules (sys_db S') = t_rules (sys_db S) \<Longrightarrow> running app S' l"
| request: "running app S l \<Longrightarrow> meets app env \<Longrightarrow> serve app env w \<lparr>sv_db = sys_db S, sv_limiter = l\<rparr> = (rp, s') \<Longrightarrow>
    sys_steps S S' \<Longrightarrow> sys_db S' = sv_db s' \<Longrightarrow> running app S' (sv_limiter s')"

lemma rules_frames:
  "t_rules (snd (Save f h d)) = t_rules d" "t_rules (snd (ResetWebhookDeliveryState f k d)) = t_rules d"
  "t_rules (snd (DeleteWebhook f k d)) = t_rules d" "t_rules (snd (BulkReplayDeadLetters f ids d)) = t_rules d"
  by (auto simp: Save_def ResetWebhookDeliveryState_def DeleteWebhook_def BulkReplayDeadLetters_def bulk_body_def
      insert_webhook_def insert_row_def transaction_def exec_def Let_def
      split: sum.splits prod.splits commit_outcome.splits if_splits)

lemma serve_rules_ok:
  assumes "rules_ok (ap_ParseRequestURI app) (sv_db s)" and "meets app env"
  shows "rules_ok (ap_ParseRequestURI app) (sv_db (snd (serve app env w s)))"
proof (cases rule: serve_cases [of app env w s])
  case (run rt vs r)
  let ?p = "ap_ParseRequestURI app" and ?d = "sv_db s" and ?f = "su_faults env" and ?e = "rt_Endpoint rt"
  have same: "rules_ok ?p d'" if "t_rules d' = t_rules ?d" for d' using that assms(1) by (simp add: rules_ok_def)
  note forms = rules_ok_handlers [OF assms(1), of "su_others env" ?f r "su_read_fails env 0"]
  have others: "\<And>d. rules_ok ?p d \<Longrightarrow> rules_ok ?p (su_others env d)" using assms(2) by (simp add: meets_def)
  have "rules_ok ?p (sv_db (snd (endpoint_handler app env (wi_body w) ?e r s)))"
  proof (cases "changes_db ?e")
    case False
    then show ?thesis by (intro same) (simp add: endpoint_keeps_db)
  next
    case True
    then consider "?e = ReceiveHook" | "?e \<in> {Replay, BulkReplay, Delete}" | p where "?e = Pause p"
      | "?e \<in> {SaveRule, UpdateRule, DeleteRule}" by (auto simp: changes_db_def)
    then show ?thesis
    proof cases
      case 1
      have "t_rules (snd (ReceiveWebhook n henv r body ?d)) = t_rules ?d" for n henv body
        using hook_step [OF prod.collapse [symmetric], of n henv r body ?d] rules_frames(1) by (metis snd_conv)
      then show ?thesis by (intro same) (simp add: 1)
    next
      case 2
      then show ?thesis
        using handler_states(1) [of "ResetWebhookDeliveryState ?f" r ?d] handler_states(2) [of "DeleteWebhook ?f" r ?d]
          handler_states(3) [of "BulkReplayDeadLetters ?f" r ?d]
        by (intro same) (auto simp: rules_frames)
    next
      case (3 p)
      then show ?thesis using forms others by simp
    next
      case 4
      then show ?thesis using forms others by auto
    qed
  qed
  then show ?thesis using run(5) by simp
qed (use assms in simp)

lemma serve_limiter:
  assumes "lim_reachable (sv_limiter s, rs)" and "meets app env"
  shows "\<exists>rs'. lim_reachable (sv_limiter (snd (serve app env w s)), rs')"
proof (cases rule: serve_cases [of app env w s])
  case (run rt vs r)
  show ?thesis
  proof (cases "rt_Endpoint rt = LoginPage")
    case True
    obtain rp l' where login: "Login (ap_matches app) (ap_ParseAddr app) (ap_login_page app) (ap_auth app) (su_login env) (sv_db s) r
        (sv_limiter s) = (rp, l')" by fastforce
    then have "sv_limiter (snd (serve app env w s)) = l'" using run(5) True by (simp add: on_limiter_def)
    then show ?thesis using login_runs_limiter [OF assms(1) login] assms(2) by (auto simp: meets_def)
  next
    case False
    then show ?thesis using endpoint_keeps_limiter [of "rt_Endpoint rt"] run(5) assms(1) by auto
  qed
qed (use assms in auto)

lemma running_inv:
  "running app S l \<Longrightarrow> sys_reachable S \<and> rules_ok (ap_ParseRequestURI app) (sys_db S) \<and> (\<exists>rs. lim_reachable (l, rs))"
proof (induction rule: running.induct)
  case (started S)
  then show ?case using lim_init by blast
next
  case (other S l S')
  then show ?case using more_step [of _ S S'] by (auto simp: sys_reachable_def rules_ok_def)
next
  case (request S l env w rp s' S')
  let ?s = "\<lparr>sv_db = sys_db S, sv_limiter = l\<rparr>"
  obtain rs where rs: "lim_reachable (l, rs)" using request.IH by blast
  have "rules_ok (ap_ParseRequestURI app) (sv_db (snd (serve app env w ?s)))"
    by (rule serve_rules_ok [OF _ request.hyps(2)]) (simp add: request.IH)
  moreover have "\<exists>rs'. lim_reachable (sv_limiter (snd (serve app env w ?s)), rs')"
    by (rule serve_limiter [where rs = rs, OF _ request.hyps(2)]) (simp add: rs)
  ultimately show ?case
    using request.hyps(3-5) request.IH sys_steps_trans by (auto simp: sys_reachable_def)
qed


section \<open>From one route to another\<close>

lemma FormatInt_plain: "0 \<le> k \<Longrightarrow> plain_segment (FormatInt k)"
proof -
  assume k: "0 \<le> k"
  have "is_digit c" if "c \<in> set (FormatInt k)" for c
    using that k by (auto simp: FormatInt_def dest: digits_of_hd)
  moreover have "\<not> is_digit (CHR ''/'')" "\<not> is_digit (CHR ''%'')" "\<not> is_digit (CHR ''.'')" by (simp_all add: is_digit_def)
  ultimately show ?thesis using FormatInt_nonempty [of k] by (auto simp: plain_segment_def)
qed

lemma join_path_simps [simp]: "join_path [] = []" "join_path (s # segs) = CHR ''/'' # s @ join_path segs"
  by (simp_all add: join_path_def)

lemma dispatch_inspect:
  assumes "0 \<le> k"
  shows "dispatch ''GET'' (''/webhooks/'' @ FormatInt k) =
      Run (gets [Lit ''webhooks'', Wild ''id''] Protected InspectPage) [(''id'', FormatInt k)]"
    "dispatch ''GET'' (''/webhooks/'' @ FormatInt k @ ''/payload'') =
      Run (gets [Lit ''webhooks'', Wild ''id'', Lit ''payload''] Protected PayloadDownload) [(''id'', FormatInt k)]"
proof -
  note plain = FormatInt_plain [OF assms]
  then have id: "FormatInt k \<noteq> ''/''" by (auto simp: plain_segment_def)
  have w: "plain_segment ''webhooks''" "plain_segment ''payload''" by (simp_all add: plain_segment_def)
  have "dispatch ''GET'' (join_path [''webhooks'', FormatInt k]) =
      Run (gets [Lit ''webhooks'', Wild ''id''] Protected InspectPage) [(''id'', FormatInt k)]"
    by (rule dispatch_plain) (simp_all add: plain w id routes_def serves_def route_match_def exact_def)
  then show "dispatch ''GET'' (''/webhooks/'' @ FormatInt k) =
      Run (gets [Lit ''webhooks'', Wild ''id''] Protected InspectPage) [(''id'', FormatInt k)]" by simp
  have "dispatch ''GET'' (join_path [''webhooks'', FormatInt k, ''payload'']) =
      Run (gets [Lit ''webhooks'', Wild ''id'', Lit ''payload''] Protected PayloadDownload) [(''id'', FormatInt k)]"
    by (rule dispatch_plain) (simp_all add: plain w id routes_def serves_def route_match_def exact_def)
  then show "dispatch ''GET'' (''/webhooks/'' @ FormatInt k @ ''/payload'') =
      Run (gets [Lit ''webhooks'', Wild ''id'', Lit ''payload''] Protected PayloadDownload) [(''id'', FormatInt k)]" by simp
qed

lemma row_is_served:
  assumes row: "find_webhook k (sv_db t) = Some row" "wh_Headers row = marshal_header h" "wh_ID row = k"
    and k: "0 < k" "in_int64 k" and h: "header_utf8 h" "distinct (map fst h)"
    and q: "session_of app q = Some session" "rq_method q = ''GET''" and reads: "\<not> su_read_fails env 0" "\<not> su_read_fails env 1"
  shows "\<exists>data. fst (serve app env \<lparr>wi_request = q, wi_EscapedPath = ''/webhooks/'' @ FormatInt k, wi_body = b\<rparr> t) =
      \<lparr>rp_status = 200, rp_header = inspect_headers @ security_headers, rp_cookies = [],
       rp_body = ap_render app (InspectTemplate ''inspect'' ''base'' data)\<rparr> \<and>
      in_Headers data = map_of h \<and> \<not> in_HeadersError data \<and>
      in_Payload data = inspectBody ''payload'' ''Payload'' (wh_Payload row)"
    and "rp_body (fst (serve app env \<lparr>wi_request = q, wi_EscapedPath = ''/webhooks/'' @ FormatInt k @ ''/payload'', wi_body = b\<rparr> t)) =
      wh_Payload row"
proof -
  have found: "findInspectWebhook (\<lambda>k. FindByID (su_read_fails env 0) k (sv_db t)) r = Inr row"
    if "rq_path_values r = [(''id'', FormatInt k)]" for r
    using that k row(1) reads(1) by (simp add: findInspectWebhook_def PathValue_def ParseInt_FormatInt FindByID_def)
  obtain as where as: "DeliveryAttemptsByWebhook (su_read_fails env 1) (wh_ID row) (su_others env (sv_db t)) = Inr as"
    using reads(2) by (simp add: DeliveryAttemptsByWebhook_def exec_def)
  define p where "p = ''/webhooks/'' @ FormatInt k"
  define pp where "pp = ''/webhooks/'' @ FormatInt k @ ''/payload''"
  note to = dispatch_inspect [OF order_less_imp_le [OF k(1)], folded p_def pp_def]
  let ?q = "\<lambda>p. q\<lparr>rq_path := decoded p, rq_path_values := [(''id'', FormatInt k)], rq_csrf := sd_CSRFToken session\<rparr>"
  have id: "rq_path_values (?q p) = [(''id'', FormatInt k)]" for p by simp
  obtain data where data: "InspectWebhook (\<lambda>k. FindByID (su_read_fails env 0) k (sv_db t))
        (\<lambda>k. DeliveryAttemptsByWebhook (su_read_fails env 1) k (su_others env (sv_db t))) (?q p) =
      Rendered \<lparr>ip_Templates = ''inspect'', ip_Name = ''base'', ip_Header = inspect_headers, ip_Data = data\<rparr>"
    "in_Headers data = map_of h" "\<not> in_HeadersError data" "in_Payload data = inspectBody ''payload'' ''Payload'' (wh_Payload row)"
    by (rule inspect_stored [where find_by_id = "\<lambda>k. FindByID (su_read_fails env 0) k (sv_db t)" and r = "?q p" and
        attempts_of = "\<lambda>k. DeliveryAttemptsByWebhook (su_read_fails env 1) k (su_others env (sv_db t))",
        OF found [OF id] as row(2) h])
  have "fst (mux app env b p (q\<lparr>rq_path := decoded p\<rparr>) t) =
      \<lparr>rp_status = 200, rp_header = inspect_headers, rp_cookies = [], rp_body = ap_render app (InspectTemplate ''inspect'' ''base'' data)\<rparr>"
    using data(1) by (simp add: mux_def q to(1) exact_def protect_def RequireAuth_session reads_def inspect_sent_def sent_def)
  then have "fst (serve app env \<lparr>wi_request = q, wi_EscapedPath = p, wi_body = b\<rparr> t) =
      \<lparr>rp_status = 200, rp_header = inspect_headers @ security_headers, rp_cookies = [],
       rp_body = ap_render app (InspectTemplate ''inspect'' ''base'' data)\<rparr>"
    by (simp add: serve_def with_security_def security_headers_def inspect_headers_def)
  then show "\<exists>data. fst (serve app env \<lparr>wi_request = q, wi_EscapedPath = ''/webhooks/'' @ FormatInt k, wi_body = b\<rparr> t) =
      \<lparr>rp_status = 200, rp_header = inspect_headers @ security_headers, rp_cookies = [],
       rp_body = ap_render app (InspectTemplate ''inspect'' ''base'' data)\<rparr> \<and>
      in_Headers data = map_of h \<and> \<not> in_HeadersError data \<and>
      in_Payload data = inspectBody ''payload'' ''Payload'' (wh_Payload row)" using data(2-4) unfolding p_def by blast
  have "rp_body (fst (mux app env b pp (q\<lparr>rq_path := decoded pp\<rparr>) t)) = wh_Payload row"
    using download_stored [OF found [OF id [of pp]]]
    by (simp add: mux_def q to(2) exact_def protect_def RequireAuth_session reads_def)
  then show "rp_body (fst (serve app env \<lparr>wi_request = q, wi_EscapedPath = ''/webhooks/'' @ FormatInt k @ ''/payload'', wi_body = b\<rparr> t)) = wh_Payload row"
    unfolding pp_def [symmetric] by (simp add: serve_def with_security_def)
qed

text \<open>
  C8: what was posted at one route is served at the others. After a 202, a session sees the new
  webhook under the next key: its page shows the headers of the request, name for name and value for
  value, and its body, and the download is the body, byte for byte.
\<close>

theorem stored_webhook_is_served:
  assumes "db_inv (sv_db s)" and "k = seq_webhooks (sv_db s) + 1" "k \<le> max_int64"
    and "dispatch (rq_method (wi_request w)) (wi_EscapedPath w) = Run rt vs" "rt_Endpoint rt = ReceiveHook"
    and "rp_status (fst (serve app env w s)) = 202"
    and "header_utf8 (rq_header (wi_request w))" "distinct (map fst (rq_header (wi_request w)))"
    and "session_of app q = Some session" "rq_method q = ''GET''" "\<not> su_read_fails env' 0" "\<not> su_read_fails env' 1"
  shows "(\<exists>data. fst (serve app env' \<lparr>wi_request = q, wi_EscapedPath = ''/webhooks/'' @ FormatInt k, wi_body = b\<rparr>
          (snd (serve app env w s))) =
        \<lparr>rp_status = 200, rp_header = inspect_headers @ security_headers, rp_cookies = [],
         rp_body = ap_render app (InspectTemplate ''inspect'' ''base'' data)\<rparr> \<and>
       in_Headers data = map_of (rq_header (wi_request w)) \<and> \<not> in_HeadersError data \<and>
       in_Payload data = inspectBody ''payload'' ''Payload'' (hb_bytes (wi_body w))) \<and>
    rp_body (fst (serve app env' \<lparr>wi_request = q, wi_EscapedPath = ''/webhooks/'' @ FormatInt k @ ''/payload'', wi_body = b\<rparr>
      (snd (serve app env w s)))) = hb_bytes (wi_body w)"
proof -
  let ?r = "(wi_request w)\<lparr>rq_path := decoded (wi_EscapedPath w), rq_path_values := vs\<rparr>"
  have k: "0 < k" "in_int64 k"
    using assms(1-3) by (auto simp: db_inv_def delivery_inv_def keys_ok_def int64_defs)
  have public: "rt_Access rt = Public"
    using changing_routes(1) dispatch_Run [OF assms(4)] assms(5) by (auto simp: list_all_iff changes_db_def routes_def exact_def)
  obtain rp d' where out: "ReceiveWebhook (ap_maxBodyBytes app) (su_hook env) ?r (wi_body w) (sv_db s) = (rp, d')" by fastforce
  have d': "sv_db (snd (serve app env w s)) = d'" and "rp_status rp = 202"
    using out assms(4-6) public by (simp_all add: serve_state serve_status mux_def protect_def on_db_def)
  then obtain row where row: "find_webhook k (sv_db (snd (serve app env w s))) = Some row"
    "wh_Headers row = marshal_header (rq_header (wi_request w))" "wh_ID row = k" "wh_Payload row = hb_bytes (wi_body w)"
    using received_row [OF assms(1) out] assms(2) by auto
  show ?thesis using row_is_served [OF row(1-3) k assms(7-12)] row(4) by simp
qed

section \<open>Witnesses\<close>

lemma demo_meets: "meets demo_app demo_env"
  by (auto simp: meets_def quiet_def others_ok_id demo_env_def demo_login_env_def)

lemma demo_posted: "rp_status (fst (serve demo_app demo_env demo_post demo_server)) = 202"
proof -
  have path: "decoded ''/hook/stripe'' = ''/hook/stripe''" by code_simp
  have "read_body 100 demo_hook_body = Payload ''{}''" by (simp add: read_body_def demo_hook_body_def)
  moreover have "GetForwardingRule False ''stripe'' empty_db = Inl ErrNotFound"
    by (simp add: GetForwardingRule_def empty_db_def)
  moreover have "rq_method demo_plain_hook = ''POST''" by (simp add: demo_plain_hook_def demo_hook_def)
  ultimately show ?thesis
    using demo_hook_source demo_dispatch(1)
    by (simp add: serve_status mux_def demo_post_def path exact_def protect_def on_db_def demo_app_def demo_env_def demo_server_def
        ReceiveWebhook_def demo_hook_env_def Let_def store_webhook_def Save_def transaction_def
        insert_webhook_def insert_row_def received_webhook_def empty_db_def empty_webhook_def demo_hook_def split: prod.split)
qed

theorem stored_webhook_is_served_witness:
  "\<exists>data. rp_body (fst (serve demo_app demo_env \<lparr>wi_request = demo_visit, wi_EscapedPath = ''/webhooks/'' @ FormatInt 1, wi_body = demo_hook_body\<rparr>
       (snd (serve demo_app demo_env demo_post demo_server)))) = ap_render demo_app (InspectTemplate ''inspect'' ''base'' data) \<and>
     in_Headers data ''Content-Type'' = Some [''text/plain'', ''a'']"
proof -
  have h: "rq_header (wi_request demo_post) = demo_header" "rq_method (wi_request demo_post) = ''POST''"
    by (simp_all add: demo_post_def demo_plain_hook_def demo_hook_def)
  have db: "sv_db demo_server = empty_db" by (simp add: demo_server_def)
  have "db_inv (sv_db demo_server)" by (simp add: db)
  moreover have "1 = seq_webhooks (sv_db demo_server) + 1" "(1 :: int) \<le> max_int64"
    unfolding db by (simp_all add: empty_db_def int64_defs)
  moreover have "dispatch (rq_method (wi_request demo_post)) (wi_EscapedPath demo_post) =
      Run (posts [Lit ''hook'', Wild ''source''] Public ReceiveHook) [(''source'', ''stripe'')]"
    unfolding h(2) using demo_dispatch(1) by (simp add: demo_post_def)
  moreover have "rq_method demo_visit = ''GET''" "\<not> su_read_fails demo_env 0" "\<not> su_read_fails demo_env 1"
    by (simp_all add: demo_visit_def no_request_def demo_env_def)
  ultimately show ?thesis
    using stored_webhook_is_served [of demo_server 1 demo_post _ _ demo_app demo_env demo_visit _ demo_env demo_hook_body]
      demo_posted demo_session demo_header_utf8 demo_header_distinct demo_header_lookup unfolding h(1)
    by (fastforce simp: exact_def)
qed

theorem requests_refine_system_witness:
  "\<exists>S'. sys_reachable S' \<and> sys_db S' = sv_db (snd (serve demo_app demo_env demo_post demo_server))"
proof -
  have "sys_reachable (init_sys 0)" unfolding sys_reachable_def using no_step by blast
  moreover have "sys_db (init_sys 0) = sv_db demo_server" by (simp add: init_sys_def demo_server_def)
  moreover have "quiet (su_others demo_env)" using demo_meets by (simp add: meets_def)
  ultimately show ?thesis using requests_refine_system by blast
qed


end
