(* ===== verification/Config.thy ===== *)
theory Config
  imports Forwarder Auth Connection
begin

text \<open>
  The configuration of \<open>cmd/webhookhub/main.go\<close>: \<open>loadConfig\<close> and the helpers that read the
  environment, a function from names to values that is empty on an unset name. Of the standard
  library, \<open>time.ParseDuration\<close> and the address part of \<open>mail.ParseAddress\<close> are arguments. The
  health check of the command line is here too, with the reply to its request as an argument.

  The properties say what an accepted configuration guarantees to the parts it configures.
\<close>

definition bind_sum :: "'e + 'a \<Rightarrow> ('a \<Rightarrow> 'e + 'b) \<Rightarrow> 'e + 'b" where
  "bind_sum m f = (case m of Inl e \<Rightarrow> Inl e | Inr a \<Rightarrow> f a)"

lemma bind_sum_Inr [simp]: "bind_sum m f = Inr b \<longleftrightarrow> (\<exists>a. m = Inr a \<and> f a = Inr b)"
  by (auto simp: bind_sum_def split: sum.splits)

text \<open>\<open>return config, err\<close> when a check fails, and on to the next step otherwise.\<close>

definition ensure :: "bool \<Rightarrow> string \<Rightarrow> (go_error + 'b) \<Rightarrow> go_error + 'b" where
  "ensure ok message rest = (if ok then rest else Inl (ErrText message))"

lemma ensure_Inr [simp]: "ensure ok m rest = Inr b \<longleftrightarrow> ok \<and> rest = Inr b"
  by (simp add: ensure_def)

section \<open>Reading the environment\<close>

definition requiredEnv :: "(string \<Rightarrow> string) \<Rightarrow> string \<Rightarrow> go_error + string" where
  "requiredEnv getenv name =
     (let value = TrimSpace (getenv name)
      in if value = [] then Inl (ErrText (name @ '' is required'')) else Inr value)"

definition envOrDefault :: "(string \<Rightarrow> string) \<Rightarrow> string \<Rightarrow> string \<Rightarrow> string" where
  "envOrDefault getenv name fallback =
     (let value = TrimSpace (getenv name) in if value = [] then fallback else value)"

text \<open>\<open>strconv.ParseBool\<close>.\<close>

definition ParseBool :: "string \<Rightarrow> bool option" where
  "ParseBool s =
     (if s \<in> {''1'', ''t'', ''T'', ''true'', ''TRUE'', ''True''} then Some True
      else if s \<in> {''0'', ''f'', ''F'', ''false'', ''FALSE'', ''False''} then Some False
      else None)"

definition boolEnv :: "(string \<Rightarrow> string) \<Rightarrow> string \<Rightarrow> bool \<Rightarrow> go_error + bool" where
  "boolEnv getenv name fallback =
     (let value = TrimSpace (getenv name)
      in if value = [] then Inr fallback
         else (case ParseBool value of
                 None \<Rightarrow> Inl (ErrText (name @ '' must be true or false''))
               | Some b \<Rightarrow> Inr b))"

definition positiveIntEnv :: "(string \<Rightarrow> string) \<Rightarrow> string \<Rightarrow> int \<Rightarrow> go_error + int" where
  "positiveIntEnv getenv name fallback =
     (let value = TrimSpace (getenv name)
      in if value = [] then Inr fallback
         else (case Atoi value of
                 None \<Rightarrow> Inl (ErrText (name @ '' must be a positive integer''))
               | Some v \<Rightarrow> if v \<le> 0 then Inl (ErrText (name @ '' must be a positive integer'')) else Inr v))"

definition positiveInt64Env :: "(string \<Rightarrow> string) \<Rightarrow> string \<Rightarrow> int \<Rightarrow> go_error + int" where
  "positiveInt64Env getenv name fallback =
     (let value = TrimSpace (getenv name)
      in if value = [] then Inr fallback
         else (case ParseInt value of
                 None \<Rightarrow> Inl (ErrText (name @ '' must be a positive integer''))
               | Some v \<Rightarrow> if v \<le> 0 then Inl (ErrText (name @ '' must be a positive integer'')) else Inr v))"

definition positiveDurationEnv ::
    "(string \<Rightarrow> duration option) \<Rightarrow> (string \<Rightarrow> string) \<Rightarrow> string \<Rightarrow> duration \<Rightarrow> go_error + duration" where
  "positiveDurationEnv ParseDuration getenv name fallback =
     (let value = TrimSpace (getenv name)
      in if value = [] then Inr fallback
         else (case ParseDuration value of
                 None \<Rightarrow> Inl (ErrText (name @ '' must be a positive duration''))
               | Some v \<Rightarrow> if v \<le> 0 then Inl (ErrText (name @ '' must be a positive duration'')) else Inr v))"

section \<open>The configuration\<close>

record app_config =
  cf_Database :: database_config
  cf_AdminEmail :: string
  cf_AdminPassword :: string
  cf_SessionKey :: string
  cf_CookieSecure :: bool
  cf_TrustProxyHeaders :: bool
  cf_Port :: int
  cf_MaxBodyBytes :: int
  cf_DeliveryWorkers :: int
  cf_DeliveryPoll :: duration
  cf_DeliveryLease :: duration
  cf_DeliveryTimeout :: duration
  cf_ShutdownTimeout :: duration
  cf_RetentionEnabled :: bool
  cf_RetentionDays :: int
  cf_RetentionInterval :: duration
  cf_RetentionBatchSize :: int

definition loadDatabaseConfig :: "(string \<Rightarrow> string) \<Rightarrow> go_error + database_config" where
  "loadDatabaseConfig getenv =
     bind_sum (requiredEnv getenv ''POSTGRES_HOST'') (\<lambda>host.
     bind_sum (requiredEnv getenv ''POSTGRES_PORT'') (\<lambda>port.
     bind_sum (requiredEnv getenv ''POSTGRES_USER'') (\<lambda>user.
     bind_sum (requiredEnv getenv ''POSTGRES_PASSWORD'') (\<lambda>password.
     bind_sum (requiredEnv getenv ''POSTGRES_DB'') (\<lambda>name.
     Inr \<lparr>dc_Host = host, dc_Port = port, dc_User = user, dc_Password = password, dc_Name = name,
          dc_SSLMode = envOrDefault getenv ''POSTGRES_SSLMODE'' ''disable''\<rparr>)))))"

text \<open>The port, which the health check of the command line reads in the same way.\<close>

definition portEnv :: "(string \<Rightarrow> string) \<Rightarrow> go_error + int" where
  "portEnv getenv =
     (case positiveIntEnv getenv ''PORT'' 8080 of
        Inl _ \<Rightarrow> Inl (ErrText ''PORT must be an integer from 1 to 65535'')
      | Inr port \<Rightarrow>
          if port > 65535 then Inl (ErrText ''PORT must be an integer from 1 to 65535'') else Inr port)"

definition loadConfig ::
    "(string \<Rightarrow> string option) \<Rightarrow> (string \<Rightarrow> duration option) \<Rightarrow> (string \<Rightarrow> string) \<Rightarrow> go_error + app_config" where
  "loadConfig ParseAddress ParseDuration getenv =
     bind_sum (loadDatabaseConfig getenv) (\<lambda>database.
     bind_sum (requiredEnv getenv ''ADMIN_EMAIL'') (\<lambda>email.
     ensure (ParseAddress email = Some email) ''ADMIN_EMAIL must be a valid email address'' (
     bind_sum (requiredEnv getenv ''ADMIN_PASSWORD'') (\<lambda>password.
     ensure (\<not> length password < 12) ''ADMIN_PASSWORD must contain at least 12 characters'' (
     bind_sum (requiredEnv getenv ''SESSION_KEY'') (\<lambda>key.
     ensure (\<not> length key < 32) ''SESSION_KEY must contain at least 32 characters'' (
     bind_sum (boolEnv getenv ''COOKIE_SECURE'' False) (\<lambda>secure.
     bind_sum (boolEnv getenv ''TRUST_PROXY_HEADERS'' False) (\<lambda>trust.
     bind_sum (portEnv getenv) (\<lambda>port.
     bind_sum (positiveInt64Env getenv ''MAX_BODY_BYTES'' 1048576) (\<lambda>maxBody.
     bind_sum (positiveIntEnv getenv ''DELIVERY_WORKERS'' 4) (\<lambda>workers.
     bind_sum (positiveDurationEnv ParseDuration getenv ''DELIVERY_POLL_INTERVAL'' second) (\<lambda>poll.
     bind_sum (positiveDurationEnv ParseDuration getenv ''DELIVERY_LEASE_DURATION'' (30 * second)) (\<lambda>lease.
     ensure (\<not> lease < 10 * second) ''DELIVERY_LEASE_DURATION must be at least 10s'' (
     bind_sum (positiveDurationEnv ParseDuration getenv ''DELIVERY_TIMEOUT'' DefaultDeliveryTimeout) (\<lambda>timeout.
     ensure (\<not> timeout > lease - DeliveryFinalizationReserve)
       ''DELIVERY_TIMEOUT must leave at least 5s before DELIVERY_LEASE_DURATION'' (
     bind_sum (positiveDurationEnv ParseDuration getenv ''SHUTDOWN_TIMEOUT'' (10 * second)) (\<lambda>shutdown.
     bind_sum (boolEnv getenv ''RETENTION_ENABLED'' False) (\<lambda>retention.
     bind_sum (positiveIntEnv getenv ''RETENTION_DAYS'' 30) (\<lambda>days.
     bind_sum (positiveDurationEnv ParseDuration getenv ''RETENTION_INTERVAL'' (24 * hour)) (\<lambda>interval.
     bind_sum (positiveIntEnv getenv ''RETENTION_BATCH_SIZE'' 300) (\<lambda>batch.
     Inr \<lparr>cf_Database = database, cf_AdminEmail = email, cf_AdminPassword = password, cf_SessionKey = key,
          cf_CookieSecure = secure, cf_TrustProxyHeaders = trust, cf_Port = port, cf_MaxBodyBytes = maxBody,
          cf_DeliveryWorkers = workers, cf_DeliveryPoll = poll, cf_DeliveryLease = lease,
          cf_DeliveryTimeout = timeout, cf_ShutdownTimeout = shutdown, cf_RetentionEnabled = retention,
          cf_RetentionDays = days, cf_RetentionInterval = interval, cf_RetentionBatchSize = batch\<rparr>))))))))))))))))))))))"

text \<open>What \<open>run\<close> hands to the workers.\<close>

definition delivery_config :: "app_config \<Rightarrow> worker_config" where
  "delivery_config c =
     \<lparr>wc_Count = cf_DeliveryWorkers c, wc_PollInterval = cf_DeliveryPoll c,
      wc_LeaseDuration = cf_DeliveryLease c, wc_Timeout = cf_DeliveryTimeout c\<rparr>"

section \<open>The health check\<close>

text \<open>\<open>get\<close> is the client's \<open>Get\<close>: an error, or the status of the response.\<close>

definition checkReadiness :: "(string \<Rightarrow> string + int) \<Rightarrow> string \<Rightarrow> string option" where
  "checkReadiness get endpoint =
     (case get endpoint of
        Inl e \<Rightarrow> Some (''readiness request failed: '' @ e)
      | Inr status \<Rightarrow> if status \<noteq> 200 then Some (''readiness request returned HTTP '' @ FormatInt status) else None)"

definition runHealthcheck :: "(string \<Rightarrow> string) \<Rightarrow> (string \<Rightarrow> string + int) \<Rightarrow> string option" where
  "runHealthcheck getenv get =
     (case portEnv getenv of
        Inl e \<Rightarrow> Some (error_text e)
      | Inr port \<Rightarrow> checkReadiness get (''http://127.0.0.1:'' @ FormatInt port @ ''/readyz''))"

section \<open>Properties\<close>

lemma positiveIntEnv_pos: "positiveIntEnv getenv name fallback = Inr v \<Longrightarrow> 0 < fallback \<Longrightarrow> 0 < v"
  by (auto simp: positiveIntEnv_def Let_def split: if_splits option.splits)

lemma positiveInt64Env_pos: "positiveInt64Env getenv name fallback = Inr v \<Longrightarrow> 0 < fallback \<Longrightarrow> 0 < v"
  by (auto simp: positiveInt64Env_def Let_def split: if_splits option.splits)

lemma positiveDurationEnv_pos:
  "positiveDurationEnv p getenv name fallback = Inr v \<Longrightarrow> 0 < fallback \<Longrightarrow> 0 < v"
  by (auto simp: positiveDurationEnv_def Let_def split: if_splits option.splits)

lemma portEnv_range: "portEnv getenv = Inr v \<Longrightarrow> 0 < v \<and> v \<le> 65535"
  by (auto simp: portEnv_def dest: positiveIntEnv_pos split: sum.splits if_splits)

lemma requiredEnv_nonempty: "requiredEnv getenv name = Inr v \<Longrightarrow> v \<noteq> []"
  by (auto simp: requiredEnv_def Let_def split: if_splits)

lemma loadConfig_facts:
  assumes "loadConfig ParseAddress ParseDuration getenv = Inr c"
  shows "cf_AdminEmail c \<noteq> []" "12 \<le> length (cf_AdminPassword c)" "32 \<le> length (cf_SessionKey c)"
    and "0 < cf_Port c \<and> cf_Port c \<le> 65535" "0 < cf_MaxBodyBytes c" "10 * second \<le> cf_DeliveryLease c"
    and "cf_DeliveryTimeout c + DeliveryFinalizationReserve \<le> cf_DeliveryLease c" "0 < cf_DeliveryTimeout c"
    and "0 < cf_ShutdownTimeout c" "0 < cf_RetentionDays c" "0 < cf_RetentionInterval c" "0 < cf_RetentionBatchSize c"
    and "0 < cf_DeliveryWorkers c" "0 < cf_DeliveryPoll c"
proof -
  have t: "0 < DefaultDeliveryTimeout" "0 < second" "0 < hour" by (simp_all add: time_units DefaultDeliveryTimeout_def)
  note conf = assms [unfolded loadConfig_def bind_sum_Inr ensure_Inr sum.inject]
  from conf obtain database email password key secure trust port maxBody workers poll lease timeout shutdown retention days interval batch
    where e: "requiredEnv getenv ''ADMIN_EMAIL'' = Inr email" and pw: "\<not> length password < 12" and key: "\<not> length key < 32"
    and port: "portEnv getenv = Inr port" and body: "positiveInt64Env getenv ''MAX_BODY_BYTES'' 1048576 = Inr maxBody"
    and workers: "positiveIntEnv getenv ''DELIVERY_WORKERS'' 4 = Inr workers"
    and poll: "positiveDurationEnv ParseDuration getenv ''DELIVERY_POLL_INTERVAL'' second = Inr poll"
    and lease: "\<not> lease < 10 * second" and timeout: "\<not> timeout > lease - DeliveryFinalizationReserve"
    and pos: "positiveDurationEnv ParseDuration getenv ''DELIVERY_TIMEOUT'' DefaultDeliveryTimeout = Inr timeout"
    and shutdown: "positiveDurationEnv ParseDuration getenv ''SHUTDOWN_TIMEOUT'' (10 * second) = Inr shutdown"
    and days: "positiveIntEnv getenv ''RETENTION_DAYS'' 30 = Inr days"
    and interval: "positiveDurationEnv ParseDuration getenv ''RETENTION_INTERVAL'' (24 * hour) = Inr interval"
    and batch: "positiveIntEnv getenv ''RETENTION_BATCH_SIZE'' 300 = Inr batch"
    and c: "\<lparr>cf_Database = database, cf_AdminEmail = email, cf_AdminPassword = password, cf_SessionKey = key,
          cf_CookieSecure = secure, cf_TrustProxyHeaders = trust, cf_Port = port, cf_MaxBodyBytes = maxBody,
          cf_DeliveryWorkers = workers, cf_DeliveryPoll = poll, cf_DeliveryLease = lease,
          cf_DeliveryTimeout = timeout, cf_ShutdownTimeout = shutdown, cf_RetentionEnabled = retention,
          cf_RetentionDays = days, cf_RetentionInterval = interval, cf_RetentionBatchSize = batch\<rparr> = c"
    by (elim exE conjE)
  show "cf_AdminEmail c \<noteq> []" using requiredEnv_nonempty [OF e] by (simp flip: c)
  show "12 \<le> length (cf_AdminPassword c)" "32 \<le> length (cf_SessionKey c)" using pw key by (simp_all flip: c)
  show "0 < cf_Port c \<and> cf_Port c \<le> 65535" using portEnv_range [OF port] by (simp flip: c)
  show "10 * second \<le> cf_DeliveryLease c" "cf_DeliveryTimeout c + DeliveryFinalizationReserve \<le> cf_DeliveryLease c"
    using lease timeout by (simp_all flip: c)
  show "0 < cf_MaxBodyBytes c" "0 < cf_DeliveryTimeout c" "0 < cf_ShutdownTimeout c" "0 < cf_RetentionDays c"
    "0 < cf_RetentionInterval c" "0 < cf_RetentionBatchSize c" "0 < cf_DeliveryWorkers c" "0 < cf_DeliveryPoll c"
    using positiveInt64Env_pos [OF body] positiveDurationEnv_pos [OF pos] positiveDurationEnv_pos [OF shutdown]
      positiveIntEnv_pos [OF days] positiveDurationEnv_pos [OF interval] positiveIntEnv_pos [OF batch]
      positiveIntEnv_pos [OF workers] positiveDurationEnv_pos [OF poll] t by (simp_all flip: c)
qed

text \<open>
  C33: what an accepted configuration guarantees. Every setting is in its range, so no default of
  the worker pool applies, the session key is long enough for \<open>NewAuth\<close>, and an attempt started
  when its webhook was claimed has the whole delivery timeout before the time reserved for
  recording its result.
\<close>

theorem config_bounds:
  assumes "loadConfig ParseAddress ParseDuration getenv = Inr c"
  shows "12 \<le> length (cf_AdminPassword c) \<and> cf_AdminEmail c \<noteq> [] \<and>
    0 < cf_Port c \<and> cf_Port c \<le> 65535 \<and> 0 < cf_MaxBodyBytes c \<and>
    10 * second \<le> cf_DeliveryLease c \<and> cf_DeliveryTimeout c + DeliveryFinalizationReserve \<le> cf_DeliveryLease c \<and>
    0 < cf_ShutdownTimeout c \<and> 0 < cf_RetentionDays c \<and> 0 < cf_RetentionInterval c \<and> 0 < cf_RetentionBatchSize c \<and>
    worker_defaults (delivery_config c) = delivery_config c \<and>
    (\<exists>a l. NewAuth cookies loginCookies (cf_SessionKey c) (cf_CookieSecure c) (cf_TrustProxyHeaders c) = Inr (a, l)) \<and>
    (\<forall>h now. attempt_deadline (h\<lparr>wh_DeliveryLeaseUntil := Some (now + cf_DeliveryLease c)\<rparr>) (cf_DeliveryTimeout c) now =
       now + cf_DeliveryTimeout c)"
  using loadConfig_facts [OF assms]
  by (simp add: worker_defaults_def delivery_config_def NewAuth_def attempt_deadline_def Let_def time_units)

definition demo_getenv :: "string \<Rightarrow> string" where
  "demo_getenv name =
     (case map_of [(''POSTGRES_HOST'', ''h''), (''POSTGRES_PORT'', ''5''), (''POSTGRES_USER'', ''u''), (''POSTGRES_PASSWORD'', ''p''),
        (''POSTGRES_DB'', ''d''), (''ADMIN_EMAIL'', ''a''), (''ADMIN_PASSWORD'', ''abcdefghijkl''),
        (''SESSION_KEY'', ''abcdefghijklmnopqrstuvwxyzabcdef''), (''PORT'', ''80'')] name of None \<Rightarrow> [] | Some v \<Rightarrow> v)"

lemma demo_trim: "list_all solid s \<Longrightarrow> TrimSpace s = s"
  by (rule TrimSpace_all_solid) (simp add: list_all_iff)

lemma demo_set:
  "TrimSpace (demo_getenv ''POSTGRES_HOST'') = ''h''"
  "TrimSpace (demo_getenv ''POSTGRES_PORT'') = ''5''"
  "TrimSpace (demo_getenv ''POSTGRES_USER'') = ''u''"
  "TrimSpace (demo_getenv ''POSTGRES_PASSWORD'') = ''p''"
  "TrimSpace (demo_getenv ''POSTGRES_DB'') = ''d''"
  "TrimSpace (demo_getenv ''ADMIN_EMAIL'') = ''a''"
  "TrimSpace (demo_getenv ''ADMIN_PASSWORD'') = ''abcdefghijkl''"
  "TrimSpace (demo_getenv ''SESSION_KEY'') = ''abcdefghijklmnopqrstuvwxyzabcdef''"
  "TrimSpace (demo_getenv ''PORT'') = ''80''"
  by (simp_all add: demo_getenv_def demo_trim solid_def)

lemma demo_unset:
  "TrimSpace (demo_getenv ''POSTGRES_SSLMODE'') = []"
  "TrimSpace (demo_getenv ''COOKIE_SECURE'') = []"
  "TrimSpace (demo_getenv ''TRUST_PROXY_HEADERS'') = []"
  "TrimSpace (demo_getenv ''MAX_BODY_BYTES'') = []"
  "TrimSpace (demo_getenv ''DELIVERY_WORKERS'') = []"
  "TrimSpace (demo_getenv ''DELIVERY_POLL_INTERVAL'') = []"
  "TrimSpace (demo_getenv ''DELIVERY_LEASE_DURATION'') = []"
  "TrimSpace (demo_getenv ''DELIVERY_TIMEOUT'') = []"
  "TrimSpace (demo_getenv ''SHUTDOWN_TIMEOUT'') = []"
  "TrimSpace (demo_getenv ''RETENTION_ENABLED'') = []"
  "TrimSpace (demo_getenv ''RETENTION_DAYS'') = []"
  "TrimSpace (demo_getenv ''RETENTION_INTERVAL'') = []"
  "TrimSpace (demo_getenv ''RETENTION_BATCH_SIZE'') = []"
  by (simp_all add: demo_getenv_def demo_trim)

lemma demo_config_loaded: "\<not> is_err (loadConfig Some (\<lambda>_. None) demo_getenv)"
proof -
  have port: "Atoi ''80'' = Some 80" by code_simp
  show ?thesis
    by (simp add: loadConfig_def loadDatabaseConfig_def bind_sum_def ensure_def requiredEnv_def boolEnv_def portEnv_def
        positiveIntEnv_def positiveInt64Env_def positiveDurationEnv_def Let_def demo_set demo_unset port
        time_units DefaultDeliveryTimeout_def DeliveryFinalizationReserve_def)
qed

theorem config_bounds_witness:
  "\<exists>c. loadConfig Some (\<lambda>_. None) demo_getenv = Inr c \<and> 12 \<le> length (cf_AdminPassword c) \<and> cf_Port c \<le> 65535 \<and>
     cf_DeliveryTimeout c + DeliveryFinalizationReserve \<le> cf_DeliveryLease c"
proof -
  obtain c where c: "loadConfig Some (\<lambda>_. None) demo_getenv = Inr c"
    using demo_config_loaded by (cases "loadConfig Some (\<lambda>_. None) demo_getenv") simp_all
  from config_bounds [OF c] c show ?thesis by blast
qed

end
