(* ===== verification/Startup.thy ===== *)
theory Startup
  imports Program Config
begin

text \<open>
  \<open>run\<close> of \<open>cmd/webhookhub/main.go\<close>: from the configuration to the server and back. What it does to the
  world is a list of events in the order of the code, with the deferred \<open>Close\<close> last; what it meets
  is a \<open>world\<close>: the environment of the process and the optional \<open>.env\<close> file, the driver that \<open>storage.Open\<close>
  connects with and its pool, the event that ends the service, what \<open>Shutdown\<close> answers, and when the groups
  of workers end. Serving itself is the
  program of theory Program, from the state the event carries.

  The lemmas show in which state the service starts, that the configured administrator can log in
  there and that the session opens the pages, and that whatever fails nothing is left running.
\<close>

section \<open>Starting and stopping\<close>

text \<open>The libraries a start passes on: \<open>securecookie\<close>, \<open>bcrypt\<close>, \<open>net/mail\<close>, \<open>time.ParseDuration\<close>.\<close>

record libraries =
  li_cookies :: "string \<Rightarrow> int \<Rightarrow> session_data codec"
  li_loginCookies :: "string \<Rightarrow> int \<Rightarrow> string codec"
  li_hash :: "string \<Rightarrow> go_error + string"
  li_ParseAddress :: "string \<Rightarrow> string option"
  li_ParseDuration :: "string \<Rightarrow> duration option"
  li_app :: app

text \<open>The service ends by a signal, or because \<open>ListenAndServe\<close> returned: closed, or with an error.\<close>

datatype ending = Signalled | ServerClosed | ServerFailed string

record world =
  wo_environ :: "string \<Rightarrow> string option"
  wo_dotenv :: "string \<Rightarrow> string option"
  wo_postgres :: postgres
  wo_pool :: "go_error + pool"
  wo_admin :: faults
  wo_ending :: ending
  wo_shutdown :: "string option"
  wo_shutdown_at :: time
  wo_stopped_at :: time
  wo_groups :: "time option list"

text \<open>
  What \<open>os.Getenv\<close> answers: of the environment alone, and after \<open>godotenv.Load\<close> has added the variables of
  the \<open>.env\<close> file that the environment does not have. \<open>run\<close> loads that file, the health check does not.
\<close>

definition process_env :: "world \<Rightarrow> string \<Rightarrow> string" where
  "process_env w name = (case wo_environ w name of Some v \<Rightarrow> v | None \<Rightarrow> [])"

definition wo_getenv :: "world \<Rightarrow> string \<Rightarrow> string" where
  "wo_getenv w name =
     (case wo_environ w name of
        Some v \<Rightarrow> v
      | None \<Rightarrow> (case wo_dotenv w name of Some v \<Rightarrow> v | None \<Rightarrow> []))"

datatype event =
    Opened database_config
  | DeliveryStarted worker_config
  | RetentionStarted int duration int
  | Served int app server
  | ShutDown duration
  | WorkersStopped
  | WorkersAwaited bool
  | Closed "go_error option"

definition app_of :: "libraries \<Rightarrow> app_config \<Rightarrow> auth \<Rightarrow> app" where
  "app_of lib c a = (li_app lib)\<lparr>ap_auth := a, ap_maxBodyBytes := cf_MaxBodyBytes c\<rparr>"

text \<open>The error of \<open>run\<close> once it has served.\<close>

definition serve_error :: "world \<Rightarrow> string option" where
  "serve_error w =
     (let runErr = (case wo_ending w of ServerFailed e \<Rightarrow> Some (''HTTP server stopped: '' @ e) | _ \<Rightarrow> None)
      in case wo_shutdown w of
           None \<Rightarrow> runErr
         | Some e \<Rightarrow> if runErr = None then Some (''graceful HTTP shutdown: '' @ e) else runErr)"

text \<open>
  Waiting for the workers: each group ends at a time of its own, or never; waiting ends with the last
  of them, or at the deadline of the shutdown.
\<close>

definition waitForWorkers :: "time \<Rightarrow> time \<Rightarrow> time option list \<Rightarrow> time \<times> bool" where
  "waitForWorkers now deadline groups =
     (if list_all (\<lambda>g. g \<noteq> None \<and> the g \<le> deadline) groups then (foldl max now (map the groups), True) else (deadline, False))"

definition run :: "libraries \<Rightarrow> world \<Rightarrow> event list \<times> string option" where
  "run lib w =
     (case loadConfig (li_ParseAddress lib) (li_ParseDuration lib) (wo_getenv w) of
        Inl e \<Rightarrow> ([], Some (''invalid configuration: '' @ error_text e))
      | Inr c \<Rightarrow>
          (case Open (wo_postgres w) (cf_Database c) of
             Inl e \<Rightarrow> ([], Some (''connect to postgres: '' @ error_text e))
           | Inr d \<Rightarrow>
               (case EnsureAdmin (li_hash lib) (ap_matches (li_app lib)) (wo_admin w) (cf_AdminEmail c) (cf_AdminPassword c) d of
                  (Inl e, d') \<Rightarrow> ([Opened (cf_Database c), Closed (Close (wo_pool w))], Some (''ensure admin user: '' @ error_text e))
                | (Inr _, d') \<Rightarrow>
                    (case NewAuth (li_cookies lib) (li_loginCookies lib) (cf_SessionKey c) (cf_CookieSecure c) (cf_TrustProxyHeaders c) of
                       Inl e \<Rightarrow> ([Opened (cf_Database c), Closed (Close (wo_pool w))], Some (''initialize authentication: '' @ error_text e))
                     | Inr (a, l) \<Rightarrow>
                         ([Opened (cf_Database c), DeliveryStarted (worker_defaults (delivery_config c))] @
                          (if cf_RetentionEnabled c
                           then [RetentionStarted (cf_RetentionDays c) (cf_RetentionInterval c) (cf_RetentionBatchSize c)] else []) @
                          [Served (cf_Port c) (app_of lib c a) \<lparr>sv_db = d', sv_limiter = l\<rparr>,
                           ShutDown (cf_ShutdownTimeout c), WorkersStopped,
                           WorkersAwaited (snd (waitForWorkers (wo_stopped_at w) (wo_shutdown_at w + cf_ShutdownTimeout c) (wo_groups w))),
                           Closed (Close (wo_pool w))],
                          serve_error w)))))"

text \<open>
  \<open>main\<close>: the service, or the health check when that is the only argument. It ends normally or by
  \<open>log.Fatal\<close> with a message.
\<close>

datatype exit = Finished | Fatal string

definition exit_of :: "string option \<Rightarrow> exit" where
  "exit_of err = (case err of None \<Rightarrow> Finished | Some e \<Rightarrow> Fatal e)"

definition main_program :: "libraries \<Rightarrow> world \<Rightarrow> (string \<Rightarrow> string + int) \<Rightarrow> string list \<Rightarrow> event list \<times> exit" where
  "main_program lib w get args =
     (if 1 < length args
      then ([], if length args = 2 \<and> args ! 1 = ''healthcheck'' then exit_of (runHealthcheck (process_env w) get)
                else Fatal (''usage: '' @ args ! 0 @ '' [healthcheck]''))
      else map_prod id exit_of (run lib w))"

section \<open>The state the service starts in\<close>

lemma run_served:
  assumes "run lib w = (events, res)" and "Served port app s \<in> set events"
  obtains c d d' a where "loadConfig (li_ParseAddress lib) (li_ParseDuration lib) (wo_getenv w) = Inr c" "Open (wo_postgres w) (cf_Database c) = Inr d"
    "EnsureAdmin (li_hash lib) (ap_matches (li_app lib)) (wo_admin w) (cf_AdminEmail c) (cf_AdminPassword c) d = (Inr (), d')"
    "NewAuth (li_cookies lib) (li_loginCookies lib) (cf_SessionKey c) (cf_CookieSecure c) (cf_TrustProxyHeaders c) = Inr (a, newLoginLimiter)"
    "port = cf_Port c" "app = app_of lib c a" "s = \<lparr>sv_db = d', sv_limiter = newLoginLimiter\<rparr>"
  using assms by (auto simp: run_def NewAuth_def split: sum.splits prod.splits if_splits)

lemma started_running:
  assumes "run lib w = (events, res)" and "Served port app s \<in> set events"
    and "\<And>dc d. Open (wo_postgres w) dc = Inr d \<Longrightarrow> \<exists>S. sys_reachable S \<and> sys_db S = d"
    and "\<And>dc d. Open (wo_postgres w) dc = Inr d \<Longrightarrow> rules_ok (ap_ParseRequestURI (li_app lib)) d"
    and bcrypt: "\<And>p h. li_hash lib p = Inr h \<Longrightarrow> ap_matches (li_app lib) h p"
  shows "\<exists>S. running app S (sv_limiter s) \<and> sys_db S = sv_db s"
  using assms(1,2)
proof (rule run_served)
  fix c d d' a assume r: "Open (wo_postgres w) (cf_Database c) = Inr d"
    "EnsureAdmin (li_hash lib) (ap_matches (li_app lib)) (wo_admin w) (cf_AdminEmail c) (cf_AdminPassword c) d = (Inr (), d')"
    "app = app_of lib c a" "s = \<lparr>sv_db = d', sv_limiter = newLoginLimiter\<rparr>"
  obtain S where S: "sys_reachable S" "sys_db S = d" using assms(3) [OF r(1)] by blast
  have "sys_step S (S\<lparr>sys_db := d'\<rparr>)" using ensure_admin [OF bcrypt r(2) [folded S(2)]] by blast
  then have "sys_reachable (S\<lparr>sys_db := d'\<rparr>)" using S(1) more_step by (auto simp: sys_reachable_def)
  moreover have "t_rules d' = t_rules d"
    using r(2) by (cases rule: EnsureAdmin_cases) (auto dest!: ensure_admin_body_frame, metis db.select_convs(3) db.surjective db.update_convs(4,8))
  then have "rules_ok (ap_ParseRequestURI app) (sys_db (S\<lparr>sys_db := d'\<rparr>))"
    using assms(4) [OF r(1)] by (simp add: rules_ok_def r(3) app_of_def)
  ultimately have "running app (S\<lparr>sys_db := d'\<rparr>) newLoginLimiter" by (rule started)
  then show ?thesis by (intro exI [of _ "S\<lparr>sys_db := d'\<rparr>"]) (simp add: r(4))
qed

text \<open>
  C10: a start leaves nothing half done. The service starts only with an accepted configuration, an
  administrator and a state from which the program's invariants hold; its workers are started before
  and stopped after it, and the database, once opened, is closed last; a start that does not reach
  the service has started no worker and reports an error.
\<close>

theorem run_orderly:
  assumes "run lib w = (events, res)"
    and "\<And>dc d. Open (wo_postgres w) dc = Inr d \<Longrightarrow> \<exists>S. sys_reachable S \<and> sys_db S = d \<and> rules_ok (ap_ParseRequestURI (li_app lib)) d"
    and "\<And>p h. li_hash lib p = Inr h \<Longrightarrow> ap_matches (li_app lib) h p"
  shows "(\<exists>port app s before after. events = before @ Served port app s # after \<and>
      0 < port \<and> port \<le> 65535 \<and> (\<exists>S. running app S (sv_limiter s) \<and> sys_db S = sv_db s) \<and>
      (\<exists>dc pool retention. before = Opened dc # DeliveryStarted pool # retention \<and>
         (retention = [] \<or> (\<exists>n i b. retention = [RetentionStarted n i b] \<and> 0 < n \<and> 0 < i \<and> 0 < b)) \<and>
         worker_defaults pool = pool \<and> DeliveryFinalizationReserve \<le> wc_LeaseDuration pool - wc_Timeout pool) \<and>
      (\<exists>timeout. after = [ShutDown timeout, WorkersStopped,
         WorkersAwaited (list_all (\<lambda>g. g \<noteq> None \<and> the g \<le> wo_shutdown_at w + timeout) (wo_groups w)), Closed (Close (wo_pool w))] \<and> 0 < timeout) \<and>
      (res = None \<longleftrightarrow> wo_shutdown w = None \<and> wo_ending w \<in> {Signalled, ServerClosed})) \<or>
    res \<noteq> None \<and> (events = [] \<or> (\<exists>dc. events = [Opened dc, Closed (Close (wo_pool w))]))"
proof (cases "\<exists>port app s. Served port app s \<in> set events")
  case False
  then show ?thesis using assms(1) by (auto simp: run_def split: sum.splits prod.splits)
next
  case True
  then obtain port app s where served: "Served port app s \<in> set events" by blast
  obtain c d d' a where r: "loadConfig (li_ParseAddress lib) (li_ParseDuration lib) (wo_getenv w) = Inr c" "Open (wo_postgres w) (cf_Database c) = Inr d"
    "EnsureAdmin (li_hash lib) (ap_matches (li_app lib)) (wo_admin w) (cf_AdminEmail c) (cf_AdminPassword c) d = (Inr (), d')"
    "NewAuth (li_cookies lib) (li_loginCookies lib) (cf_SessionKey c) (cf_CookieSecure c) (cf_TrustProxyHeaders c) = Inr (a, newLoginLimiter)"
    "port = cf_Port c" "app = app_of lib c a" "s = \<lparr>sv_db = d', sv_limiter = newLoginLimiter\<rparr>"
    using run_served [OF assms(1) served] by metis
  note facts = loadConfig_facts [OF r(1)]
  let ?pool = "worker_defaults (delivery_config c)"
  let ?retention = "(if cf_RetentionEnabled c
      then [RetentionStarted (cf_RetentionDays c) (cf_RetentionInterval c) (cf_RetentionBatchSize c)] else [])"
  let ?after = "[ShutDown (cf_ShutdownTimeout c), WorkersStopped,
      WorkersAwaited (list_all (\<lambda>g. g \<noteq> None \<and> the g \<le> wo_shutdown_at w + cf_ShutdownTimeout c) (wo_groups w)), Closed (Close (wo_pool w))]"
  have ev: "events = (Opened (cf_Database c) # DeliveryStarted ?pool # ?retention) @ Served port app s # ?after" and res: "res = serve_error w"
    using assms(1) r by (auto simp: run_def waitForWorkers_def)
  have "\<exists>S. running app S (sv_limiter s) \<and> sys_db S = sv_db s"
    by (rule started_running [OF assms(1) served _ _ assms(3)]) (use assms(2) in blast)+
  moreover have "worker_defaults ?pool = ?pool" "DeliveryFinalizationReserve \<le> wc_LeaseDuration ?pool - wc_Timeout ?pool"
    using facts by (simp_all add: worker_defaults_def delivery_config_def time_units)
  moreover have "?retention = [] \<or> (\<exists>n i b. ?retention = [RetentionStarted n i b] \<and> 0 < n \<and> 0 < i \<and> 0 < b)"
    using facts by simp
  moreover have "0 < port" "port \<le> 65535" "0 < cf_ShutdownTimeout c" using facts by (simp_all add: r(5))
  moreover have "res = None \<longleftrightarrow> wo_shutdown w = None \<and> wo_ending w \<in> {Signalled, ServerClosed}"
    by (simp add: res serve_error_def Let_def split: option.split ending.split)
  ultimately show ?thesis using ev by blast
qed


section \<open>The configured administrator\<close>

lemma loadConfig_email_trimmed: "loadConfig p q getenv = Inr c \<Longrightarrow> TrimSpace (cf_AdminEmail c) = cf_AdminEmail c"
  by (auto simp: loadConfig_def bind_sum_Inr ensure_Inr requiredEnv_def Let_def split: if_splits)

lemma reserve_new: "\<exists>r wait l. reserve key now newLoginLimiter = (Some r, wait, l)"
  by (simp add: reserve_def newLoginLimiter_def sweepLocked_def entry_for_def renew_window_def
      new_attempt_def loginMaxAttempts_def Let_def)

lemma base64url_nonempty: "bs \<noteq> [] \<Longrightarrow> base64url bs \<noteq> []"
  by (cases bs rule: base64url.cases) simp_all

lemma dispatch_login: "dispatch ''POST'' ''/login'' = Run (posts [Lit ''login''] Public LoginPage) []"
  by code_simp

lemma dispatch_login_form: "dispatch ''GET'' ''/login'' = Run (gets [Lit ''login''] Public LoginPage) []"
  by code_simp

lemma serve_login_form:
  assumes "rq_method g = ''GET''"
  shows "serve app env \<lparr>wi_request = g, wi_EscapedPath = ''/login'', wi_body = b\<rparr> s =
    (with_security (login_form (ap_auth app) (ap_login_page app) (su_login env)), s)"
  using assms dispatch_login_form
  by (simp add: serve_def mux_def exact_def protect_def on_limiter_def Login_def securityHeaders_def)

text \<open>
  C9: the configured administrator gets in. Suppose the service started on a database that is not
  of the kind \<open>stale_admin\<close>: its only account an administrator under another email with this very
  password (that account keeps its email, and the configured one cannot log in). Then a login page
  that got its cookie shows the token, and sending token and cookie back within ten minutes, with
  the configured email and password, opens a session if the signed session fits into a cookie: every
  request that sends the session's cookie back within twelve hours has it.
\<close>

theorem configured_admin_logs_in:
  assumes "run lib w = (events, res)" and "Served port app s \<in> set events"
    and config: "loadConfig (li_ParseAddress lib) (li_ParseDuration lib) (wo_getenv w) = Inr c"
    and opened: "\<And>dc d. Open (wo_postgres w) dc = Inr d \<Longrightarrow>
      db_inv d \<and> \<not> stale_admin (ap_matches (li_app lib)) (cf_AdminEmail c) (cf_AdminPassword c) d"
    and bcrypt: "\<And>p h. li_hash lib p = Inr h \<Longrightarrow> ap_matches (li_app lib) h p"
    and codec: "\<And>key age. keeps_for age (li_cookies lib key age)" "\<And>key age. keeps_for age (li_loginCookies lib key age)"
    and page: "serve app genv \<lparr>wi_request = g, wi_EscapedPath = ''/login'', wi_body = b\<rparr> s = (form, s1)" "rq_method g = ''GET''"
      "lg_random (su_login genv) = Some nonce" "nonce \<noteq> []" "ck \<in> set (rp_cookies form)"
    and r: "rq_method r = ''POST''" "rq_form r \<noteq> None" "get_cookie r ''login_csrf'' = Some (ck_Value ck)"
      "FormValue r ''csrf_token'' = base64url nonce"
      "TrimSpace (FormValue r ''username'') = cf_AdminEmail c" "FormValue r ''password'' = cf_AdminPassword c"
      "lg_encode_at (su_login genv) \<le> rq_at r" "rq_at r \<le> lg_encode_at (su_login genv) + 10 * minute"
    and env: "\<not> lg_find_fails (su_login env)" "lg_random (su_login env) = Some random" "random \<noteq> []"
    and fits: "Encode (au_cookies (ap_auth app)) (lg_encode_at (su_login env)) ''session''
      \<lparr>sd_User = cf_AdminEmail c, sd_CSRFToken = base64url random\<rparr> \<noteq> None"
  shows "rp_body form = ap_login_page app (base64url nonce) \<and>
    rp_status (fst (serve app env \<lparr>wi_request = r, wi_EscapedPath = ''/login'', wi_body = b\<rparr> s1)) = 303 \<and>
    (\<exists>ck \<in> set (rp_cookies (fst (serve app env \<lparr>wi_request = r, wi_EscapedPath = ''/login'', wi_body = b\<rparr> s1))).
       ck_Name ck = ''session'' \<and>
       (\<forall>q. get_cookie q ''session'' = Some (ck_Value ck) \<and>
            lg_encode_at (su_login env) \<le> rq_at q \<and> rq_at q \<le> lg_encode_at (su_login env) + 12 * hour \<longrightarrow>
          session_of app q = Some \<lparr>sd_User = cf_AdminEmail c, sd_CSRFToken = base64url random\<rparr>))"
proof -
  obtain d d' a where d: "Open (wo_postgres w) (cf_Database c) = Inr d"
    "EnsureAdmin (li_hash lib) (ap_matches (li_app lib)) (wo_admin w) (cf_AdminEmail c) (cf_AdminPassword c) d = (Inr (), d')"
    "NewAuth (li_cookies lib) (li_loginCookies lib) (cf_SessionKey c) (cf_CookieSecure c) (cf_TrustProxyHeaders c) = Inr (a, newLoginLimiter)"
    "app = app_of lib c a" "s = \<lparr>sv_db = d', sv_limiter = newLoginLimiter\<rparr>"
    using run_served [OF assms(1,2)] config by (metis sum.inject(2))
  have app: "ap_auth app = a" "ap_matches app = ap_matches (li_app lib)" by (simp_all add: d(4) app_of_def)
  have cookies: "keeps_for sessionMaxAgeSeconds (au_cookies a)" "keeps_for loginCSRFMaxAgeSeconds (au_loginCookies a)"
    using d(3) codec by (auto simp: NewAuth_def split: if_splits)
  have form: "form = with_security (login_form a (ap_login_page app) (su_login genv))" "s1 = s"
    using page(1) serve_login_form [OF page(2)] by (simp_all add: app)
  have ck: "ck \<in> set (rp_cookies (login_form a (ap_login_page app) (su_login genv)))"
    using page(5) by (simp add: form(1) with_security_def)
  have inv: "db_inv d'" by (rule db_inv_EnsureAdmin [OF _ bcrypt d(2)]) (use opened [OF d(1)] in simp)
  have "admin_ready (ap_matches (li_app lib)) (cf_AdminEmail c) (cf_AdminPassword c) d'"
    using ensure_admin_effect [OF _ bcrypt d(2)] opened [OF d(1)] by blast
  then obtain u where u: "u \<in> set (t_users d')" "us_Email u = cf_AdminEmail c" "ap_matches app (us_Password u) (cf_AdminPassword c)"
    by (auto simp: admin_ready_def app)
  have find: "FindUserByEmail False (cf_AdminEmail c) d' = Inr u"
    using FindUserByEmail_found [OF db_invD(3) [OF inv] u(1)] u(2) by simp
  let ?session = "\<lparr>sd_User = cf_AdminEmail c, sd_CSRFToken = base64url random\<rparr>"
  obtain t where t: "Encode (au_cookies a) (lg_encode_at (su_login env)) ''session'' ?session = Some t"
    using fits by (auto simp: app)
  define q where "q = r\<lparr>rq_path := ''/login'', rq_path_values := []\<rparr>"
  have q: "rq_method q = ''POST''" "rq_form q \<noteq> None" "TrimSpace (FormValue q ''username'') = cf_AdminEmail c"
    "FormValue q ''password'' = cf_AdminPassword c"
    using r by (simp_all add: q_def FormValue_def)
  have accepted: "validLoginCSRF a q \<and> rp_body (login_form a (ap_login_page app) (su_login genv)) = ap_login_page app (base64url nonce)"
    by (intro conjI; rule login_form_accepted [OF page(3) base64url_nonempty [OF page(4)] ck cookies(2), where r = q])
      (use r in \<open>simp_all add: q_def FormValue_def get_cookie_def loginCSRFMaxAgeSeconds_def time_units\<close>)
  have body: "rp_body form = ap_login_page app (base64url nonce)" using accepted by (simp add: form(1) with_security_def)
  obtain res wait l where res: "reserve (clientIP (ap_ParseAddr app) q (au_trustProxyHeaders a)) (lg_reserve_at (su_login env)) newLoginLimiter = (Some res, wait, l)"
    using reserve_new by blast
  have "check_login (ap_matches app) a (su_login env) d' q = (new_session a (su_login env) (cf_AdminEmail c), loginSucceeded)"
    using q find u(3) env(1) by (simp add: check_login_def)
  then obtain l' where login: "Login (ap_matches app) (ap_ParseAddr app) (ap_login_page app) a (su_login env) d' q newLoginLimiter =
      (new_session a (su_login env) (cf_AdminEmail c), l')"
    using q accepted res by (auto simp: Login_def)
  have "decoded ''/login'' = ''/login''" by code_simp
  then have out: "fst (serve app env \<lparr>wi_request = r, wi_EscapedPath = ''/login'', wi_body = b\<rparr> s) =
      with_security (new_session a (su_login env) (cf_AdminEmail c))"
    using login r(1) dispatch_login
    by (simp add: serve_def mux_def exact_def protect_def on_limiter_def d(5) app q_def)
  have some: "base64url random \<noteq> []" "cf_AdminEmail c \<noteq> []" using base64url_nonempty [OF env(3)] loadConfig_facts(1) [OF config] by simp_all
  have "session_of app p = Some ?session" if "get_cookie p ''session'' = Some t"
    "lg_encode_at (su_login env) \<le> rq_at p" "rq_at p \<le> lg_encode_at (su_login env) + 12 * hour" for p
  proof -
    have "Decode (au_cookies a) (rq_at p) ''session'' t = Some ?session"
      using cookies(1) t that(2,3) by (simp add: keeps_for_def sessionMaxAgeSeconds_def time_units)
    then show ?thesis using that(1) some by (simp add: session_of_def app)
  qed
  then show ?thesis unfolding form(2) out
    using body t env(2) by (auto simp: new_session_def randomToken_def with_security_def with_cookie_def http_Redirect_def)
qed


section \<open>The health check\<close>

lemma loadConfig_port: "loadConfig p q getenv = Inr c \<Longrightarrow> portEnv getenv = Inr (cf_Port c)"
  by (auto simp: loadConfig_def bind_sum_Inr ensure_Inr Let_def split: if_splits)

lemma dispatch_readyz: "dispatch ''GET'' ''/readyz'' = Run (gets [Lit ''readyz''] Public Readyz) []"
  by code_simp

text \<open>
  C11: the health check tells whether the service is ready. Run in the environment of a service
  that answers its request, it starts nothing, and it ends normally exactly when the database of
  that service answers a ping; a request that fails is a failed check. The health check does not
  read the \<open>.env\<close> file, so \<open>PORT\<close> must not be set by that file alone.
\<close>

theorem healthcheck_tells_readiness:
  assumes "loadConfig p q (wo_getenv w) = Inr c" and "rq_method r = ''GET''"
    and "wo_environ w ''PORT'' = None \<Longrightarrow> wo_dotenv w ''PORT'' = None"
    and "\<And>status. get (''http://127.0.0.1:'' @ FormatInt (cf_Port c) @ ''/readyz'') = Inr status \<Longrightarrow>
      status = rp_status (fst (serve app env \<lparr>wi_request = r, wi_EscapedPath = ''/readyz'', wi_body = b\<rparr> s))"
  shows "fst (main_program lib w get [name, ''healthcheck'']) = [] \<and>
    (snd (main_program lib w get [name, ''healthcheck'']) = Finished \<longleftrightarrow>
       (\<exists>status. get (''http://127.0.0.1:'' @ FormatInt (cf_Port c) @ ''/readyz'') = Inr status) \<and> Ping (su_pool env) = None)"
proof -
  have "rp_status (fst (serve app env \<lparr>wi_request = r, wi_EscapedPath = ''/readyz'', wi_body = b\<rparr> s)) =
      (if Ping (su_pool env) = None then 200 else 503)"
    using assms(2) dispatch_readyz
    by (simp add: serve_def mux_def exact_def protect_def reads_def Ready_def with_security_def http_Error_def)
  moreover have "wo_getenv w ''PORT'' = process_env w ''PORT''"
    using assms(3) by (simp add: wo_getenv_def process_env_def split: option.split)
  then have "portEnv (process_env w) = Inr (cf_Port c)"
    using loadConfig_port [OF assms(1)] by (simp add: portEnv_def positiveIntEnv_def)
  ultimately show ?thesis
    using assms(4)
    by (auto simp: main_program_def exit_of_def runHealthcheck_def checkReadiness_def split: sum.splits if_splits option.splits)
qed


section \<open>Witnesses\<close>

text \<open>A codec that gives back what it was given: the user with a mark before each character, and the token.\<close>

definition demo_encode :: "session_data \<Rightarrow> string" where
  "demo_encode v = concat (map (\<lambda>c. [CHR ''a'', c]) (sd_User v)) @ CHR ''b'' # sd_CSRFToken v"

fun demo_decode :: "string \<Rightarrow> session_data option" where
  "demo_decode [] = None"
| "demo_decode (m # s) =
     (if m = CHR ''b'' then Some \<lparr>sd_User = [], sd_CSRFToken = s\<rparr>
      else (case s of [] \<Rightarrow> None | c # t \<Rightarrow> map_option (\<lambda>v. v\<lparr>sd_User := c # sd_User v\<rparr>) (demo_decode t)))"

lemma demo_codec: "demo_decode (demo_encode v) = Some v"
proof -
  have "demo_decode (concat (map (\<lambda>c. [CHR ''a'', c]) u) @ CHR ''b'' # k) = Some \<lparr>sd_User = u, sd_CSRFToken = k\<rparr>" for u k
    by (induction u) simp_all
  then show ?thesis by (simp add: demo_encode_def)
qed

definition demo_libraries :: libraries where
  "demo_libraries = \<lparr>li_cookies = (\<lambda>key age. \<lparr>Encode = (\<lambda>instant name v. Some (demo_encode v)), Decode = (\<lambda>instant name t. demo_decode t)\<rparr>),
     li_loginCookies = (\<lambda>key age. \<lparr>Encode = (\<lambda>instant name v. Some v), Decode = (\<lambda>instant name v. Some v)\<rparr>),
     li_hash = demo_hash, li_ParseAddress = Some, li_ParseDuration = (\<lambda>_. None), li_app = demo_app\<lparr>ap_matches := demo_matches\<rparr>\<rparr>"

definition demo_world :: world where
  "demo_world = \<lparr>wo_environ = (\<lambda>name. Some (demo_getenv name)), wo_dotenv = (\<lambda>_. None),
     wo_postgres = \<lparr>pg_Open = (\<lambda>_. Inr empty_db), pg_AutoMigrate = Inr, pg_initPayloadSearch = None\<rparr>,
     wo_pool = Inr \<lparr>po_PingContext = None, po_Close = None\<rparr>, wo_admin = no_faults, wo_ending = Signalled, wo_shutdown = None,
     wo_shutdown_at = 0, wo_stopped_at = 0, wo_groups = []\<rparr>"

lemma demo_environ [simp]: "wo_getenv demo_world = demo_getenv" "process_env demo_world = demo_getenv"
  by (simp_all add: fun_eq_iff wo_getenv_def process_env_def demo_world_def)

lemma demo_world_fields [simp]:
  "wo_postgres demo_world = \<lparr>pg_Open = (\<lambda>_. Inr empty_db), pg_AutoMigrate = Inr, pg_initPayloadSearch = None\<rparr>"
  "wo_admin demo_world = no_faults" "wo_ending demo_world = Signalled" "wo_shutdown demo_world = None"
  "wo_environ demo_world = (\<lambda>name. Some (demo_getenv name))"
  by (simp_all add: demo_world_def)

lemma demo_bcrypt: "li_hash demo_libraries p = Inr h \<Longrightarrow> ap_matches (li_app demo_libraries) h p"
  by (simp add: demo_libraries_def demo_hash_def demo_matches_def)

lemma demo_run:
  obtains events res c port app s where "run demo_libraries demo_world = (events, res)" "Served port app s \<in> set events"
    "loadConfig (li_ParseAddress demo_libraries) (li_ParseDuration demo_libraries) (wo_getenv demo_world) = Inr c"
    "ap_auth app = \<lparr>au_cookies = li_cookies demo_libraries (cf_SessionKey c) sessionMaxAgeSeconds,
       au_loginCookies = li_loginCookies demo_libraries (cf_SessionKey c) loginCSRFMaxAgeSeconds,
       au_secure = cf_CookieSecure c, au_trustProxyHeaders = cf_TrustProxyHeaders c\<rparr>"
proof -
  obtain c where c: "loadConfig Some (\<lambda>_. None) demo_getenv = Inr c"
    using demo_config_loaded by (cases "loadConfig Some (\<lambda>_. None) demo_getenv") simp_all
  have key: "\<not> length (cf_SessionKey c) < 32" using loadConfig_facts(3) [OF c] by simp
  have "\<exists>d. EnsureAdmin demo_hash demo_matches no_faults e p empty_db = (Inr (), d)" for e p
    by (simp add: EnsureAdmin_def ensure_admin_body_def demo_hash_def transaction_def FindUserByEmail_def
        empty_db_def insert_user_def insert_row_def set_us_ID_def)
  then obtain d where d: "EnsureAdmin demo_hash demo_matches no_faults (cf_AdminEmail c) (cf_AdminPassword c) empty_db = (Inr (), d)" by blast
  let ?a = "\<lparr>au_cookies = li_cookies demo_libraries (cf_SessionKey c) sessionMaxAgeSeconds,
       au_loginCookies = li_loginCookies demo_libraries (cf_SessionKey c) loginCSRFMaxAgeSeconds,
       au_secure = cf_CookieSecure c, au_trustProxyHeaders = cf_TrustProxyHeaders c\<rparr>"
  have "NewAuth (li_cookies demo_libraries) (li_loginCookies demo_libraries) (cf_SessionKey c) (cf_CookieSecure c) (cf_TrustProxyHeaders c) =
      Inr (?a, newLoginLimiter)" using key by (simp add: NewAuth_def)
  then have "Served (cf_Port c) (app_of demo_libraries c ?a) \<lparr>sv_db = d, sv_limiter = newLoginLimiter\<rparr> \<in>
      set (fst (run demo_libraries demo_world))"
    using c d by (simp add: run_def Open_def demo_libraries_def)
  moreover have "ap_auth (app_of demo_libraries c ?a) = ?a" by (simp add: app_of_def)
  moreover have "loadConfig (li_ParseAddress demo_libraries) (li_ParseDuration demo_libraries) (wo_getenv demo_world) = Inr c"
    using c by (simp add: demo_libraries_def)
  ultimately show thesis using that prod.collapse [symmetric] by blast
qed

theorem run_orderly_witness:
  "\<exists>events. run demo_libraries demo_world = (events, None) \<and> (\<exists>before port app s. events = before @ [Served port app s] @
     drop (length before + 1) events \<and> (\<exists>S. running app S (sv_limiter s) \<and> sys_db S = sv_db s))"
proof -
  obtain events res c port app s where run: "run demo_libraries demo_world = (events, res)" "Served port app s \<in> set events"
    by (rule demo_run)
  have "sys_reachable (init_sys 0)" unfolding sys_reachable_def using no_step by blast
  then have opened: "\<exists>S. sys_reachable S \<and> sys_db S = d \<and> rules_ok (ap_ParseRequestURI (li_app demo_libraries)) d"
    if "Open (wo_postgres demo_world) dc = Inr d" for dc d
    using that by (auto simp: Open_Inr rules_ok_def init_sys_def empty_db_def intro!: exI [of _ "init_sys 0"])
  have "wo_shutdown demo_world = None" "wo_ending demo_world = Signalled" by simp_all
  moreover have "events \<noteq> []" "events \<noteq> [Opened dc, Closed e]" for dc e using run(2) by auto
  ultimately show ?thesis
    using run_orderly [OF run(1) opened demo_bcrypt] run(1) by fastforce
qed

definition demo_admin_form :: "app_config \<Rightarrow> request" where
  "demo_admin_form c = no_request\<lparr>rq_method := ''POST'', rq_cookies := [(''login_csrf'', base64url ''abc'')],
     rq_form := Some ([(''username'', [cf_AdminEmail c]), (''password'', [cf_AdminPassword c]), (''csrf_token'', [base64url ''abc''])], [])\<rparr>"

theorem configured_admin_logs_in_witness:
  "\<exists>events res port app s form s1 r. run demo_libraries demo_world = (events, res) \<and> Served port app s \<in> set events \<and>
     serve app demo_env \<lparr>wi_request = no_request, wi_EscapedPath = ''/login'', wi_body = demo_hook_body\<rparr> s = (form, s1) \<and>
     rp_status (fst (serve app demo_env \<lparr>wi_request = r, wi_EscapedPath = ''/login'', wi_body = demo_hook_body\<rparr> s1)) = 303"
proof -
  obtain events res c port app s where run: "run demo_libraries demo_world = (events, res)" "Served port app s \<in> set events"
    and c: "loadConfig (li_ParseAddress demo_libraries) (li_ParseDuration demo_libraries) (wo_getenv demo_world) = Inr c"
    and a: "ap_auth app = \<lparr>au_cookies = li_cookies demo_libraries (cf_SessionKey c) sessionMaxAgeSeconds,
       au_loginCookies = li_loginCookies demo_libraries (cf_SessionKey c) loginCSRFMaxAgeSeconds,
       au_secure = cf_CookieSecure c, au_trustProxyHeaders = cf_TrustProxyHeaders c\<rparr>"
    by (rule demo_run)
  have email: "TrimSpace (cf_AdminEmail c) = cf_AdminEmail c" by (rule loadConfig_email_trimmed [OF c])
  have get: "rq_method no_request = ''GET''" by (simp add: no_request_def)
  let ?ck = "\<lparr>ck_Name = ''login_csrf'', ck_Value = base64url ''abc'', ck_Path = ''/login'', ck_MaxAge = loginCSRFMaxAgeSeconds,
    ck_Secure = cf_CookieSecure c\<rparr>"
  obtain form s1 where page: "serve app demo_env \<lparr>wi_request = no_request, wi_EscapedPath = ''/login'', wi_body = demo_hook_body\<rparr> s = (form, s1)"
    by (meson surj_pair)
  then have ck: "?ck \<in> set (rp_cookies form)" using serve_login_form [OF get, of app demo_env demo_hook_body s]
    by (auto simp: with_security_def login_form_def randomToken_def demo_env_def demo_login_env_def a demo_libraries_def with_cookie_def)
  have sent: "rq_method (demo_admin_form c) = ''POST''" "rq_form (demo_admin_form c) \<noteq> None"
    "get_cookie (demo_admin_form c) ''login_csrf'' = Some (ck_Value ?ck)" "FormValue (demo_admin_form c) ''csrf_token'' = base64url ''abc''"
    "TrimSpace (FormValue (demo_admin_form c) ''username'') = cf_AdminEmail c"
    "FormValue (demo_admin_form c) ''password'' = cf_AdminPassword c"
    using email by (simp_all add: demo_admin_form_def no_request_def get_cookie_def FormValue_def get_value_def del: base64url.simps)
  have "rp_status (fst (serve app demo_env \<lparr>wi_request = demo_admin_form c, wi_EscapedPath = ''/login'', wi_body = demo_hook_body\<rparr> s1)) = 303"
    by (rule configured_admin_logs_in [OF run c _ demo_bcrypt _ _ page get _ _ ck sent, THEN conjunct2, THEN conjunct1])
      (auto simp: Open_Inr stale_admin_def empty_db_def db_inv_empty [unfolded empty_db_def] demo_libraries_def demo_codec
        demo_env_def demo_login_env_def keeps_for_def demo_admin_form_def no_request_def time_units a)
  then show ?thesis using run page by blast
qed

definition demo_get :: "string \<Rightarrow> string + int" where
  "demo_get url = Inr (rp_status (fst (serve demo_app demo_env \<lparr>wi_request = no_request, wi_EscapedPath = ''/readyz'', wi_body = demo_hook_body\<rparr> demo_server)))"

theorem healthcheck_tells_readiness_witness:
  "main_program demo_libraries demo_world demo_get [''webhookhub'', ''healthcheck''] = ([], Finished)"
proof -
  obtain c where c: "loadConfig Some (\<lambda>_. None) demo_getenv = Inr c"
    using demo_config_loaded by (cases "loadConfig Some (\<lambda>_. None) demo_getenv") simp_all
  have "fst (main_program demo_libraries demo_world demo_get [''webhookhub'', ''healthcheck'']) = [] \<and>
    (snd (main_program demo_libraries demo_world demo_get [''webhookhub'', ''healthcheck'']) = Finished \<longleftrightarrow>
       (\<exists>status. demo_get (''http://127.0.0.1:'' @ FormatInt (cf_Port c) @ ''/readyz'') = Inr status) \<and> Ping (su_pool demo_env) = None)"
    by (rule healthcheck_tells_readiness [where p = Some and q = "\<lambda>_. None" and r = no_request and app = demo_app
          and b = demo_hook_body and s = demo_server])
      (simp_all add: c no_request_def demo_get_def)
  then show ?thesis by (simp add: prod_eq_iff demo_get_def Ping_def demo_env_def)
qed

end
