(* ===== verification/RuleEditor.thy ===== *)
theory RuleEditor
  imports Forms
begin

text \<open>
  The editor of a forwarding rule: the page \<open>EditForwardingForm\<close> renders, the fields its form sends when
  nothing in it was touched (\<open>web/edit_form.html\<close>), and what \<open>UpdateForwardingRule\<close> makes of them. The
  page shows no secret, so the form sends none, and the handler keeps the stored ones.
\<close>

definition positive_or :: "string \<Rightarrow> int \<Rightarrow> string" where
  "positive_or fallback n = (if 0 < n then FormatInt n else fallback)"

definition edit_form_fields :: "edit_forwarding_data \<Rightarrow> (string \<times> string) list" where
  "edit_form_fields data =
     (let rule = ef_Rule data
      in [(''csrf_token'', ef_CSRFToken data),
          (''source'', fr_Source rule),
          (''target'', fr_Target rule),
          (''verify_secret'', []),
          (''verify_header'', fr_VerifyHeader rule),
          (''tolerance'', positive_or [] (fr_ToleranceSeconds rule)),
          (''outgoing_secret'', []),
          (''retry_max_attempts'', positive_or ''3'' (fr_RetryMaxAttempts rule)),
          (''retry_backoff_seconds'', positive_or ''2'' (fr_RetryBackoffSeconds rule))])"

definition submitted :: "(string \<times> string) list \<Rightarrow> request \<Rightarrow> bool" where
  "submitted sent r \<longleftrightarrow> rq_form r = Some (map (\<lambda>(n, v). (n, [v])) sent, [])"

lemma submitted_value:
  assumes "submitted sent r"
  shows "FormValue r name = (case map_of sent name of None \<Rightarrow> [] | Some v \<Rightarrow> v)"
proof -
  have "get_value (map (\<lambda>(n, v). (n, [v])) sent) name = (case map_of sent name of None \<Rightarrow> [] | Some v \<Rightarrow> v)"
    by (induction sent) (auto simp: get_value_def)
  then show ?thesis using assms by (simp add: submitted_def FormValue_def)
qed

lemma alnum_solid: "alnum c \<Longrightarrow> solid c"
  by (auto simp: alnum_def solid_def byte_def Let_def)

lemma validSource_trimmed: "validSource source \<Longrightarrow> TrimSpace source = source"
proof -
  assume "validSource source"
  then have "\<forall>c \<in> set source. alnum c \<or> c = CHR ''.'' \<or> c = CHR ''_'' \<or> c = CHR ''-''"
    by (auto simp: validSource_def list_all_iff split: list.splits)
  moreover have "solid (CHR ''.'')" "solid (CHR ''_'')" "solid (CHR ''-'')" by (simp_all add: solid_def)
  ultimately show ?thesis using alnum_solid by (intro TrimSpace_all_solid) blast
qed

lemma FormatInt_field:
  assumes "0 < n" and "n \<le> max_int64"
  shows "TrimSpace (FormatInt n) = FormatInt n" "Atoi (FormatInt n) = Some n"
  using assms by (simp_all add: TrimSpace_all_solid FormatInt_solid ParseInt_FormatInt int64_defs)

lemma edit_keeps_rule:
  assumes ok: "rule_ok p rule" and sent: "submitted (edit_form_fields \<lparr>ef_Rule = rule, ef_CSRFToken = t\<rparr>) r"
  shows "parseForwardingRuleForm p r (Some rule) = Inr rule" "TrimSpace (FormValue r ''source'') = fr_Source rule"
    "FormValue r ''csrf_token'' = t"
proof -
  note sent_value = submitted_value [OF sent, unfolded edit_form_fields_def Let_def edit_forwarding_data.select_convs]
  have source: "validSource (fr_Source rule)" "TrimSpace (fr_Source rule) = fr_Source rule" "fr_Source rule \<noteq> []"
    using ok validSource_trimmed by (auto simp: rule_ok_def validSource_def)
  have target: "fr_Target rule \<noteq> []" "validateTargetURL p (fr_Target rule) = None"
    using ok by (auto simp: rule_ok_def target_ok_def validateTargetURL_def split: option.splits)
  have settings: "0 < fr_RetryMaxAttempts rule" "fr_RetryMaxAttempts rule \<le> max_int64"
    "0 < fr_RetryBackoffSeconds rule" "fr_RetryBackoffSeconds rule \<le> max_int64" "fr_ToleranceSeconds rule \<le> max_int64"
    "0 \<le> fr_ToleranceSeconds rule" "TrimSpace (fr_Target rule) = fr_Target rule" "TrimSpace (fr_VerifyHeader rule) = fr_VerifyHeader rule"
    using ok by (simp_all add: rule_ok_def)
  note numbers = FormatInt_field [OF settings(1,2)] FormatInt_field [OF settings(3,4)]
  have "parseTolerance (TrimSpace (positive_or [] (fr_ToleranceSeconds rule))) (fr_ToleranceSeconds rule) = Inr (fr_ToleranceSeconds rule)"
    using FormatInt_field [of "fr_ToleranceSeconds rule"] settings(5,6)
    by (auto simp: positive_or_def parseTolerance_def FormatInt_nonempty)
  then have "form_verification r (Some rule) = Inr (fr_VerifySecret rule, fr_VerifyHeader rule, fr_ToleranceSeconds rule)"
    using ok settings(8) by (auto simp: form_verification_def sent_value rule_ok_def normalizeVerifyHeader_def Let_def)
  moreover have "form_outgoing r (Some rule) = fr_OutgoingSecret rule" by (simp add: form_outgoing_def sent_value)
  ultimately show "parseForwardingRuleForm p r (Some rule) = Inr rule"
    using source target settings numbers
    by (simp add: parseForwardingRuleForm_def sent_value positive_or_def parsePositiveIntWithDefault_def FormatInt_nonempty)
  show "TrimSpace (FormValue r ''source'') = fr_Source rule" "FormValue r ''csrf_token'' = t" by (simp_all add: sent_value source(2))
qed

text \<open>Saving a rule with the settings it has changes no row.\<close>

lemma upsert_same:
  assumes "db_inv d" and "rule \<in> set (t_rules d)"
  shows "upsert_rule rule d = Inr ((), d)"
proof -
  have inv: "distinct (map fr_Source (t_rules d))" "fr_ID rule \<noteq> 0"
    using assms db_invD(2) [OF assms(1)] by (auto simp: rules_inv_def keys_ok_def)
  have "(if fr_Source r = fr_Source rule then update_rule_columns rule r else r) = r" if "r \<in> set (t_rules d)" for r
  proof (cases "fr_Source r = fr_Source rule")
    case True
    then have "r = rule" using inv(1) that assms(2) by (metis distinct_map inj_onD)
    then show ?thesis by (simp add: update_rule_columns_def)
  qed simp
  then have "update_rows (\<lambda>r. fr_Source r = fr_Source rule) (update_rule_columns rule) (t_rules d) = t_rules d"
    unfolding update_rows_def by (rule map_idI)
  then show ?thesis using assms(2) inv(2) by (auto simp: upsert_rule_def)
qed

text \<open>
  C22: editing a rule without touching it changes nothing. The page shows the stored rule of the
  source asked for and its own token; sending its form back as it came leaves every row as it was,
  secrets and pause included, whatever the database does, and is answered as a success when the
  database works.
\<close>

theorem untouched_edit_changes_nothing:
  assumes "db_inv d" and "rules_ok p d" and "EditForwardingForm (GetForwardingRule b) g d = Rendered data"
    and "submitted (edit_form_fields data) r"
  shows "find_rule (get_value (rq_query g) ''source'') d = Some (ef_Rule data) \<and> FormValue r ''csrf_token'' = rq_csrf g \<and>
    snd (UpdateForwardingRule p (GetForwardingRule c) (SaveForwardingRule f) (\<lambda>d. d) r d) = d \<and>
    UpdateForwardingRule p (GetForwardingRule False) (SaveForwardingRule no_faults) (\<lambda>d. d) r d = (http_Redirect ''/forwarding'' 303, d)"
proof -
  let ?source = "get_value (rq_query g) ''source''"
  obtain rule where rule: "GetForwardingRule b ?source d = Inr rule" "data = \<lparr>ef_Rule = rule, ef_CSRFToken = rq_csrf g\<rparr>"
    using assms(3) by (auto simp: EditForwardingForm_def Let_def split: if_splits sum.splits)
  have "\<not> b" using rule(1) by (auto simp: GetForwardingRule_def)
  then have found: "find_rule ?source d = Some rule"
    using rule(1) GetForwardingRule_find [OF db_invD(2) [OF assms(1)], of ?source] by (auto split: option.splits)
  then have stored: "rule \<in> set (t_rules d)" "fr_Source rule = ?source" using find_rule_Some by blast+
  then have ok: "rule_ok p rule" using assms(2) by (simp add: rules_ok_def list_all_iff)
  note kept = edit_keeps_rule [OF ok assms(4) [unfolded rule(2)]]
  have get: "GetForwardingRule False (fr_Source rule) d = Inr rule"
    using found stored(2) GetForwardingRule_find [OF db_invD(2) [OF assms(1)]] by simp
  have other: "GetForwardingRule c (fr_Source rule) d = Inr rule \<or> (\<exists>e. GetForwardingRule c (fr_Source rule) d = Inl e)"
    using get by (cases c) (auto simp: GetForwardingRule_def)
  have save: "snd (SaveForwardingRule f rule d) = d" "SaveForwardingRule no_faults rule d = (Inr (), d)"
    using upsert_same [OF assms(1) stored(1)]
    by (simp_all add: SaveForwardingRule_def transaction_def split: commit_outcome.split)
  have "rq_form r \<noteq> None" using assms(4) by (simp add: submitted_def)
  then show ?thesis
    using found kept get other save
    by (auto simp: UpdateForwardingRule_def rule(2) split: sum.splits prod.splits)
qed

definition demo_stored_rules :: db where
  "demo_stored_rules = empty_db\<lparr>t_rules := [demo_new_rule\<lparr>fr_ID := 1\<rparr>], seq_rules := 1\<rparr>"

definition demo_edit_visit :: request where
  "demo_edit_visit = no_request\<lparr>rq_query := [(''source'', [''stripe''])], rq_csrf := ''t''\<rparr>"

theorem untouched_edit_changes_nothing_witness:
  "\<exists>data r. EditForwardingForm (GetForwardingRule False) demo_edit_visit demo_stored_rules = Rendered data \<and>
     submitted (edit_form_fields data) r \<and>
     UpdateForwardingRule demo_urls (GetForwardingRule False) (SaveForwardingRule no_faults) (\<lambda>d. d) r demo_stored_rules =
       (http_Redirect ''/forwarding'' 303, demo_stored_rules)"
proof -
  have source: "fr_Source demo_new_rule = ''stripe''"
    by (simp add: demo_new_rule_def demo_old_rule_def demo_secret_rule_def)
  have "tolerance_ok (fr_ToleranceSeconds demo_old_rule)"
    by (simp add: tolerance_ok_def max_int64_def demo_old_rule_def demo_secret_rule_def)
  then have "rule_ok demo_urls demo_new_rule" using parsed_rule_ok [OF demo_form_parsed] by simp
  then have rules: "rules_ok demo_urls demo_stored_rules" by (simp add: rules_ok_def demo_stored_rules_def rule_ok_def)
  have inv: "db_inv demo_stored_rules"
    by (rule db_inv_rules_part [OF db_inv_empty]) (simp_all add: demo_stored_rules_def empty_db_def rules_inv_def keys_ok_def)
  obtain data where data: "EditForwardingForm (GetForwardingRule False) demo_edit_visit demo_stored_rules = Rendered data"
    using source by (simp add: EditForwardingForm_def GetForwardingRule_def demo_edit_visit_def demo_stored_rules_def get_value_def)
  define r where "r = no_request\<lparr>rq_form := Some (map (\<lambda>(n, v). (n, [v])) (edit_form_fields data), [])\<rparr>"
  have sent: "submitted (edit_form_fields data) r" by (simp add: submitted_def r_def)
  show ?thesis using untouched_edit_changes_nothing [OF inv rules data sent] data sent by blast
qed

end
