(* ===== verification/Spec2Isabelle.thy ===== *)
theory Spec2Isabelle
  imports Startup RuleEditor
begin

text \<open>
  WebhookHub is a small server: it receives webhooks over HTTP, stores each in PostgreSQL, and forwards it
  to the target configured for its source, with retries, until it is delivered or dead-lettered. An
  administrator watches, replays and deletes webhooks and edits the forwarding rules in a web interface.
  This development models the Go code under \<open>cmd/\<close> and \<open>internal/\<close> and proves what makes it correct.

  \<^bold>\<open>The program and its parts.\<close> \<open>main\<close> reads the configuration, opens the database, makes sure of the
  administrator, and starts delivery workers, a retention worker and the HTTP server. They share only the
  database and, among requests, the login limiter. Every change of a webhook is a transaction that
  locks its row; a worker holds a lease (a version and an end time) from claiming a webhook until it
  records the outcome, and whoever lost the lease is fenced off by the version.

  \<^bold>\<open>Theories and sources.\<close> A Go function keeps its name; a handler whose name is also a storage
  operation has the suffix \<open>_handler\<close>.
  \<^item> Prelude, GoLib: types, errors and the standard library used everywhere (64-bit arithmetic,
    \<open>strings\<close>, \<open>strconv\<close>, UTF-8, contexts). Sha256, Json, Indent, Urls, Calendar: HMAC-SHA256, the JSON
    of headers, \<open>json.Indent\<close> and \<open>hex.Dump\<close>, queries of \<open>net/url\<close>, dates of \<open>time\<close>.
  \<^item> Connection (\<open>storage.Open\<close>, \<open>Ping\<close>, \<open>Close\<close>): the URL the database is opened with.
  \<^item> Models (\<open>internal/model\<close>): the rows. Store (\<open>internal/storage/db.go\<close>): the tables with their
    sequences, transactions with their faults, and the simple operations; DbInv: the invariant of the
    tables and its preservation.
  \<^item> Delivery, Leases (\<open>db_retry.go\<close>, \<open>db_delivery.go\<close>): claiming, attempts and their completion under
    a lease. BulkReplay (\<open>db_bulk_replay.go\<close>), Retention (\<open>db_retention.go\<close>), Rules (\<open>db_forwarding.go\<close>),
    Users (\<open>db_user.go\<close>, \<open>EnsureAdmin\<close>), Searches (\<open>db_filtered.go\<close>), Metrics (\<open>db_delivery_attempts.go\<close>).
  \<^item> Lifecycle, System: the abstract lifecycle of a webhook, and the whole program as a transition
    system whose steps are its transactions.
  \<^item> Forwarder, Workers (\<open>internal/forwarder\<close>): one delivery, the worker loop, and how they refine the system.
    HmacSig (\<open>internal/hmacsig\<close>): the signatures.
  \<^item> Web: requests, replies and local redirects. Hooks, Mutations (\<open>handler/webhook.go\<close>): the public
    endpoint, replay and delete. Forms, RuleEditor (\<open>handler/forwarding.go\<close>), LoginLimiter, Auth (\<open>login_limiter.go\<close>,
    \<open>auth.go\<close>), Dates (\<open>date_filter.go\<close>), Pages, Paging (\<open>webhook_partial.go\<close>, \<open>dashboard.go\<close>, \<open>dlq.go\<close>, the
    JSON list of \<open>webhook.go\<close>), BulkForm (\<open>bulk_replay.go\<close>), Inspect (\<open>inspect.go\<close>).
  \<^item> Routes, Server, Access, Program (\<open>routes\<close> and \<open>securityHeaders\<close> of \<open>cmd/webhookhub/main.go\<close>, \<open>health.go\<close>,
    \<open>index.go\<close>): the table of routes, the server on its state, who may do what, and the server as
    part of the system. Config, Startup (the rest of \<open>main.go\<close>): the configuration, \<open>main\<close>, \<open>run\<close> and the health check.

  \<^bold>\<open>State and errors.\<close> A table is a list of rows in the order of insertion with a sequence for its
  keys. An operation of the storage takes the faults it meets (a statement or the commit fails, or the
  commit takes effect but is not confirmed) and gives an error or a value with the new database. A
  handler takes the operations it calls as arguments, as the code takes them through an interface, and
  gives the reply and the new state; a page is the data its template is given. What happens between
  two transactions of one call is a parameter (\<open>others\<close>), constrained to steps of the system.

  \<^bold>\<open>Interfaces.\<close> What a handler relies on is a locale, interpreted on the model's own operations:
  \<open>keyed_table\<close> (Store), \<open>webhook_mutation\<close> (Mutations), \<open>rule_store\<close> (Forms), \<open>bulk_replay_store\<close> (BulkForm),
  \<open>slice_store\<close> with its extension \<open>search_store\<close> (Paging), \<open>inspect_store\<close> (Inspect).

  \<^bold>\<open>What is shown.\<close>
  \<^item> Data: in every reachable state the tables satisfy their invariant, leases are exclusive, stale workers
    change nothing, webhooks follow the lifecycle, rules stay well formed and an untouched edit keeps them
    (System, Leases, Forms, RuleEditor, Program).
  \<^item> Delivery: claims with what they interrupt, what a delivery records of its outcome, the number of failures
    before a webhook is dead-lettered, faithful requests with signatures the receiver accepts and no redirect carries further, complete and safe cleanup (Leases, Workers, Forwarder, Retention).
  \<^item> Access: the verdict on a signature header is that of its fields (exactly so for timestamps within 292 years
    of the clock, where the age does not overflow), a webhook is accepted only if its signature verifies, state changes only for authorised
    requests, replies to others do not depend on what is stored, login needs the password and is
    limited, the database is opened with the configured credentials, and the configured administrator
    gets in (Hooks, HmacSig, Access, Auth, LoginLimiter, Connection, Startup).
  \<^item> Display: what was received is shown byte for byte, pages partition a result and their links lead
    through it, clock times resolve to their only instant, figures are counts and rates their quotients (Inspect, Paging,
    Searches, Dates, Metrics, Program).

  \<^bold>\<open>Bounds.\<close> Go's \<open>int\<close>, \<open>int64\<close> and \<open>time.Duration\<close> are unbounded integers with the wrap-around to 64 bits
  written out where the code computes (\<open>wrap64\<close>), so overflows are part of the model; results that need a
  size (a page number, a key, a count of rows below \<open>max_int64\<close>) say so. Loops are recursive functions with
  a termination proof, except the search for a clock time, which follows the zone's transitions and may
  not end: there \<open>None\<close> stands for an endless search, and theory Dates shows when there is none.

  \<^bold>\<open>Parameters.\<close> Code outside the repository is an argument of the definitions that use it: \<open>bcrypt\<close>,
  \<open>securecookie\<close>, \<open>net/mail\<close>, \<open>netip\<close> and \<open>url.ParseRequestURI\<close>, the zone database, the database's lower-casing,
  the driver and what migrating the tables does, the targets of deliveries, the redirects of \<open>http.ServeMux\<close>, the embedded files and the templates' text.
  A fact relied on is a hypothesis with a witness. \<open>securecookie\<close> is a pair of functions of the instant they are
  called at: encoding may fail (a value too long for a cookie), and what was encoded is promised to decode only
  until \<open>MaxAge\<close> has passed. The environment of the process and the \<open>.env\<close> file are told apart, because only the
  service, not the health check, reads that file.

  \<^bold>\<open>Not modelled.\<close> The SQL of the migration and of the search function (its result is \<open>payload_text\<close>),
  the logger, goroutines and timers as such (the workers are interleaved by the system's steps, a worker's
  loop is one function), the timeouts of the HTTP server, \<open>templates.go\<close> and \<open>embed.go\<close> (parsing of embedded
  files, with no logic of their own), HTML and the JSON text of a list, rounding of rates to \<open>float64\<close>,
  \<open>CONNECT\<close> requests, and the order of rows that tie in a query.

  \<^bold>\<open>Simplifications.\<close> Times in the database keep nanoseconds where PostgreSQL keeps microseconds, so a claimed
  copy equals its stored row exactly; failure counts do not overflow; a retention period is a number of whole days of
  24 hours; the text of a JSON decoding error is left out of the message of a failed attempt; and a response
  whose \<open>Location\<close> cannot be parsed is an ordinary response, where Go's client answers with an error.
\<close>

end
